(* ===== verification/Prelude.thy ===== *)
theory Prelude
  imports Main "HOL-Library.Word"
begin

text \<open>
  Shared ground of the development: the theorem collections, the integer widths of the
  code, the ways a C++ statement can end (\<open>flow\<close>) and the ways a whole function can
  end (\<open>result\<close>), and the small combinators with which every callback below is
  written.  A statement works on the record of the local variables of its function; it
  continues, jumps to the cleanup label, returns, throws or runs into undefined behaviour,
  and each of these is a value.
\<close>

named_theorems flow_simps
  \<open>how the combinators of statements compute on each way a statement can end\<close>
named_theorems trace_simps
  \<open>what the observation functions read off a trace of external calls\<close>

type_synonym u8 = "8 word"
type_synonym u16 = "16 word"
type_synonym u32 = "32 word"
type_synonym u64 = "64 word"

section \<open>Errors\<close>

text \<open>The exceptions that the code, its standard library or its libraries throw.\<close>

datatype exn =
    Runtime_error string    \<comment> \<open>std::runtime_error with its message\<close>
  | Invalid_argument        \<comment> \<open>std::invalid_argument, from std::stoi\<close>
  | Out_of_range            \<comment> \<open>std::out_of_range, from std::stoi\<close>
  | Boost_error             \<comment> \<open>boost::system::system_error, from address::from_string\<close>
  | Library_error           \<comment> \<open>any std::exception out of the VOM library\<close>

text \<open>The undefined behaviour that the code can run into.\<close>

datatype fault =
    Null_deref        \<comment> \<open>a null pointer is dereferenced\<close>
  | Null_string       \<comment> \<open>a std::string is assigned a null char pointer\<close>
  | Bad_union         \<comment> \<open>a member of a union other than the stored one is read\<close>
  | Stack_smash       \<comment> \<open>more bytes are written to a local than it holds\<close>
  | Buffer_overflow   \<comment> \<open>a write past the end of a heap buffer\<close>
  | End_deref         \<comment> \<open>the past-the-end iterator is dereferenced\<close>
  | Wild_free         \<comment> \<open>an uninitialised pointer is freed\<close>

section \<open>How a statement ends\<close>

datatype ('r, 's) flow =
    Next 's           \<comment> \<open>fall through to the next statement\<close>
  | Goto 's           \<comment> \<open>goto the cleanup label of the function\<close>
  | Ret 'r 's         \<comment> \<open>return a value, without the cleanup\<close>
  | Throws exn 's
  | Faults fault 's

text \<open>How a function that returns a value of type \<open>'r\<close> ends.\<close>

datatype 'r result = Returned 'r | Raised exn | Crashed fault

fun then_flow :: "('r, 's) flow \<Rightarrow> ('s \<Rightarrow> ('r, 's) flow) \<Rightarrow> ('r, 's) flow" where
  "then_flow (Next s) k = k s"
| "then_flow (Goto s) k = Goto s"
| "then_flow (Ret r s) k = Ret r s"
| "then_flow (Throws e s) k = Throws e s"
| "then_flow (Faults f s) k = Faults f s"

text \<open>Use of a pointer or of an optional value: undefined behaviour when it is absent.\<close>

fun need :: "fault \<Rightarrow> 'a option \<Rightarrow> 's \<Rightarrow> ('a \<Rightarrow> ('r, 's) flow) \<Rightarrow> ('r, 's) flow" where
  "need f None s k = Faults f s"
| "need f (Some x) s k = k x"

text \<open>Use of an expression that may throw.\<close>

fun attempt :: "exn + 'a \<Rightarrow> 's \<Rightarrow> ('a \<Rightarrow> ('r, 's) flow) \<Rightarrow> ('r, 's) flow" where
  "attempt (Inl e) s k = Throws e s"
| "attempt (Inr x) s k = k x"

text \<open>A \<open>try\<close> block whose handler only logs the exception.\<close>

fun catch_flow :: "('r, 's) flow \<Rightarrow> ('r, 's) flow" where
  "catch_flow (Throws e s) = Next s"
| "catch_flow (Next s) = Next s"
| "catch_flow (Goto s) = Goto s"
| "catch_flow (Ret r s) = Ret r s"
| "catch_flow (Faults f s) = Faults f s"

declare catch_flow.simps [flow_simps]
declare then_flow.simps [flow_simps] need.simps [flow_simps] attempt.simps [flow_simps]

fun flow_state :: "('r, 's) flow \<Rightarrow> 's" where
  "flow_state (Next s) = s"
| "flow_state (Goto s) = s"
| "flow_state (Ret r s) = s"
| "flow_state (Throws e s) = s"
| "flow_state (Faults f s) = s"

declare flow_state.simps [flow_simps]

lemma then_flow_Next_iff:
  "then_flow m k = Next t \<longleftrightarrow> (\<exists>s. m = Next s \<and> k s = Next t)"
  by (cases m) auto

lemma then_flow_assoc: "then_flow (then_flow m k) l = then_flow m (\<lambda>s. then_flow (k s) l)"
  by (cases m) auto

lemma then_flow_Next [simp]: "then_flow m Next = m"
  by (cases m) auto

lemma need_Next_iff:
  "need f x s k = Next t \<longleftrightarrow> (\<exists>y. x = Some y \<and> k y = Next t)"
  by (cases x) auto

lemma attempt_Next_iff:
  "attempt x s k = Next t \<longleftrightarrow> (\<exists>y. x = Inr y \<and> k y = Next t)"
  by (cases x) auto

lemma need_split:
  "P (need f x s k) \<longleftrightarrow> (x = None \<longrightarrow> P (Faults f s)) \<and> (\<forall>y. x = Some y \<longrightarrow> P (k y))"
  by (cases x) auto

lemma need_split_asm:
  "P (need f x s k) \<longleftrightarrow> \<not> (x = None \<and> \<not> P (Faults f s) \<or> (\<exists>y. x = Some y \<and> \<not> P (k y)))"
  by (cases x) auto

lemma attempt_split:
  "P (attempt x s k) \<longleftrightarrow> (\<forall>e. x = Inl e \<longrightarrow> P (Throws e s)) \<and> (\<forall>y. x = Inr y \<longrightarrow> P (k y))"
  by (cases x) auto

lemma attempt_split_asm:
  "P (attempt x s k) \<longleftrightarrow> \<not> ((\<exists>e. x = Inl e \<and> \<not> P (Throws e s)) \<or> (\<exists>y. x = Inr y \<and> \<not> P (k y)))"
  by (cases x) auto

lemmas flow_splits = need_split need_split_asm attempt_split attempt_split_asm

lemmas flow_Next_iffs = then_flow_Next_iff need_Next_iff attempt_Next_iff

section \<open>Lists\<close>

lemma upt_snoc: "i \<le> j \<Longrightarrow> [i..<j] @ [j] = [i..<Suc j]"
  by simp

lemma map_filter_append [simp]:
  "List.map_filter f (xs @ ys) = List.map_filter f xs @ List.map_filter f ys"
  by (simp add: List.map_filter_def)

lemma map_filter_Nil [simp]: "List.map_filter f [] = []"
  by (simp add: List.map_filter_def)

lemma map_filter_Cons [simp]:
  "List.map_filter f (x # xs) =
     (case f x of None \<Rightarrow> List.map_filter f xs | Some y \<Rightarrow> y # List.map_filter f xs)"
  by (simp add: List.map_filter_def split: option.splits)

end
