(* ===== verification/Cpp_Std.thy ===== *)
theory Cpp_Std
  imports Prelude
begin

text \<open>
  The parts of the C and C++ standard library that the sources use on strings and numbers:
  \<open>std::string::find_last_of\<close>, \<open>std::stoi\<close>, \<open>atoi\<close>,
  \<open>std::to_string\<close> and the decimal \<open>operator<<\<close>, the conversion \<open>%02x\<close>
  of the printf family, the truncation of \<open>snprintf\<close>, and the first token of
  \<open>strtok\<close>.  Characters are bytes.  A string of the model is the content before the
  terminating NUL.
\<close>

section \<open>Searching\<close>

text \<open>Index of the last occurrence of a character, \<open>None\<close> for \<open>npos\<close>.\<close>

fun find_last_of :: "char \<Rightarrow> string \<Rightarrow> nat option" where
  "find_last_of c [] = None"
| "find_last_of c (x # xs) =
     (case find_last_of c xs of
        Some i \<Rightarrow> Some (Suc i)
      | None \<Rightarrow> if x = c then Some 0 else None)"

lemma find_last_of_None_iff: "find_last_of c s = None \<longleftrightarrow> c \<notin> set s"
  by (induction s) (auto split: option.splits)

lemma find_last_of_append:
  "c \<notin> set ys \<Longrightarrow> find_last_of c (xs @ c # ys) = Some (length xs)"
  by (induction xs) (simp_all add: find_last_of_None_iff [THEN iffD2])

lemma find_last_of_Some_split:
  "find_last_of c s = Some i \<Longrightarrow>
     s = take i s @ c # drop (Suc i) s \<and> c \<notin> set (drop (Suc i) s)"
proof (induction s arbitrary: i)
  case Nil
  then show ?case by simp
next
  case (Cons x xs)
  show ?case
  proof (cases "find_last_of c xs")
    case None
    with Cons.prems show ?thesis
      by (auto simp: find_last_of_None_iff split: if_splits)
  next
    case (Some j)
    with Cons show ?thesis by fastforce
  qed
qed

section \<open>Decimal numbers\<close>

definition digit :: "nat \<Rightarrow> char" where
  "digit d = char_of (48 + d)"

definition is_digit :: "char \<Rightarrow> bool" where
  "is_digit c \<longleftrightarrow> 48 \<le> (of_char c :: nat) \<and> (of_char c :: nat) \<le> 57"

definition digit_value :: "char \<Rightarrow> nat" where
  "digit_value c = of_char c - 48"

text \<open>The decimal numeral of an unsigned number, as \<open>std::to_string\<close> prints it.\<close>

fun dec :: "nat \<Rightarrow> string" where
  "dec n = (if n < 10 then [digit n] else dec (n div 10) @ [digit (n mod 10)])"

declare dec.simps [simp del]

definition digits_value :: "string \<Rightarrow> nat" where
  "digits_value ds = foldl (\<lambda>v c. 10 * v + digit_value c) 0 ds"

lemma of_char_digit: "d < 10 \<Longrightarrow> (of_char (digit d) :: nat) = 48 + d"
  by (simp add: digit_def)

lemma is_digit_digit: "d < 10 \<Longrightarrow> is_digit (digit d)"
  by (simp add: is_digit_def of_char_digit)

lemma digit_value_digit: "d < 10 \<Longrightarrow> digit_value (digit d) = d"
  by (simp add: digit_value_def of_char_digit)

lemma digits_value_snoc:
  "digits_value (ds @ [c]) = 10 * digits_value ds + digit_value c"
  by (simp add: digits_value_def)

lemma dec_nonempty: "dec n \<noteq> []"
  by (subst dec.simps) simp

lemma dec_digits: "c \<in> set (dec n) \<Longrightarrow> is_digit c"
proof (induction n rule: dec.induct)
  case (1 n)
  show ?case
  proof (cases "n < 10")
    case True
    with "1.prems" show ?thesis by (simp add: dec.simps [of n] is_digit_digit)
  next
    case False
    with 1 show ?thesis by (auto simp: dec.simps [of n] is_digit_digit)
  qed
qed

lemma digits_value_dec: "digits_value (dec n) = n"
proof (induction n rule: dec.induct)
  case (1 n)
  show ?case
  proof (cases "n < 10")
    case True
    then show ?thesis by (simp add: dec.simps [of n] digits_value_def digit_value_digit)
  next
    case False
    with 1 show ?thesis
      by (simp add: dec.simps [of n] digits_value_snoc digit_value_digit)
  qed
qed

lemma dec_inj: "dec m = dec n \<longleftrightarrow> m = n"
  by (metis digits_value_dec)

lemma is_digit_not_sign:
  "is_digit c \<Longrightarrow> c \<noteq> CHR ''-'' \<and> c \<noteq> CHR ''+'' \<and> c \<noteq> CHR ''/'' \<and> c \<noteq> CHR ''_'' \<and> c \<noteq> CHR ''l''"
  by (auto simp: is_digit_def)

section \<open>std::stoi and atoi\<close>

definition is_space :: "char \<Rightarrow> bool" where
  "is_space c \<longleftrightarrow> (of_char c :: nat) = 32 \<or> 9 \<le> (of_char c :: nat) \<and> (of_char c :: nat) \<le> 13"

text \<open>
  What \<open>strtol\<close> reads in base 10: white space, an optional sign, then the longest run
  of digits; \<open>None\<close> when there is no digit.  What follows the digits is ignored.
\<close>

definition signed_numeral :: "string \<Rightarrow> bool \<times> string" where
  "signed_numeral t =
     (case t of
        [] \<Rightarrow> (False, [])
      | c # r \<Rightarrow> if c = CHR ''-'' then (True, r) else if c = CHR ''+'' then (False, r) else (False, t))"

definition strtol10 :: "string \<Rightarrow> int option" where
  "strtol10 s =
     (let (neg, u) = signed_numeral (dropWhile is_space s);
          ds = takeWhile is_digit u
      in if ds = [] then None
         else Some (if neg then - int (digits_value ds) else int (digits_value ds)))"

text \<open>\<open>std::stoi\<close> throws when there is no number and when it does not fit an int.\<close>

definition stoi :: "string \<Rightarrow> exn + int" where
  "stoi s =
     (case strtol10 s of
        None \<Rightarrow> Inl Invalid_argument
      | Some v \<Rightarrow> if v < - (2 ^ 31) \<or> 2 ^ 31 \<le> v then Inl Out_of_range else Inr v)"

text \<open>
  \<open>atoi\<close> is \<open>strtol\<close> narrowed to an int, as the C library for the systems that VPP runs
  on has it: the long that \<open>strtol\<close> gives has 64 bits and stops at its limits, and the int
  keeps the low 32 of them.  It answers 0 where there is no number.
\<close>

definition atoi :: "string \<Rightarrow> int" where
  "atoi s =
     (case strtol10 s of
        None \<Rightarrow> 0
      | Some v \<Rightarrow> signed_take_bit 31 (max (- (2 ^ 63)) (min (2 ^ 63 - 1) v)))"

lemma atoi_range: "- (2 ^ 31) \<le> atoi s \<and> atoi s < 2 ^ 31"
  using signed_take_bit_int_greater_eq_minus_exp [of 31] signed_take_bit_int_less_exp [of 31]
  by (simp add: atoi_def split: option.split)

lemma is_digit_not_space: "is_digit c \<Longrightarrow> \<not> is_space c"
  by (auto simp: is_digit_def is_space_def)

lemma strtol10_dec: "strtol10 (dec n) = Some (int n)"
proof -
  obtain c r where cr: "dec n = c # r"
    using dec_nonempty by (cases "dec n") auto
  have dig: "\<forall>x \<in> set (dec n). is_digit x"
    by (simp add: dec_digits)
  then have "is_digit c" by (simp add: cr)
  then have "dropWhile is_space (dec n) = dec n"
    and "signed_numeral (dec n) = (False, dec n)"
    by (simp_all add: cr is_digit_not_space signed_numeral_def is_digit_not_sign)
  moreover have "takeWhile is_digit (dec n) = dec n"
    using dig by simp
  ultimately show ?thesis
    by (simp add: strtol10_def Let_def dec_nonempty digits_value_dec del: takeWhile_eq_all_conv)
qed

lemma stoi_dec: "n < 2 ^ 31 \<Longrightarrow> stoi (dec n) = Inr (int n)"
  by (simp add: stoi_def strtol10_dec)

lemma atoi_dec: "n < 2 ^ 31 \<Longrightarrow> atoi (dec n) = int n"
  by (simp add: atoi_def strtol10_dec signed_take_bit_int_eq_self)

section \<open>Formatted output\<close>

definition hex_digit :: "nat \<Rightarrow> char" where
  "hex_digit d = (if d < 10 then char_of (48 + d) else char_of (87 + d))"

text \<open>The conversion \<open>%02x\<close> of a byte.\<close>

definition hex2 :: "u8 \<Rightarrow> string" where
  "hex2 b = [hex_digit (unat b div 16), hex_digit (unat b mod 16)]"

lemma hex_digit_inj:
  assumes "d < 16" "e < 16"
  shows "hex_digit d = hex_digit e \<longleftrightarrow> d = e"
proof -
  have "(of_char (hex_digit k) :: nat) = (if k < 10 then 48 + k else 87 + k)" if "k < 16" for k
    using that by (auto simp: hex_digit_def)
  note val = this
  show ?thesis
  proof
    assume "hex_digit d = hex_digit e"
    then have "(of_char (hex_digit d) :: nat) = of_char (hex_digit e)" by simp
    then show "d = e" using assms by (simp add: val split: if_splits)
  qed simp
qed

text \<open>
  \<open>snprintf\<close> into a buffer of \<open>n\<close> bytes keeps at most \<open>n - 1\<close> characters
  of the text and terminates them.
\<close>

definition snprintf :: "nat \<Rightarrow> string \<Rightarrow> string" where
  "snprintf n s = take (n - 1) s"

lemma length_snprintf: "length (snprintf n s) \<le> n - 1"
  by (simp add: snprintf_def)

lemma snprintf_fits: "length s < n \<Longrightarrow> snprintf n s = s"
  by (simp add: snprintf_def)

text \<open>
  The first token of \<open>strtok (s, " ")\<close>: leading spaces are skipped, and \<open>None\<close>
  stands for a null result, when nothing else is left.
\<close>

definition strtok_space :: "string \<Rightarrow> string option" where
  "strtok_space s =
     (let t = dropWhile (\<lambda>c. c = CHR '' '') s
      in if t = [] then None else Some (takeWhile (\<lambda>c. c \<noteq> CHR '' '') t))"

text \<open>The C string at the start of a byte buffer: everything before the first NUL.\<close>

definition c_string :: "string \<Rightarrow> string" where
  "c_string s = takeWhile (\<lambda>c. c \<noteq> CHR 0x00) s"

end
