(* ===== verification/Sysrepo_Vom.thy ===== *)
theory Sysrepo_Vom
  imports Cpp_Std
begin

text \<open>
  The interfaces that the plugins are written against: the data types of sysrepo (error
  codes, events, changes, values), of VOM (interfaces, bindings, mappings, result codes), of
  the VPP binary API (the details of an interface) and of Boost (addresses).  The functions
  of these libraries are not part of this repository.  Whatever they answer is a field of
  the record \<open>env\<close>, a parameter of every definition that calls them; an answer may
  depend on everything that happened before, the \<open>trace\<close> of external calls, so that
  nothing is assumed of the libraries here.  What the plugins do to the outside world is the
  list of calls they add to the trace.
\<close>

section \<open>sysrepo\<close>

datatype sr_err =
    SR_ERR_OK | SR_ERR_INVAL_ARG | SR_ERR_NOMEM | SR_ERR_UNSUPPORTED
  | SR_ERR_OPERATION_FAILED | SR_ERR_DISCONNECT | SR_ERR_OTHER nat

datatype sr_event = SR_EV_VERIFY | SR_EV_APPLY | SR_EV_ABORT | SR_EV_ENABLED

datatype sr_oper = SR_OP_CREATED | SR_OP_MODIFIED | SR_OP_DELETED | SR_OP_MOVED

datatype sr_type =
    SR_LIST_T | SR_BOOL_T | SR_STRING_T | SR_ENUM_T | SR_IDENTITYREF_T
  | SR_UINT8_T | SR_UINT16_T | SR_UINT32_T | SR_INT32_T | SR_UINT64_T | SR_OTHER_T

text \<open>The union of a value: which member is stored, and what it holds.\<close>

datatype sr_data =
    No_data | Bool_val bool | String_val string | Uint8_val u8 | Uint16_val u16
  | Uint32_val u32 | Int32_val u32 | Uint64_val u64

record sr_val =
  v_xpath :: string
  v_type :: sr_type
  v_data :: sr_data

text \<open>
  One answer of \<open>sr_get_change_next\<close>: the operation and the two values, either of
  which may be a null pointer.
\<close>

record change =
  ch_op :: sr_oper
  ch_old :: "sr_val option"
  ch_new :: "sr_val option"

text \<open>A session of a notification gives the changes under an xpath, in order.\<close>

record sr_session =
  s_changes :: "string \<Rightarrow> change list"

text \<open>Reading a member of the union; \<open>None\<close> when another member is stored.\<close>

fun bool_val :: "sr_data \<Rightarrow> bool option" where
  "bool_val (Bool_val b) = Some b" | "bool_val _ = None"

fun string_val :: "sr_data \<Rightarrow> string option" where
  "string_val (String_val s) = Some s" | "string_val _ = None"

fun uint8_val :: "sr_data \<Rightarrow> u8 option" where
  "uint8_val (Uint8_val w) = Some w" | "uint8_val _ = None"

fun uint32_val :: "sr_data \<Rightarrow> u32 option" where
  "uint32_val (Uint32_val w) = Some w" | "uint32_val _ = None"

section \<open>Boost, VOM and the VPP API\<close>

text \<open>
  \<open>boost::asio::ip::address\<close> is a v4 address of four bytes or a v6 address of sixteen
  bytes with a scope; a default constructed one is the v4 address 0.0.0.0.
\<close>

datatype ip_address = Ip_v4 u32 | Ip_v6 "128 word" u32

definition ip_default :: ip_address where
  "ip_default = Ip_v4 0"

datatype addr_family = AF_INET | AF_INET6

text \<open>
  Values of VOM types are represented by the call that makes them:
  \<open>type_t::from_string\<close> of a name, \<open>admin_state_t::from_int\<close> of a flag,
  \<open>route::prefix_t\<close> of an address and a length.
\<close>

datatype vom_type = Type_from_string string
datatype vom_admin = Admin_from_int bool
datatype rc_t = RC_OK | RC_OTHER

record itf =
  itf_name :: string
  itf_type :: vom_type
  itf_admin :: vom_admin

datatype obj =
    Obj_itf itf
  | Obj_l3 itf "string \<times> u8"
  | Obj_nat ip_address ip_address

record stats_t =
  m_rx_bytes :: u64
  m_rx_unicast_packets :: u64
  m_rx_broadcast_packets :: u64
  m_rx_multicast_packets :: u64
  m_tx_bytes :: u64
  m_tx_unicast_packets :: u64
  m_tx_broadcast_packets :: u64
  m_tx_multicast_packets :: u64

text \<open>A hardware address, an array of six bytes.\<close>

datatype mac = Mac u8 u8 u8 u8 u8 u8

text \<open>The fields of \<open>vapi_payload_sw_interface_details\<close> that the plugins read.\<close>

record itf_details =
  d_name :: string
  d_flags :: u32
  d_l2_address :: mac
  d_sw_if_index :: u32
  d_link_speed :: u32
  d_link_mtu :: u16

text \<open>
  The request of a dump, as the VAPI lays it out: is the name filter valid, the length field
  of the filter and the bytes of its buffer.
\<close>

record dump_request =
  q_name_filter_valid :: u8
  q_length :: u32
  q_buf :: string

section \<open>The trace of external calls\<close>

text \<open>The callbacks that the plugins subscribe, by the function they name.\<close>

datatype callback =
    Cb_itf_create | Cb_ipv46_address | Cb_itf_state | Cb_itf_statistics
  | Cb_oc_config | Cb_oc_state | Cb_nat_instance | Cb_nat_mapping | Cb_nat_cap

datatype effect =
    Om_write string obj "exn + rc_t"
  | Om_remove string "exn option"
  | Itf_set string vom_admin                  \<comment> \<open>set on the object that find gave for a name\<close>
  | Free_vals nat                             \<comment> \<open>sr_free_val of both values of the i-th change\<close>
  | Free_iter
  | Set_error string string
  | Hw_dump dump_request                      \<comment> \<open>the execution of a dump of interfaces\<close>
  | Subscribe_change string callback nat sr_err
  | Subscribe_items string callback sr_err
  | Unsubscribe
  | Hw_init | Om_init | Hw_connect bool | Hw_disconnect
  | Om_populate "exn option" | Om_replay

type_synonym trace = "effect list"

record env =
  node_name_eq :: "string \<Rightarrow> string \<Rightarrow> bool"                   \<comment> \<open>sr_xpath_node_name_eq\<close>
  key_value :: "string \<Rightarrow> string \<Rightarrow> string \<Rightarrow> string option"    \<comment> \<open>sr_xpath_key_value\<close>
  next_nulls :: bool             \<comment> \<open>does a failing sr_get_change_next null its out pointers\<close>
  failed_iter_nulls :: bool      \<comment> \<open>does a failing sr_get_changes_iter null its out pointer\<close>
  changes_rc :: "trace \<Rightarrow> string \<Rightarrow> sr_err"                    \<comment> \<open>sr_get_changes_iter\<close>
  new_values_rc :: "trace \<Rightarrow> nat \<Rightarrow> sr_err"                    \<comment> \<open>sr_new_values\<close>
  subscribe_rc :: "trace \<Rightarrow> string \<Rightarrow> sr_err"                  \<comment> \<open>sr_*_subscribe\<close>
  itf_find :: "trace \<Rightarrow> string \<Rightarrow> itf option"                  \<comment> \<open>interface::find\<close>
  itf_key :: "itf \<Rightarrow> string"                                  \<comment> \<open>interface::key\<close>
  om_write :: "trace \<Rightarrow> string \<Rightarrow> obj \<Rightarrow> exn + rc_t"           \<comment> \<open>OM::write\<close>
  om_remove :: "trace \<Rightarrow> string \<Rightarrow> exn option"                 \<comment> \<open>OM::remove\<close>
  om_populate :: "trace \<Rightarrow> exn option"                        \<comment> \<open>OM::populate\<close>
  hw_connect :: "trace \<Rightarrow> bool"                               \<comment> \<open>HW::connect\<close>
  prefix_exn :: "string \<Rightarrow> u8 \<Rightarrow> exn option"                  \<comment> \<open>does route::prefix_t throw\<close>
  prefix_str :: "string \<Rightarrow> u8 \<Rightarrow> string"                      \<comment> \<open>route::prefix_t::to_string\<close>
  new_request :: "trace \<Rightarrow> dump_request"                   \<comment> \<open>the request of a new message\<close>
  itf_dump :: "trace \<Rightarrow> dump_request \<Rightarrow> itf_details list"      \<comment> \<open>the answers to a dump\<close>
  itf_stats :: "trace \<Rightarrow> string \<Rightarrow> stats_t"                    \<comment> \<open>interface::get_stats\<close>
  flag_admin_up :: u32                              \<comment> \<open>IF_STATUS_API_FLAG_ADMIN_UP\<close>
  flag_link_up :: u32                               \<comment> \<open>IF_STATUS_API_FLAG_LINK_UP\<close>
  addr_from_string :: "string \<Rightarrow> ip_address option"           \<comment> \<open>address::from_string\<close>
  addr_to_string :: "ip_address \<Rightarrow> string"                    \<comment> \<open>address::to_string\<close>
  inet_pton :: "addr_family \<Rightarrow> string \<Rightarrow> u8 list option"      \<comment> \<open>the bytes it stores\<close>
  big_endian :: bool                                          \<comment> \<open>byte order of the host\<close>

section \<open>Reading a trace\<close>

fun config_op :: "effect \<Rightarrow> effect option" where
  "config_op (Om_write k x r) = Some (Om_write k x r)"
| "config_op (Om_remove k r) = Some (Om_remove k r)"
| "config_op (Itf_set n a) = Some (Itf_set n a)"
| "config_op _ = None"

text \<open>The calls that change the configuration of VPP, in order.\<close>

definition config_ops :: "trace \<Rightarrow> effect list" where
  "config_ops tr = List.map_filter config_op tr"

fun freed_val :: "effect \<Rightarrow> nat option" where
  "freed_val (Free_vals i) = Some i"
| "freed_val _ = None"

text \<open>The changes whose values were given back, in order.\<close>

definition freed_vals :: "trace \<Rightarrow> nat list" where
  "freed_vals tr = List.map_filter freed_val tr"

fun is_free_iter :: "effect \<Rightarrow> bool" where
  "is_free_iter Free_iter = True"
| "is_free_iter _ = False"

text \<open>How often an iterator was given back.\<close>

definition iter_frees :: "trace \<Rightarrow> nat" where
  "iter_frees tr = length (filter is_free_iter tr)"

lemma config_ops_append [trace_simps]: "config_ops (xs @ ys) = config_ops xs @ config_ops ys"
  by (simp add: config_ops_def)

lemma config_ops_Nil [trace_simps]: "config_ops [] = []"
  by (simp add: config_ops_def)

lemma config_ops_Cons [trace_simps]:
  "config_ops (e # es) = (case config_op e of None \<Rightarrow> [] | Some x \<Rightarrow> [x]) @ config_ops es"
  by (simp add: config_ops_def split: option.splits)

lemma freed_vals_append [trace_simps]: "freed_vals (xs @ ys) = freed_vals xs @ freed_vals ys"
  by (simp add: freed_vals_def)

lemma freed_vals_Nil [trace_simps]: "freed_vals [] = []"
  by (simp add: freed_vals_def)

lemma freed_vals_Cons [trace_simps]:
  "freed_vals (e # es) = (case freed_val e of None \<Rightarrow> [] | Some x \<Rightarrow> [x]) @ freed_vals es"
  by (simp add: freed_vals_def split: option.splits)

lemma iter_frees_append [trace_simps]: "iter_frees (xs @ ys) = iter_frees xs + iter_frees ys"
  by (simp add: iter_frees_def)

lemma iter_frees_Nil [trace_simps]: "iter_frees [] = 0"
  by (simp add: iter_frees_def)

lemma iter_frees_Cons [trace_simps]:
  "iter_frees (e # es) = (if is_free_iter e then 1 else 0) + iter_frees es"
  by (simp add: iter_frees_def)

end
