(* ===== verification/Sc_Init.thy ===== *)
theory Sc_Init
  imports Sysrepo_Vom "HOL-Library.Multiset"
begin

text \<open>
  \<^verbatim>\<open>plugins/sc_init.h\<close> and \<^verbatim>\<open>plugins/sc_init.c\<close>: the lists of init and
  exit functions of the models.  A macro declares, for each function and each of the two tags,
  a static element that a constructor links in at the front of the list and a destructor
  unlinks; the list is the chain of \<open>next\<close> pointers.  The functions themselves are called
  through \<open>call\<close>, on a state that does not hold the lists: no function registered in this
  repository reaches back into them.
\<close>

section \<open>The elements and their registration\<close>

record 'f elt =
  func :: 'f
  is_called :: bool

definition register :: "'f \<Rightarrow> 'f elt list \<Rightarrow> 'f elt list" where
  "register f regs = \<lparr>func = f, is_called = False\<rparr> # regs"

text \<open>The loop of the destructor, from the element \<open>p\<close> on.\<close>

fun unlink_after :: "'f \<Rightarrow> 'f elt list \<Rightarrow> 'f elt list" where
  "unlink_after f (p # q # ps) = (if func q = f then p # ps else p # unlink_after f (q # ps))"
| "unlink_after f ps = ps"

text \<open>The destructor reads the first element without a check for an empty list.\<close>

definition unregister :: "'f \<Rightarrow> 'f elt list \<Rightarrow> fault + 'f elt list" where
  "unregister f regs =
     (case regs of
        [] \<Rightarrow> Inl Null_deref
      | p # ps \<Rightarrow> if func p = f then Inr ps else Inr (unlink_after f regs))"

section \<open>Calling\<close>

text \<open>\<open>sc_call_init_function\<close>: the first element of that function that was not called.\<close>

fun sc_call_init_function ::
    "('f \<Rightarrow> 's \<Rightarrow> sr_err \<times> 's) \<Rightarrow> 'f \<Rightarrow> 'f elt list \<Rightarrow> 's \<Rightarrow> sr_err \<times> 'f elt list \<times> 's" where
  "sc_call_init_function call f [] s = (SR_ERR_OK, [], s)"
| "sc_call_init_function call f (p # ps) s =
     (if func p = f \<and> \<not> is_called p then
        (let (r, s') = call (func p) s in (r, p\<lparr>is_called := True\<rparr> # ps, s'))
      else
        (let (r, ps', s') = sc_call_init_function call f ps s in (r, p # ps', s')))"

fun sc_call_exit_function :: "('f \<Rightarrow> 's \<Rightarrow> 's) \<Rightarrow> 'f \<Rightarrow> 'f elt list \<Rightarrow> 's \<Rightarrow> 'f elt list \<times> 's" where
  "sc_call_exit_function call f [] s = ([], s)"
| "sc_call_exit_function call f (p # ps) s =
     (if func p = f \<and> \<not> is_called p then (p\<lparr>is_called := True\<rparr> # ps, call (func p) s)
      else (let (ps', s') = sc_call_exit_function call f ps s in (p # ps', s')))"

text \<open>\<open>sc_call_all_init_function\<close>, which stops at the first error, and its exit twin.\<close>

fun sc_call_all_init_function ::
    "('f \<Rightarrow> 's \<Rightarrow> sr_err \<times> 's) \<Rightarrow> 'f elt list \<Rightarrow> 's \<Rightarrow> sr_err \<times> 'f elt list \<times> 's" where
  "sc_call_all_init_function call [] s = (SR_ERR_OK, [], s)"
| "sc_call_all_init_function call (p # ps) s =
     (if \<not> is_called p then
        (let (ret, s') = call (func p) s;
             p' = p\<lparr>is_called := True\<rparr>
         in if ret \<noteq> SR_ERR_OK then (ret, p' # ps, s')
            else (let (r, ps', s'') = sc_call_all_init_function call ps s' in (r, p' # ps', s'')))
      else
        (let (r, ps', s') = sc_call_all_init_function call ps s in (r, p # ps', s')))"

fun sc_call_all_exit_function :: "('f \<Rightarrow> 's \<Rightarrow> 's) \<Rightarrow> 'f elt list \<Rightarrow> 's \<Rightarrow> 'f elt list \<times> 's" where
  "sc_call_all_exit_function call [] s = ([], s)"
| "sc_call_all_exit_function call (p # ps) s =
     (if \<not> is_called p then
        (let (ps', s') = sc_call_all_exit_function call ps (call (func p) s)
         in (p\<lparr>is_called := True\<rparr> # ps', s'))
      else
        (let (ps', s') = sc_call_all_exit_function call ps s in (p # ps', s')))"

section \<open>The contract of a pass over a list\<close>

definition uncalled :: "'f elt list \<Rightarrow> 'f list" where
  "uncalled regs = map func (filter (\<lambda>p. \<not> is_called p) regs)"

lemma uncalled_simps [simp]:
  "uncalled [] = []"
  "uncalled (p # ps) = (if is_called p then uncalled ps else func p # uncalled ps)"
  by (simp_all add: uncalled_def)

text \<open>
  A pass calls the functions that were not called, in the order of the list, marks each
  before it calls it, and ends at the end of the list or after a function that halts it.
\<close>

locale call_pass =
  fixes pass :: "'f elt list \<Rightarrow> 's \<Rightarrow> 'f elt list \<times> 's"
    and step :: "'f \<Rightarrow> 's \<Rightarrow> 's"
    and halts :: "'f \<Rightarrow> 's \<Rightarrow> bool"
  assumes pass_Nil: "pass [] s = ([], s)"
    and pass_called: "is_called p \<Longrightarrow> pass (p # ps) s = (p # fst (pass ps s), snd (pass ps s))"
    and pass_halt: "\<not> is_called p \<Longrightarrow> halts (func p) s \<Longrightarrow>
      pass (p # ps) s = (p\<lparr>is_called := True\<rparr> # ps, step (func p) s)"
    and pass_go: "\<not> is_called p \<Longrightarrow> \<not> halts (func p) s \<Longrightarrow>
      pass (p # ps) s = (p\<lparr>is_called := True\<rparr> # fst (pass ps (step (func p) s)), snd (pass ps (step (func p) s)))"
begin

text \<open>A pass only sets marks.\<close>

lemma pass_funcs: "map func (fst (pass regs s)) = map func regs"
proof (induction regs arbitrary: s)
  case (Cons p ps)
  then show ?case
    by (cases "is_called p"; cases "halts (func p) s") (simp_all add: pass_called pass_halt pass_go)
qed (simp add: pass_Nil)

text \<open>
  What was called is an initial part of what had not been called; the rest is what is left
  for later passes, so no function is ever called twice.
\<close>

lemma pass_once:
  "\<exists>fs. uncalled regs = fs @ uncalled (fst (pass regs s)) \<and> snd (pass regs s) = fold step fs s \<and>
     (uncalled (fst (pass regs s)) = [] \<or> fs \<noteq> [] \<and> halts (last fs) (fold step (butlast fs) s)) \<and>
     (\<forall>i < length fs - 1. \<not> halts (fs ! i) (fold step (take i fs) s))"
proof (induction regs arbitrary: s)
  case Nil
  then show ?case by (intro exI [of _ "[]"]) (simp add: pass_Nil)
next
  case (Cons p ps)
  show ?case
  proof (cases "is_called p")
    case True
    with Cons.IH [of s] show ?thesis by (simp add: pass_called)
  next
    case uncalled: False
    show ?thesis
    proof (cases "halts (func p) s")
      case True
      with uncalled show ?thesis by (intro exI [of _ "[func p]"]) (simp add: pass_halt)
    next
      case False
      from Cons.IH [of "step (func p) s"] obtain fs where
        fs: "uncalled ps = fs @ uncalled (fst (pass ps (step (func p) s)))"
          "snd (pass ps (step (func p) s)) = fold step fs (step (func p) s)"
          "uncalled (fst (pass ps (step (func p) s))) = [] \<or>
             fs \<noteq> [] \<and> halts (last fs) (fold step (butlast fs) (step (func p) s))"
          "\<forall>i < length fs - 1. \<not> halts (fs ! i) (fold step (take i fs) (step (func p) s))" by blast
      have "\<not> halts ((func p # fs) ! i) (fold step (take i (func p # fs)) s)" if "i < length fs" for i
        using that fs(4) False by (cases i) auto
      with uncalled False fs show ?thesis
        by (intro exI [of _ "func p # fs"]) (auto simp: pass_go)
    qed
  qed
qed

text \<open>A pass over a list that has been called throughout does nothing.\<close>

lemma pass_idle: "uncalled regs = [] \<Longrightarrow> pass regs s = (regs, s)"
proof (induction regs arbitrary: s)
  case (Cons p ps)
  then show ?case by (cases "is_called p") (simp_all add: pass_called)
qed (simp add: pass_Nil)

end

definition init_pass :: "('f \<Rightarrow> 's \<Rightarrow> sr_err \<times> 's) \<Rightarrow> 'f elt list \<Rightarrow> 's \<Rightarrow> 'f elt list \<times> 's" where
  "init_pass call regs s = snd (sc_call_all_init_function call regs s)"

interpretation init: call_pass "init_pass call" "\<lambda>f s. snd (call f s)" "\<lambda>f s. fst (call f s) \<noteq> SR_ERR_OK" for call
  by unfold_locales (auto simp: init_pass_def Let_def split: prod.splits)

interpretation exit: call_pass "sc_call_all_exit_function call" call "\<lambda>f s. False" for call
  by unfold_locales (auto simp: Let_def split: prod.splits)

lemma init_result:
  "sc_call_all_init_function call regs s = (r, regs', s') \<Longrightarrow>
     \<exists>fs. uncalled regs = fs @ uncalled regs' \<and> s' = fold (\<lambda>f s. snd (call f s)) fs s \<and>
       (if r = SR_ERR_OK then uncalled regs' = []
        else fs \<noteq> [] \<and> fst (call (last fs) (fold (\<lambda>f s. snd (call f s)) (butlast fs) s)) = r)"
proof (induction regs arbitrary: s r regs' s')
  case Nil
  then show ?case by simp
next
  case (Cons p ps)
  show ?case
  proof (cases "is_called p")
    case True
    with Cons show ?thesis by (fastforce simp: Let_def split: prod.splits)
  next
    case uncalled: False
    obtain ret t where c: "call (func p) s = (ret, t)" by fastforce
    show ?thesis
    proof (cases "ret = SR_ERR_OK")
      case True
      obtain q ps' u where rec: "sc_call_all_init_function call ps t = (q, ps', u)" by (rule prod_cases3)
      with Cons.prems uncalled c True have *: "r = q" "regs' = p\<lparr>is_called := True\<rparr> # ps'" "s' = u"
        by (auto simp: Let_def)
      from Cons.IH [OF rec] obtain fs where
        "uncalled ps = fs @ uncalled ps'" "u = fold (\<lambda>f s. snd (call f s)) fs t"
        "if q = SR_ERR_OK then uncalled ps' = []
         else fs \<noteq> [] \<and> fst (call (last fs) (fold (\<lambda>f s. snd (call f s)) (butlast fs) t)) = q" by blast
      with * uncalled c show ?thesis
        by (intro exI [of _ "func p # fs"]) (auto split: if_splits)
    next
      case False
      with Cons.prems uncalled c show ?thesis
        by (intro exI [of _ "[func p]"]) (auto simp: Let_def)
    qed
  qed
qed

section \<open>What the lists guarantee\<close>

text \<open>C13: Initialisation, on every branch: a pass calls the functions that were not called so far, each
  once and in the order of the list, up to the first one that fails, whose error it returns;
  it succeeds exactly when it gets through, and then none is left to call.\<close>

theorem sc_init_pass:
  assumes "sc_call_all_init_function call regs s = (r, regs', s')"
  shows "\<exists>fs. uncalled regs = fs @ uncalled regs' \<and> map func regs' = map func regs \<and>
    s' = fold (\<lambda>f s. snd (call f s)) fs s \<and>
    (\<forall>i < length fs - 1. fst (call (fs ! i) (fold (\<lambda>f s. snd (call f s)) (take i fs) s)) = SR_ERR_OK) \<and>
    (if r = SR_ERR_OK then uncalled regs' = []
     else fs \<noteq> [] \<and> fst (call (last fs) (fold (\<lambda>f s. snd (call f s)) (butlast fs) s)) = r)"
proof -
  from init_result [OF assms] obtain fs where
    fs: "uncalled regs = fs @ uncalled regs'" "s' = fold (\<lambda>f s. snd (call f s)) fs s"
      "if r = SR_ERR_OK then uncalled regs' = []
       else fs \<noteq> [] \<and> fst (call (last fs) (fold (\<lambda>f s. snd (call f s)) (butlast fs) s)) = r" by blast
  have pass: "init_pass call regs s = (regs', s')" by (simp add: init_pass_def assms)
  from init.pass_once [of regs call s] pass obtain gs where
    gs: "uncalled regs = gs @ uncalled regs'"
      "\<forall>i < length gs - 1. \<not> fst (call (gs ! i) (fold (\<lambda>f s. snd (call f s)) (take i gs) s)) \<noteq> SR_ERR_OK" by auto
  from fs(1) gs(1) have "gs = fs" by simp
  moreover from init.pass_funcs [of call regs s] pass have "map func regs' = map func regs" by simp
  ultimately show ?thesis using fs gs(2) by (intro exI [of _ fs]) simp
qed

theorem sc_init_pass_witness:
  "\<exists>fs. uncalled (register ''nat'' (register ''ietf'' [])) = fs @ [''ietf''] \<and> fs = [''nat'']"
proof -
  let ?call = "\<lambda>f s. (if f = ''nat'' then SR_ERR_NOMEM else SR_ERR_OK, f # s)"
  have "sc_call_all_init_function ?call (register ''nat'' (register ''ietf'' [])) [] =
      (SR_ERR_NOMEM, [\<lparr>func = ''nat'', is_called = True\<rparr>, \<lparr>func = ''ietf'', is_called = False\<rparr>], [''nat''])"
    by (simp add: register_def)
  from sc_init_pass [OF this] show ?thesis by (auto simp: register_def)
qed

lemma init_all_ok:
  "\<forall>f \<in> set (uncalled regs). \<forall>s. fst (call f s) = SR_ERR_OK \<Longrightarrow>
     fst (sc_call_all_init_function call regs s) = SR_ERR_OK"
proof (induction regs arbitrary: s)
  case (Cons p ps)
  then show ?case
    by (cases "is_called p"; cases "call (func p) s")
      (auto simp: Let_def split: prod.splits dest: bspec [where x = "func p"], (metis fst_conv)+)
qed simp

text \<open>C30: A function that failed counts as called: a second pass never calls it again, and reports
  success as soon as the functions after it succeed, although the failed one has never been
  initialised.\<close>

theorem sc_init_retry_skips_failed:
  assumes "sc_call_all_init_function call regs s = (r, regs', s')" and "r \<noteq> SR_ERR_OK"
    and "\<forall>f \<in> set (uncalled regs'). \<forall>s. fst (call f s) = SR_ERR_OK"
  shows "\<exists>f fs s0. uncalled regs = fs @ f # uncalled regs' \<and> fst (call f s0) = r \<and>
    sc_call_all_init_function call regs' s1 =
      (SR_ERR_OK, map (is_called_update (\<lambda>_. True)) regs', fold (\<lambda>f s. snd (call f s)) (uncalled regs') s1)"
proof -
  from init_result [OF assms(1)] assms(2) obtain fs where
    fs: "uncalled regs = fs @ uncalled regs'" "fs \<noteq> []"
      "fst (call (last fs) (fold (\<lambda>f s. snd (call f s)) (butlast fs) s)) = r" by auto
  then have split: "uncalled regs = butlast fs @ last fs # uncalled regs'" by simp
  have all: "sc_call_all_init_function call regs' s1 =
      (SR_ERR_OK, map (is_called_update (\<lambda>_. True)) regs', fold (\<lambda>f s. snd (call f s)) (uncalled regs') s1)"
    using assms(3)
  proof (induction regs' arbitrary: s1)
    case (Cons p ps)
    then show ?case
      by (cases "is_called p"; cases "call (func p) s1")
        (auto simp: Let_def dest: bspec [where x = "func p"], (metis fst_conv)+)
  qed simp
  with split fs(3) show ?thesis by blast
qed

theorem sc_init_retry_skips_failed_witness:
  "sc_call_all_init_function (\<lambda>f s. (if f = ''nat'' then SR_ERR_NOMEM else SR_ERR_OK, f # s))
     [\<lparr>func = ''nat'', is_called = True\<rparr>, \<lparr>func = ''ietf'', is_called = False\<rparr>] [] =
   (SR_ERR_OK, [\<lparr>func = ''nat'', is_called = True\<rparr>, \<lparr>func = ''ietf'', is_called = True\<rparr>], [''ietf''])"
proof -
  let ?call = "\<lambda>f s. (if f = ''nat'' then SR_ERR_NOMEM else SR_ERR_OK, f # s)"
  have "sc_call_all_init_function ?call (register ''nat'' (register ''ietf'' [])) [] =
      (SR_ERR_NOMEM, [\<lparr>func = ''nat'', is_called = True\<rparr>, \<lparr>func = ''ietf'', is_called = False\<rparr>], [''nat''])"
    by (simp add: register_def)
  from sc_init_retry_skips_failed [OF this] show ?thesis by auto
qed

text \<open>Exit: a pass calls every function that was not called, once and in the order of the list,
  whatever they do, and a second pass calls none.\<close>

theorem sc_exit_pass:
  "sc_call_all_exit_function call regs s =
     (map (is_called_update (\<lambda>_. True)) regs, fold call (uncalled regs) s) \<and>
   sc_call_all_exit_function call (map (is_called_update (\<lambda>_. True)) regs) s =
     (map (is_called_update (\<lambda>_. True)) regs, s)"
proof -
  have "fst (sc_call_all_exit_function call regs s) = map (is_called_update (\<lambda>_. True)) regs"
    by (induction regs arbitrary: s) (auto simp: Let_def split: prod.splits, (metis fst_conv)+)
  moreover have idle: "uncalled (map (is_called_update (\<lambda>_. True)) regs) = []"
    by (induction regs) simp_all
  moreover from exit.pass_once [of regs call s] have "snd (sc_call_all_exit_function call regs s) = fold call (uncalled regs) s"
    by auto
  ultimately show ?thesis
    using exit.pass_idle [OF idle] by (metis prod.collapse)
qed

text \<open>A dependency: calling one function ahead takes its first uncalled element off what a later
  pass will call and nothing else, and does nothing when the function was called already or
  was never registered.\<close>

theorem sc_call_one_once:
  "uncalled (fst (snd (sc_call_init_function call f regs s))) = remove1 f (uncalled regs) \<and>
   (fst (sc_call_init_function call f regs s), snd (snd (sc_call_init_function call f regs s))) =
     (if f \<in> set (uncalled regs) then call f s else (SR_ERR_OK, s)) \<and>
   sc_call_exit_function call' f regs t =
     (fst (snd (sc_call_init_function call f regs s)), if f \<in> set (uncalled regs) then call' f t else t)"
  by (induction regs) (auto simp: Let_def split: prod.splits)

section \<open>Loading and unloading\<close>

lemma unlink_after_funcs:
  "func p \<noteq> f \<Longrightarrow> map func (unlink_after f (p # ps)) = func p # remove1 f (map func ps)"
  by (induction ps arbitrary: p) auto

text \<open>Unlinking removes the first element of the function and keeps the order of the others; a
  function that is not in the list is ignored, but an empty list is dereferenced.\<close>

theorem unregister_removes:
  "map_sum id (map func) (unregister f regs) =
     (if regs = [] then Inl Null_deref else Inr (remove1 f (map func regs)))"
  by (cases regs) (auto simp: unregister_def unlink_after_funcs)

text \<open>The destructors of a library, in some order.\<close>

fun unload :: "'f list \<Rightarrow> 'f elt list \<Rightarrow> fault + 'f elt list" where
  "unload [] regs = Inr regs"
| "unload (f # fs) regs = (case unregister f regs of Inl e \<Rightarrow> Inl e | Inr regs' \<Rightarrow> unload fs regs')"

lemma unload_funcs:
  "mset fs = mset (map func regs) \<Longrightarrow> unload fs regs = Inr []"
proof (induction fs arbitrary: regs)
  case (Cons f fs)
  have f: "f \<in> set (map func regs)" using mset_eq_setD [OF Cons.prems] by (metis list.set_intros(1))
  then have ne: "regs \<noteq> []" by auto
  have "\<exists>regs'. unregister f regs = Inr regs' \<and> map func regs' = remove1 f (map func regs)"
    using ne by (cases regs) (auto simp: unregister_def unlink_after_funcs)
  then obtain regs' where r: "unregister f regs = Inr regs'" "map func regs' = remove1 f (map func regs)" by blast
  have "mset fs = mset (map func regs')"
    unfolding r(2) mset_remove1 Cons.prems [symmetric] by simp
  from Cons.IH [OF this] r(1) show ?case by simp
qed simp

text \<open>C31: Loading and unloading: after the constructors of some functions have run, their destructors
  empty the list without a fault, in whatever order both run, and whatever was called in
  between.\<close>

theorem load_unload:
  assumes "mset gs = mset fs" and "map func regs = map func (fold register fs [])"
  shows "unload gs regs = Inr []"
proof -
  have "map func (fold register fs rs) = rev fs @ map func rs" for rs :: "'a elt list"
    by (induction fs arbitrary: rs) (simp_all add: register_def)
  with assms show ?thesis by (intro unload_funcs) (simp del: mset_map)
qed

theorem load_unload_witness:
  "unload [''b'', ''a''] [\<lparr>func = ''b'', is_called = True\<rparr>, \<lparr>func = ''a'', is_called = False\<rparr>] = Inr []"
  using load_unload [of "[''b'', ''a'']" "[''a'', ''b'']"
      "[\<lparr>func = ''b'', is_called = True\<rparr>, \<lparr>func = ''a'', is_called = False\<rparr>]"]
  by (simp add: register_def)

end
