(* ===== verification/Sample_Env.thy ===== *)
theory Sample_Env
  imports Sysrepo_Vom
begin

text \<open>
  One concrete behaviour of the libraries, on which the hypotheses of the theorems are shown
  to be satisfiable: xpaths are compared by their last component, the key of an xpath is its
  first quoted text, an interface is found when it has been written and not removed, every
  call succeeds, and v4 addresses are dotted quads.  No definition of the model and no
  theorem about all environments uses it.
\<close>

definition sample_node_name_eq :: "string \<Rightarrow> string \<Rightarrow> bool" where
  "sample_node_name_eq xp n \<longleftrightarrow> takeWhile (\<lambda>c. c \<noteq> CHR ''/'') (rev xp) = rev n"

definition sample_key_value :: "string \<Rightarrow> string \<Rightarrow> string \<Rightarrow> string option" where
  "sample_key_value xp node key =
     (case dropWhile (\<lambda>c. c \<noteq> CHR 39) xp of
        [] \<Rightarrow> None
      | q # r \<Rightarrow> Some (takeWhile (\<lambda>c. c \<noteq> CHR 39) r))"

fun sample_step :: "effect \<Rightarrow> (string \<Rightarrow> itf option) \<Rightarrow> string \<Rightarrow> itf option" where
  "sample_step (Om_write k (Obj_itf i) r) db = db(k \<mapsto> i)"
| "sample_step (Om_remove k r) db = db(k := None)"
| "sample_step (Itf_set n a) db = db(n := map_option (itf_admin_update (\<lambda>_. a)) (db n))"
| "sample_step _ db = db"

definition sample_find :: "trace \<Rightarrow> string \<Rightarrow> itf option" where
  "sample_find tr = fold sample_step tr (\<lambda>_. None)"

fun split_on :: "char \<Rightarrow> string \<Rightarrow> string list" where
  "split_on c [] = [[]]"
| "split_on c (x # xs) =
     (if x = c then [] # split_on c xs
      else case split_on c xs of [] \<Rightarrow> [[x]] | w # ws \<Rightarrow> (x # w) # ws)"

definition sample_quad :: "string \<Rightarrow> u8 list option" where
  "sample_quad s =
     (let ws = split_on (CHR ''.'') s
      in if length ws = 4 \<and> (\<forall>w \<in> set ws. w \<noteq> [] \<and> (\<forall>c \<in> set w. is_digit c) \<and> digits_value w < 256)
         then Some (map (\<lambda>w. of_nat (digits_value w)) ws) else None)"

fun sample_addr_to_string :: "ip_address \<Rightarrow> string" where
  "sample_addr_to_string (Ip_v4 a) =
     dec (unat (drop_bit 24 a)) @ ''.'' @ dec (unat (take_bit 8 (drop_bit 16 a))) @ ''.'' @
     dec (unat (take_bit 8 (drop_bit 8 a))) @ ''.'' @ dec (unat (take_bit 8 a))"
| "sample_addr_to_string (Ip_v6 a sc) = ''::''"

definition sample_addr_from_string :: "string \<Rightarrow> ip_address option" where
  "sample_addr_from_string s =
     (case sample_quad s of
        Some [a, b, c, d] \<Rightarrow>
          Some (Ip_v4 (push_bit 24 (ucast a) + push_bit 16 (ucast b) + push_bit 8 (ucast c) + ucast d))
      | _ \<Rightarrow> if s = ''::'' then Some (Ip_v6 0 0) else None)"

fun sample_inet_pton :: "addr_family \<Rightarrow> string \<Rightarrow> u8 list option" where
  "sample_inet_pton AF_INET s = sample_quad s"
| "sample_inet_pton AF_INET6 s = (if s = ''::'' then Some (replicate 16 0) else None)"

definition sample_env :: env where
  "sample_env =
     \<lparr>node_name_eq = sample_node_name_eq, key_value = sample_key_value, next_nulls = True, failed_iter_nulls = False,
      changes_rc = (\<lambda>_ _. SR_ERR_OK), new_values_rc = (\<lambda>_ _. SR_ERR_OK),
      subscribe_rc = (\<lambda>_ _. SR_ERR_OK),
      itf_find = sample_find, itf_key = itf_name,
      om_write = (\<lambda>_ _ _. Inr RC_OK), om_remove = (\<lambda>_ _. None), om_populate = (\<lambda>_. None),
      hw_connect = (\<lambda>_. True),
      prefix_exn = (\<lambda>a _. if sample_addr_from_string a = None then Some Boost_error else None),
      prefix_str = (\<lambda>a n. a @ ''/'' @ dec (unat n)),
      new_request = (\<lambda>_. \<lparr>q_name_filter_valid = 0, q_length = 64, q_buf = replicate 64 (CHR ''?'')\<rparr>),
      itf_dump = (\<lambda>_ _. []),
      itf_stats = (\<lambda>_ _. \<lparr>m_rx_bytes = 1, m_rx_unicast_packets = 2, m_rx_broadcast_packets = 3,
        m_rx_multicast_packets = 4, m_tx_bytes = 5, m_tx_unicast_packets = 6,
        m_tx_broadcast_packets = 7, m_tx_multicast_packets = 8\<rparr>),
      flag_admin_up = 1, flag_link_up = 2,
      addr_from_string = sample_addr_from_string, addr_to_string = sample_addr_to_string,
      inet_pton = sample_inet_pton, big_endian = False\<rparr>"

lemma sample_env_simps [simp]:
  "node_name_eq sample_env = sample_node_name_eq"
  "key_value sample_env = sample_key_value"
  "next_nulls sample_env"
  "changes_rc sample_env t x = SR_ERR_OK"
  "new_values_rc sample_env t n = SR_ERR_OK"
  "subscribe_rc sample_env t x = SR_ERR_OK"
  "itf_find sample_env = sample_find"
  "itf_key sample_env = itf_name"
  "om_write sample_env t k ob = Inr RC_OK"
  "om_remove sample_env t k = None"
  "om_populate sample_env t = None"
  "hw_connect sample_env t"
  "prefix_exn sample_env a l = (if sample_addr_from_string a = None then Some Boost_error else None)"
  "prefix_str sample_env a l = a @ ''/'' @ dec (unat l)"
  "itf_dump sample_env t q = []"
  "new_request sample_env t = \<lparr>q_name_filter_valid = 0, q_length = 64, q_buf = replicate 64 (CHR ''?'')\<rparr>"
  "flag_admin_up sample_env = 1"
  "flag_link_up sample_env = 2"
  "addr_from_string sample_env = sample_addr_from_string"
  "addr_to_string sample_env = sample_addr_to_string"
  "inet_pton sample_env = sample_inet_pton"
  "\<not> big_endian sample_env"
  by (simp_all add: sample_env_def)

text \<open>Changes, as a commit of the samples of the repository produces them.\<close>

definition sample_val :: "string \<Rightarrow> sr_data \<Rightarrow> sr_val" where
  "sample_val xp d = \<lparr>v_xpath = xp, v_type = SR_STRING_T, v_data = d\<rparr>"

definition sample_created :: "string \<Rightarrow> sr_data \<Rightarrow> change" where
  "sample_created xp d = \<lparr>ch_op = SR_OP_CREATED, ch_old = None, ch_new = Some (sample_val xp d)\<rparr>"

definition sample_modified :: "string \<Rightarrow> sr_data \<Rightarrow> sr_data \<Rightarrow> change" where
  "sample_modified xp d d' =
     \<lparr>ch_op = SR_OP_MODIFIED, ch_old = Some (sample_val xp d), ch_new = Some (sample_val xp d')\<rparr>"

definition sample_deleted :: "string \<Rightarrow> sr_data \<Rightarrow> change" where
  "sample_deleted xp d = \<lparr>ch_op = SR_OP_DELETED, ch_old = Some (sample_val xp d), ch_new = None\<rparr>"

definition sample_session :: "change list \<Rightarrow> sr_session" where
  "sample_session cs = \<lparr>s_changes = (\<lambda>_. cs)\<rparr>"

lemma sample_session_changes [simp]: "s_changes (sample_session cs) xp = cs"
  by (simp add: sample_session_def)

text \<open>The xpath of a leaf of the interface with a name.\<close>

definition sample_leaf :: "string \<Rightarrow> string \<Rightarrow> string" where
  "sample_leaf n l =
     ''/ietf-interfaces:interfaces/interface[name='' @ [CHR 39] @ n @ [CHR 39] @ '']/'' @ l"

definition sample_create_itf :: "string \<Rightarrow> change list" where
  "sample_create_itf n =
     [sample_created (sample_leaf n ''name'') (String_val n),
      sample_created (sample_leaf n ''type'') (String_val ''iana-if-type:ethernetCsmacd''),
      sample_created (sample_leaf n ''enabled'') (Bool_val True)]"

lemmas sample_simps =
  sample_val_def sample_created_def sample_modified_def sample_deleted_def sample_leaf_def
  sample_create_itf_def sample_node_name_eq_def sample_key_value_def

text \<open>An environment in which every interface is known, at all times, and every prefix accepted.\<close>

definition sample_known_env :: env where
  "sample_known_env = sample_env\<lparr>itf_find := (\<lambda>t n. Some
     \<lparr>itf_name = n, itf_type = Type_from_string ''ETHERNET'', itf_admin = Admin_from_int True\<rparr>),
     prefix_exn := (\<lambda>_ _. None)\<rparr>"

lemma sample_known_env_simps [simp]:
  "itf_find sample_known_env t n =
     Some \<lparr>itf_name = n, itf_type = Type_from_string ''ETHERNET'', itf_admin = Admin_from_int True\<rparr>"
  "prefix_exn sample_known_env a p = None"
  "prefix_str sample_known_env = prefix_str sample_env"
  "node_name_eq sample_known_env = sample_node_name_eq"
  "key_value sample_known_env = sample_key_value"
  "changes_rc sample_known_env t x = SR_ERR_OK"
  "om_write sample_known_env t k ob = Inr RC_OK"
  "om_remove sample_known_env t k = None"
  "itf_key sample_known_env = itf_name"
  "next_nulls sample_known_env"
  by (simp_all add: sample_known_env_def)

end
