(* ===== verification/Subscriptions.thy ===== *)
theory Subscriptions
  imports Sample_Env
begin

text \<open>
  The init and exit functions of the three models, at the end of
  \<^verbatim>\<open>plugins/ietf/ietf_interface.cpp\<close>, \<^verbatim>\<open>plugins/ietf/ietf_nat.cpp\<close> and
  \<^verbatim>\<open>plugins/openconfig/openconfig_interfaces.cpp\<close>: chains of subscriptions that stop
  at the first one that fails.
\<close>

text \<open>\<open>sr_subtree_change_subscribe\<close> and \<open>sr_dp_get_items_subscribe\<close>.\<close>

definition sr_subtree_change_subscribe ::
    "env \<Rightarrow> string \<Rightarrow> callback \<Rightarrow> nat \<Rightarrow> trace \<Rightarrow> sr_err \<times> trace" where
  "sr_subtree_change_subscribe E xpath cb priority tr =
     (let rc = subscribe_rc E tr xpath in (rc, tr @ [Subscribe_change xpath cb priority rc]))"

definition sr_dp_get_items_subscribe :: "env \<Rightarrow> string \<Rightarrow> callback \<Rightarrow> trace \<Rightarrow> sr_err \<times> trace" where
  "sr_dp_get_items_subscribe E xpath cb tr =
     (let rc = subscribe_rc E tr xpath in (rc, tr @ [Subscribe_items xpath cb rc]))"

text \<open>The next statement, unless the result is an error, which jumps to the end.\<close>

definition and_then :: "(trace \<Rightarrow> sr_err \<times> trace) \<Rightarrow> (trace \<Rightarrow> sr_err \<times> trace) \<Rightarrow> trace \<Rightarrow> sr_err \<times> trace" where
  "and_then m k tr = (let (rc, tr') = m tr in if rc \<noteq> SR_ERR_OK then (rc, tr') else k tr')"

definition ietf_interface_init :: "env \<Rightarrow> trace \<Rightarrow> sr_err \<times> trace" where
  "ietf_interface_init E =
     and_then (sr_subtree_change_subscribe E ''/ietf-interfaces:interfaces/interface'' Cb_itf_create 100)
     (and_then (sr_subtree_change_subscribe E ''/ietf-interfaces:interfaces/interface/ietf-ip:ipv4/address'' Cb_ipv46_address 99)
     (and_then (sr_subtree_change_subscribe E ''/ietf-interfaces:interfaces/interface/ietf-ip:ipv6/address'' Cb_ipv46_address 98)
     (and_then (sr_dp_get_items_subscribe E ''/ietf-interfaces:interfaces-state'' Cb_itf_state)
     (and_then (sr_dp_get_items_subscribe E ''/ietf-interfaces:interfaces-state/interface/statistics'' Cb_itf_statistics)
     (\<lambda>tr. (SR_ERR_OK, tr))))))"

definition ietf_interface_exit :: "trace \<Rightarrow> trace" where
  "ietf_interface_exit tr = tr"

definition ietf_nat_init :: "env \<Rightarrow> trace \<Rightarrow> sr_err \<times> trace" where
  "ietf_nat_init E =
     and_then (sr_subtree_change_subscribe E ''/ietf-nat:nat/instances/instance'' Cb_nat_instance 1)
     (and_then (sr_subtree_change_subscribe E ''/ietf-nat:nat/instances/instance/mapping-table/mapping-entry'' Cb_nat_mapping 10)
     (and_then (sr_dp_get_items_subscribe E ''/ietf-nat:nat/instances/instance/capabilities'' Cb_nat_cap)
     (\<lambda>tr. (SR_ERR_OK, tr))))"

definition ietf_nat_exit :: "trace \<Rightarrow> trace" where
  "ietf_nat_exit tr = tr"

definition openconfig_interface_init :: "env \<Rightarrow> trace \<Rightarrow> sr_err \<times> trace" where
  "openconfig_interface_init E =
     and_then (sr_subtree_change_subscribe E ''/openconfig-interfaces:interfaces/interface/config'' Cb_oc_config 98)
     (and_then (sr_dp_get_items_subscribe E ''/openconfig-interfaces:interfaces/interface/state'' Cb_oc_state)
     (\<lambda>tr. (SR_ERR_OK, tr)))"

definition openconfig_interface_exit :: "trace \<Rightarrow> trace" where
  "openconfig_interface_exit tr = tr"

section \<open>The chains\<close>

text \<open>A subscription as data: its xpath, its callback and its priority, if it is one to changes.\<close>

type_synonym subscription = "string \<times> callback \<times> nat option"

fun sub_effect :: "subscription \<Rightarrow> sr_err \<Rightarrow> effect" where
  "sub_effect (xp, cb, Some p) rc = Subscribe_change xp cb p rc"
| "sub_effect (xp, cb, None) rc = Subscribe_items xp cb rc"

fun subscribe_all :: "env \<Rightarrow> subscription list \<Rightarrow> trace \<Rightarrow> sr_err \<times> trace" where
  "subscribe_all E [] tr = (SR_ERR_OK, tr)"
| "subscribe_all E (s # ss) tr =
     (let rc = subscribe_rc E tr (fst s); tr' = tr @ [sub_effect s rc]
      in if rc \<noteq> SR_ERR_OK then (rc, tr') else subscribe_all E ss tr')"

definition ietf_interface_subs :: "subscription list" where
  "ietf_interface_subs =
     [(''/ietf-interfaces:interfaces/interface'', Cb_itf_create, Some 100),
      (''/ietf-interfaces:interfaces/interface/ietf-ip:ipv4/address'', Cb_ipv46_address, Some 99),
      (''/ietf-interfaces:interfaces/interface/ietf-ip:ipv6/address'', Cb_ipv46_address, Some 98),
      (''/ietf-interfaces:interfaces-state'', Cb_itf_state, None),
      (''/ietf-interfaces:interfaces-state/interface/statistics'', Cb_itf_statistics, None)]"

definition ietf_nat_subs :: "subscription list" where
  "ietf_nat_subs =
     [(''/ietf-nat:nat/instances/instance'', Cb_nat_instance, Some 1),
      (''/ietf-nat:nat/instances/instance/mapping-table/mapping-entry'', Cb_nat_mapping, Some 10),
      (''/ietf-nat:nat/instances/instance/capabilities'', Cb_nat_cap, None)]"

definition openconfig_subs :: "subscription list" where
  "openconfig_subs =
     [(''/openconfig-interfaces:interfaces/interface/config'', Cb_oc_config, Some 98),
      (''/openconfig-interfaces:interfaces/interface/state'', Cb_oc_state, None)]"

lemma subscribe_all_append:
  "subscribe_all E (xs @ ys) = and_then (subscribe_all E xs) (subscribe_all E ys)"
  by (induction xs) (auto simp: and_then_def Let_def split: prod.splits)

lemma subscribe_all_change:
  "and_then (sr_subtree_change_subscribe E xp cb p) (subscribe_all E ss) = subscribe_all E ((xp, cb, Some p) # ss)"
  by (rule ext) (simp add: and_then_def sr_subtree_change_subscribe_def Let_def)

lemma subscribe_all_items:
  "and_then (sr_dp_get_items_subscribe E xp cb) (subscribe_all E ss) = subscribe_all E ((xp, cb, None) # ss)"
  by (rule ext) (simp add: and_then_def sr_dp_get_items_subscribe_def Let_def)

lemma subscribe_all_nil: "(\<lambda>tr. (SR_ERR_OK, tr)) = subscribe_all E []"
  by (rule ext) simp

lemma init_functions:
  "ietf_interface_init E = subscribe_all E ietf_interface_subs"
  "ietf_nat_init E = subscribe_all E ietf_nat_subs"
  "openconfig_interface_init E = subscribe_all E openconfig_subs"
  unfolding ietf_interface_init_def ietf_nat_init_def openconfig_interface_init_def
    ietf_interface_subs_def ietf_nat_subs_def openconfig_subs_def
    subscribe_all_change [symmetric] subscribe_all_items [symmetric]
  by (simp_all only: subscribe_all_nil [of E])

lemma subscribe_all_outcome:
  "subscribe_all E ss tr = (rc, tr') \<Longrightarrow>
     \<exists>done. (\<exists>rest. ss = done @ rest) \<and>
       (if rc = SR_ERR_OK then done = ss \<and> tr' = tr @ map (\<lambda>s. sub_effect s SR_ERR_OK) ss
        else done \<noteq> [] \<and> tr' = tr @ map (\<lambda>s. sub_effect s SR_ERR_OK) (butlast done) @ [sub_effect (last done) rc])"
proof (induction ss arbitrary: tr)
  case (Cons s ss)
  show ?case
  proof (cases "subscribe_rc E tr (fst s) = SR_ERR_OK")
    case True
    with Cons.prems have "subscribe_all E ss (tr @ [sub_effect s SR_ERR_OK]) = (rc, tr')" by simp
    from Cons.IH [OF this] obtain d where
      d: "\<exists>rest. ss = d @ rest"
        "if rc = SR_ERR_OK then d = ss \<and> tr' = (tr @ [sub_effect s SR_ERR_OK]) @ map (\<lambda>s. sub_effect s SR_ERR_OK) ss
         else d \<noteq> [] \<and> tr' = (tr @ [sub_effect s SR_ERR_OK]) @ map (\<lambda>s. sub_effect s SR_ERR_OK) (butlast d) @
           [sub_effect (last d) rc]" by blast
    then show ?thesis by (intro exI [of _ "s # d"]) (auto split: if_splits)
  next
    case False
    with Cons.prems show ?thesis by (intro exI [of _ "[s]"]) (auto simp: Let_def)
  qed
qed simp

text \<open>C40: The initialisation of each model: it succeeds exactly when every one of its subscriptions was
  accepted, and they were made in order, with these callbacks and priorities; otherwise it
  returns the error of the first one that was refused, after which no other was tried.\<close>

theorem init_function_outcome:
  assumes "(f, ss) \<in> {(ietf_interface_init E, ietf_interface_subs), (ietf_nat_init E, ietf_nat_subs),
      (openconfig_interface_init E, openconfig_subs)}"
    and "f tr = (rc, tr')"
  shows "\<exists>done. (\<exists>rest. ss = done @ rest) \<and>
    (if rc = SR_ERR_OK then done = ss \<and> tr' = tr @ map (\<lambda>s. sub_effect s SR_ERR_OK) ss
     else done \<noteq> [] \<and> tr' = tr @ map (\<lambda>s. sub_effect s SR_ERR_OK) (butlast done) @ [sub_effect (last done) rc])"
  using assms by (intro subscribe_all_outcome [of E]) (auto simp: init_functions)

theorem init_function_outcome_witness:
  "ietf_nat_init sample_env [] =
     (SR_ERR_OK, map (\<lambda>s. sub_effect s SR_ERR_OK) ietf_nat_subs)"
proof -
  let ?E = "sample_env"
  have ok: "fst (ietf_nat_init ?E []) = SR_ERR_OK"
    by (simp add: init_functions ietf_nat_subs_def)
  obtain rc tr' where run: "ietf_nat_init ?E [] = (rc, tr')" by fastforce
  have "(ietf_nat_init ?E, ietf_nat_subs) \<in> {(ietf_interface_init ?E, ietf_interface_subs),
      (ietf_nat_init ?E, ietf_nat_subs), (openconfig_interface_init ?E, openconfig_subs)}" by simp
  from init_function_outcome [OF this run] ok run show ?thesis by auto
qed

end
