(* ===== verification/Sc_Plugins.thy ===== *)
theory Sc_Plugins
  imports Sc_Init Subscriptions
begin

text \<open>
  \<^verbatim>\<open>plugins/sc_plugins.h\<close> and \<^verbatim>\<open>plugins/sc_plugins.c\<close>: the entry points that
  sysrepo calls, and the search for the process of VPP.  The file system and the processes
  are those of the system: what a directory scan of \<^verbatim>\<open>/proc\<close> finds is an argument.
\<close>

section \<open>get_vpp_pid\<close>

record proc_entry =
  e_name :: string
  e_is_dir :: bool

text \<open>
  What the system answers: the entries or the error of \<open>opendir\<close>, the error that ends the
  scan, if it is not the end of the directory, and for each path either the error of
  \<open>fopen\<close> or the bytes of the file that can be read, with the error that \<open>fread\<close>
  meets after them if there is one.
\<close>

datatype cmdline_file = Open_error int | Readable string "int option"

record procfs =
  p_entries :: "int + proc_entry list"
  p_readdir_error :: "int option"
  p_file :: "string \<Rightarrow> cmdline_file"

definition esrch :: int where "esrch = 3"

definition vpp_full_path :: string where
  "vpp_full_path = ''/usr/bin/vpp''"

definition cmdline_max :: nat where
  "cmdline_max = 256 + 15"

text \<open>The first token of the first bytes of the command line, as many as the path of VPP has.\<close>

definition first_token :: "string \<Rightarrow> string option" where
  "first_token text = strtok_space (c_string (take (length vpp_full_path + 1) text))"

text \<open>The value of \<open>errno\<close> after \<open>fread\<close>.\<close>

definition read_errno :: "int option \<Rightarrow> int \<Rightarrow> int" where
  "read_errno err errno = (case err of None \<Rightarrow> errno | Some e \<Rightarrow> e)"

text \<open>The loop over the entries; the second argument and result are \<open>errno\<close>.\<close>

fun scan_proc :: "procfs \<Rightarrow> proc_entry list \<Rightarrow> int \<Rightarrow> int \<times> int" where
  "scan_proc P [] errno =
     (let errno = (case p_readdir_error P of None \<Rightarrow> errno | Some e \<Rightarrow> e)
      in if errno \<noteq> 0 then (- errno, errno) else (- esrch, errno))"
| "scan_proc P (d # ds) errno =
     (if e_name d = ''.'' \<or> e_name d = ''..'' then scan_proc P ds errno
      else if \<not> e_is_dir d then scan_proc P ds errno
      else
        (case p_file P (snprintf cmdline_max (''/proc/'' @ e_name d @ ''/cmdline'')) of
           Open_error e \<Rightarrow> scan_proc P ds e
         | Readable text err \<Rightarrow>
             let errno = read_errno err errno in
             if text = [] then scan_proc P ds errno
             else
               (case first_token text of
                  None \<Rightarrow> scan_proc P ds errno
                | Some first \<Rightarrow>
                    if first = ''vpp'' \<or> first = vpp_full_path then (atoi (e_name d), errno)
                    else scan_proc P ds 0)))"

definition get_vpp_pid :: "procfs \<Rightarrow> int \<Rightarrow> int \<times> int" where
  "get_vpp_pid P errno =
     (case p_entries P of Inl e \<Rightarrow> (- e, e) | Inr ds \<Rightarrow> scan_proc P ds errno)"

text \<open>Is an entry that of a running VPP?\<close>

definition is_vpp :: "procfs \<Rightarrow> proc_entry \<Rightarrow> bool" where
  "is_vpp P d \<longleftrightarrow>
     e_name d \<noteq> ''.'' \<and> e_name d \<noteq> ''..'' \<and> e_is_dir d \<and>
     (case p_file P (snprintf cmdline_max (''/proc/'' @ e_name d @ ''/cmdline'')) of
        Open_error e \<Rightarrow> False
      | Readable text err \<Rightarrow> text \<noteq> [] \<and> (first_token text = Some ''vpp'' \<or> first_token text = Some vpp_full_path))"

text \<open>The value of \<open>errno\<close> after entries of other processes.\<close>

fun errno_after :: "procfs \<Rightarrow> proc_entry list \<Rightarrow> int \<Rightarrow> int" where
  "errno_after P [] errno = errno"
| "errno_after P (d # ds) errno = errno_after P ds
     (if e_name d = ''.'' \<or> e_name d = ''..'' \<or> \<not> e_is_dir d then errno
      else case p_file P (snprintf cmdline_max (''/proc/'' @ e_name d @ ''/cmdline'')) of
             Open_error e \<Rightarrow> e
           | Readable text err \<Rightarrow> if text = [] \<or> first_token text = None then read_errno err errno else 0)"

lemma scan_proc_skip:
  "\<forall>d \<in> set ds. \<not> is_vpp P d \<Longrightarrow> scan_proc P (ds @ es) errno = scan_proc P es (errno_after P ds errno)"
  by (induction ds arbitrary: errno) (auto simp: is_vpp_def Let_def split: cmdline_file.splits option.splits)

lemma scan_proc_hit: "is_vpp P d \<Longrightarrow> fst (scan_proc P (d # ds) errno) = atoi (e_name d)"
  by (auto simp: is_vpp_def Let_def split: cmdline_file.splits option.splits)


text \<open>A system in which VPP runs as process 42 beside a kernel thread.\<close>

definition sample_procfs :: procfs where
  "sample_procfs =
     \<lparr>p_entries = Inr [\<lparr>e_name = ''2'', e_is_dir = True\<rparr>, \<lparr>e_name = ''42'', e_is_dir = True\<rparr>],
      p_readdir_error = None,
      p_file = (\<lambda>p. if p = ''/proc/42/cmdline'' then Readable (''/usr/bin/vpp'' @ [CHR 0x00] @ ''-c'') None
                    else if p = ''/proc/2/cmdline'' then Readable [] None else Open_error 2)\<rparr>"

lemma sample_procfs_vpp:
  "is_vpp sample_procfs \<lparr>e_name = ''42'', e_is_dir = True\<rparr>"
  "\<not> is_vpp sample_procfs \<lparr>e_name = ''2'', e_is_dir = True\<rparr>"
  by code_simp+

lemma sample_pid: "fst (get_vpp_pid sample_procfs err) = 42"
proof -
  have "scan_proc sample_procfs ([\<lparr>e_name = ''2'', e_is_dir = True\<rparr>] @ \<lparr>e_name = ''42'', e_is_dir = True\<rparr> # []) err =
      scan_proc sample_procfs [\<lparr>e_name = ''42'', e_is_dir = True\<rparr>]
        (errno_after sample_procfs [\<lparr>e_name = ''2'', e_is_dir = True\<rparr>] err)"
    using sample_procfs_vpp(2) by (simp only: scan_proc_skip list.set ball_simps simp_thms)
  moreover have "atoi ''42'' = 42" by code_simp
  ultimately show ?thesis
    using scan_proc_hit [OF sample_procfs_vpp(1)] by (simp add: get_vpp_pid_def sample_procfs_def)
qed


text \<open>A system in which another program runs and VPP does not.\<close>

definition sample_procfs_down :: procfs where
  "sample_procfs_down =
     \<lparr>p_entries = Inr [\<lparr>e_name = ''7'', e_is_dir = True\<rparr>], p_readdir_error = None,
      p_file = (\<lambda>p. Readable ''/bin/sh'' None)\<rparr>"

lemma sample_pid_down: "fst (get_vpp_pid sample_procfs_down err) = - 3"
proof -
  have token: "first_token ''/bin/sh'' = Some ''/bin/sh''" "vpp_full_path \<noteq> ''/bin/sh''" by code_simp+
  then show ?thesis
    by (simp add: get_vpp_pid_def sample_procfs_down_def esrch_def)
qed

text \<open>C27: No VPP is running: the answer is \<open>- ESRCH\<close>, as the comment says, only when
  \<open>errno\<close> is zero at the end of the scan: when the last thing that set it was the reading of
  another command, or when it was zero on entry and nothing has set it.  A file that could not
  be opened or read after that leaves its error there, and its negation is returned instead; so
  is a value that was there before the call.\<close>

theorem get_vpp_pid_not_found:
  assumes "p_entries P = Inr ds" and "\<forall>d \<in> set ds. \<not> is_vpp P d" and "p_readdir_error P = None"
  shows "fst (get_vpp_pid P errno) = (if errno_after P ds errno = 0 then - esrch else - errno_after P ds errno)"
  using assms scan_proc_skip [of ds P "[]" errno] by (simp add: get_vpp_pid_def Let_def)

theorem get_vpp_pid_not_found_witness:
  "fst (get_vpp_pid (sample_procfs\<lparr>p_entries := Inr [\<lparr>e_name = ''7'', e_is_dir = True\<rparr>]\<rparr>) 0) = - 2"
proof -
  let ?P = "sample_procfs\<lparr>p_entries := Inr [\<lparr>e_name = ''7'', e_is_dir = True\<rparr>]\<rparr>"
  have f: "p_file ?P (snprintf cmdline_max (''/proc/'' @ ''7'' @ ''/cmdline'')) = Open_error 2"
    by (simp add: sample_procfs_def cmdline_max_def snprintf_def)
  then have "\<not> is_vpp ?P \<lparr>e_name = ''7'', e_is_dir = True\<rparr>" "errno_after ?P [\<lparr>e_name = ''7'', e_is_dir = True\<rparr>] 0 = 2"
    by (simp_all add: is_vpp_def)
  with get_vpp_pid_not_found [of ?P "[\<lparr>e_name = ''7'', e_is_dir = True\<rparr>]" 0] show ?thesis
    by (simp add: sample_procfs_def)
qed

section \<open>Connecting\<close>

text \<open>\<open>while (HW::connect() != true);\<close> may never end.\<close>

partial_function (option) connect_loop :: "env \<Rightarrow> trace \<Rightarrow> trace option" where
  "connect_loop E tr =
     (if hw_connect E tr then Some (tr @ [Hw_connect True]) else connect_loop E (tr @ [Hw_connect False]))"

definition failures :: "nat \<Rightarrow> effect list" where
  "failures n = replicate n (Hw_connect False)"

lemma failures_simps [simp]:
  "failures 0 = []"
  "failures n @ [Hw_connect False] = Hw_connect False # failures n"
  "failures (Suc n) = Hw_connect False # failures n"
  by (simp_all add: failures_def replicate_append_same)

lemma connect_loop_after:
  "(\<forall>i < n. \<not> hw_connect E (tr @ failures i)) \<Longrightarrow> connect_loop E tr = connect_loop E (tr @ failures n)"
proof (induction n)
  case (Suc n)
  then have "connect_loop E tr = connect_loop E (tr @ failures n)" "\<not> hw_connect E (tr @ failures n)" by auto
  then show ?case
    by (simp add: connect_loop.simps [of E "tr @ failures n"])
qed simp

definition connected :: "env \<Rightarrow> trace \<Rightarrow> trace \<Rightarrow> bool" where
  "connected E tr t \<longleftrightarrow>
     (\<exists>n. (\<forall>i < n. \<not> hw_connect E (tr @ failures i)) \<and> hw_connect E (tr @ failures n) \<and>
          t = tr @ failures n @ [Hw_connect True])"

lemma connected_step:
  assumes "\<And>E tr t. f E tr = Some t \<Longrightarrow> connected E tr t"
    and "(if hw_connect E tr then Some (tr @ [Hw_connect True]) else f E (tr @ [Hw_connect False])) = Some t"
  shows "connected E tr t"
proof (cases "hw_connect E tr")
  case True
  with assms(2) show ?thesis unfolding connected_def by (intro exI [of _ 0]) simp
next
  case False
  with assms(2) have "f E (tr @ [Hw_connect False]) = Some t" by simp
  from assms(1) [OF this] obtain n where
    n: "\<forall>i < n. \<not> hw_connect E ((tr @ [Hw_connect False]) @ failures i)"
      "hw_connect E ((tr @ [Hw_connect False]) @ failures n)"
      "t = (tr @ [Hw_connect False]) @ failures n @ [Hw_connect True]" by (auto simp: connected_def)
  have "\<not> hw_connect E (tr @ failures i)" if "i < Suc n" for i
    using that n(1) False by (cases i) auto
  with n(2,3) show ?thesis
    unfolding connected_def by (intro exI [of _ "Suc n"]) simp
qed

lemma connect_loop_Some: "connect_loop E tr = Some t \<Longrightarrow> connected E tr t"
  by (rule connect_loop.raw_induct [of connected, OF connected_step])

lemma connect_loop_exact: "connect_loop E tr = Some t \<longleftrightarrow> connected E tr t"
proof
  assume "connected E tr t"
  then obtain n where n: "\<forall>i < n. \<not> hw_connect E (tr @ failures i)" "hw_connect E (tr @ failures n)"
    "t = tr @ failures n @ [Hw_connect True]" by (auto simp: connected_def)
  from connect_loop_after [OF n(1)] n(2,3) show "connect_loop E tr = Some t"
    by (simp add: connect_loop.simps [of E "tr @ failures n"])
qed (rule connect_loop_Some)

text \<open>C16: The loop ends exactly when some attempt to connect succeeds, and then it has made one attempt
  after the other up to the first successful one.\<close>

theorem connect_loop_iff:
  "connect_loop E tr = Some t \<longleftrightarrow>
     (\<exists>n. (\<forall>i < n. \<not> hw_connect E (tr @ failures i)) \<and> hw_connect E (tr @ failures n) \<and>
          t = tr @ failures n @ [Hw_connect True])"
  unfolding connect_loop_exact connected_def ..

theorem connect_loop_iff_witness:
  "connect_loop (sample_env\<lparr>hw_connect := (\<lambda>t. length t \<ge> 1)\<rparr>) [] = Some [Hw_connect False, Hw_connect True]"
proof -
  let ?E = "sample_env\<lparr>hw_connect := (\<lambda>t. length t \<ge> 1)\<rparr>"
  have "(\<forall>i < 1. \<not> hw_connect ?E ([] @ failures i)) \<and> hw_connect ?E ([] @ failures 1) \<and>
      [Hw_connect False, Hw_connect True] = [] @ failures 1 @ [Hw_connect True]"
    by (simp add: failures_def)
  then show ?thesis unfolding connect_loop_iff by (rule exI)
qed

section \<open>The entry points\<close>

text \<open>The models whose functions are registered.\<close>

datatype plugin_fn = Pl_ietf_interface | Pl_ietf_nat | Pl_openconfig_interface

fun call_init :: "env \<Rightarrow> plugin_fn \<Rightarrow> trace \<Rightarrow> sr_err \<times> trace" where
  "call_init E Pl_ietf_interface = ietf_interface_init E"
| "call_init E Pl_ietf_nat = ietf_nat_init E"
| "call_init E Pl_openconfig_interface = openconfig_interface_init E"

fun call_exit :: "plugin_fn \<Rightarrow> trace \<Rightarrow> trace" where
  "call_exit Pl_ietf_interface = ietf_interface_exit"
| "call_exit Pl_ietf_nat = ietf_nat_exit"
| "call_exit Pl_openconfig_interface = openconfig_interface_exit"

text \<open>
  The statics: \<open>sc_plugin_main\<close>, whose subscription is the context that the first
  accepted subscription creates, \<open>vpp_pid_start\<close> and \<open>errno\<close>.
\<close>

record sc_plugin_main =
  session :: "nat option"
  init_function_registrations :: "plugin_fn elt list"
  exit_function_registrations :: "plugin_fn elt list"
  vpp_pid_start :: int
  errno :: int
  out :: trace

fun is_subscribed :: "effect \<Rightarrow> bool" where
  "is_subscribed (Subscribe_change xp cb p rc) \<longleftrightarrow> rc = SR_ERR_OK"
| "is_subscribed (Subscribe_items xp cb rc) \<longleftrightarrow> rc = SR_ERR_OK"
| "is_subscribed _ \<longleftrightarrow> False"

definition subscription :: "sc_plugin_main \<Rightarrow> bool" where
  "subscription pm \<longleftrightarrow> list_ex is_subscribed (out pm)"

text \<open>How the initialisation ends, when it does: with a result, or with the whole process.\<close>

datatype ended = Returns sr_err | Exits nat

text \<open>
  \<open>sr_plugin_init_cb\<close>; the last argument but one and the second result tell whether the
  private context is non-null.  \<^verbatim>\<open>/proc\<close> may have changed with every call.
\<close>

definition sr_plugin_init_cb ::
    "env \<Rightarrow> (trace \<Rightarrow> procfs) \<Rightarrow> nat \<Rightarrow> bool \<Rightarrow> sc_plugin_main \<Rightarrow> (ended \<times> bool \<times> sc_plugin_main) option" where
  "sr_plugin_init_cb E proc sess private_ctx pm =
     (let pm = pm\<lparr>session := Some sess\<rparr> in
      case connect_loop E (out pm @ [Hw_init, Om_init]) of
        None \<Rightarrow> None
      | Some tr \<Rightarrow>
          let r = om_populate E tr;
              tr = tr @ [Om_populate r]
          in if r \<noteq> None then Some (Exits 1, private_ctx, pm\<lparr>out := tr\<rparr>)
             else
               let (rc, regs, tr) = sc_call_all_init_function (call_init E) (init_function_registrations pm) tr;
                   pm = pm\<lparr>init_function_registrations := regs, out := tr\<rparr>
               in if rc \<noteq> SR_ERR_OK then Some (Returns rc, private_ctx, pm)
                  else
                    let private_ctx = subscription pm;
                        (pid, err) = get_vpp_pid (proc tr) (errno pm);
                        pm = pm\<lparr>vpp_pid_start := pid, errno := err\<rparr>
                    in if pid < 0 then Some (Returns SR_ERR_DISCONNECT, private_ctx, pm)
                       else Some (Returns SR_ERR_OK, private_ctx, pm))"

definition sr_plugin_cleanup_cb :: "bool \<Rightarrow> sc_plugin_main \<Rightarrow> sc_plugin_main" where
  "sr_plugin_cleanup_cb private_ctx pm =
     (let (regs, tr) = sc_call_all_exit_function call_exit (exit_function_registrations pm) (out pm)
      in pm\<lparr>exit_function_registrations := regs,
            out := tr @ (if private_ctx then [Unsubscribe] else []) @ [Hw_disconnect]\<rparr>)"

definition sr_plugin_health_check_cb ::
    "env \<Rightarrow> (trace \<Rightarrow> procfs) \<Rightarrow> sc_plugin_main \<Rightarrow> (sr_err \<times> sc_plugin_main) option" where
  "sr_plugin_health_check_cb E proc pm =
     (let (vpp_pid_now, err) = get_vpp_pid (proc (out pm)) (errno pm);
          pm = pm\<lparr>errno := err\<rparr>
      in if vpp_pid_now = vpp_pid_start pm then Some (SR_ERR_OK, pm)
         else
           (case connect_loop E (out pm @ [Hw_disconnect]) of
              None \<Rightarrow> None
            | Some tr \<Rightarrow> Some (SR_ERR_OK, pm\<lparr>out := tr @ [Om_replay], vpp_pid_start := vpp_pid_now\<rparr>)))"

text \<open>What the models subscribe.\<close>

fun subs_of :: "plugin_fn \<Rightarrow> subscription list" where
  "subs_of Pl_ietf_interface = ietf_interface_subs"
| "subs_of Pl_ietf_nat = ietf_nat_subs"
| "subs_of Pl_openconfig_interface = openconfig_subs"

definition accepted :: "plugin_fn list \<Rightarrow> effect list" where
  "accepted fs = concat (map (\<lambda>f. map (\<lambda>s. sub_effect s SR_ERR_OK) (subs_of f)) fs)"

lemma call_init_subs: "call_init E f = subscribe_all E (subs_of f)"
  by (cases f) (simp_all add: init_functions)

lemma subscribe_all_ok:
  "\<forall>t x. subscribe_rc E t x = SR_ERR_OK \<Longrightarrow>
     subscribe_all E ss tr = (SR_ERR_OK, tr @ map (\<lambda>s. sub_effect s SR_ERR_OK) ss)"
  by (induction ss arbitrary: tr) simp_all

lemma init_all_accepted:
  assumes "\<forall>t x. subscribe_rc E t x = SR_ERR_OK"
  shows "sc_call_all_init_function (call_init E) regs tr =
    (SR_ERR_OK, map (is_called_update (\<lambda>_. True)) regs, tr @ accepted (uncalled regs))"
proof (induction regs arbitrary: tr)
  case (Cons p ps)
  then show ?case
    by (auto simp: accepted_def call_init_subs subscribe_all_ok [OF assms] Let_def)
qed (simp add: accepted_def)

lemma accepted_subscribed: "list_ex is_subscribed (accepted fs) \<longleftrightarrow> fs \<noteq> []"
proof (cases fs)
  case (Cons f gs)
  then show ?thesis
    by (cases f) (simp_all add: accepted_def ietf_interface_subs_def ietf_nat_subs_def openconfig_subs_def)
qed (simp add: accepted_def)

text \<open>C12: Start: where sysrepo accepts the subscriptions and VOM can be populated, the plugin connects,
  subscribes every model registered, in the order of the list, and then looks for VPP: it
  succeeds exactly when a process was found.  When none was, the subscriptions it has made
  stay, and so does the private context.\<close>

theorem plugin_init_outcome:
  assumes "\<forall>t x. subscribe_rc E t x = SR_ERR_OK"
    and "connect_loop E (out pm @ [Hw_init, Om_init]) = Some tr" and "om_populate E tr = None"
    and "regs = init_function_registrations pm"
    and "tr' = tr @ [Om_populate None] @ accepted (uncalled regs)"
    and "pid = fst (get_vpp_pid (proc tr') (errno pm))"
  shows "\<exists>pm'. sr_plugin_init_cb E proc sess ctx pm =
      Some (Returns (if pid < 0 then SR_ERR_DISCONNECT else SR_ERR_OK), subscription pm', pm') \<and>
    out pm' = tr' \<and> vpp_pid_start pm' = pid \<and> uncalled (init_function_registrations pm') = [] \<and>
    exit_function_registrations pm' = exit_function_registrations pm \<and>
    (uncalled regs \<noteq> [] \<longrightarrow> subscription pm')"
proof -
  obtain err where pid: "get_vpp_pid (proc tr') (errno pm) = (pid, err)" using assms(6) by (metis prod.collapse)
  have idle: "uncalled (map (is_called_update (\<lambda>_. True)) rs) = []" for rs :: "plugin_fn elt list"
    by (induction rs) simp_all
  let ?pm = "pm\<lparr>session := Some sess, init_function_registrations := map (is_called_update (\<lambda>_. True)) regs,
      out := tr', vpp_pid_start := pid, errno := err\<rparr>"
  have "sr_plugin_init_cb E proc sess ctx pm =
      Some (Returns (if pid < 0 then SR_ERR_DISCONNECT else SR_ERR_OK), subscription ?pm, ?pm)"
    using pid assms(2-5)
    by (simp add: sr_plugin_init_cb_def init_all_accepted [OF assms(1)] Let_def subscription_def)
  moreover have "uncalled regs \<noteq> [] \<longrightarrow> subscription ?pm"
    by (simp add: subscription_def assms(5) accepted_subscribed)
  ultimately show ?thesis using idle by (intro exI [of _ ?pm]) simp
qed

definition sample_main :: sc_plugin_main where
  "sample_main =
     \<lparr>session = None, init_function_registrations = register Pl_ietf_nat (register Pl_openconfig_interface []),
      exit_function_registrations = register Pl_ietf_nat (register Pl_openconfig_interface []),
      vpp_pid_start = 0, errno = 0, out = []\<rparr>"

theorem plugin_init_outcome_witness:
  "\<exists>pm'. sr_plugin_init_cb sample_env (\<lambda>_. sample_procfs) 1 False sample_main = Some (Returns SR_ERR_OK, True, pm') \<and>
     vpp_pid_start pm' = 42"
proof -
  have pid: "fst (get_vpp_pid sample_procfs 0) = 42" by code_simp
  have con: "connect_loop sample_env (out sample_main @ [Hw_init, Om_init]) = Some [Hw_init, Om_init, Hw_connect True]"
    by (simp add: connect_loop.simps sample_main_def)
  have ok: "\<forall>t x. subscribe_rc sample_env t x = SR_ERR_OK" by simp
  have ne: "uncalled (init_function_registrations sample_main) \<noteq> []" by (simp add: sample_main_def register_def)
  have err: "errno sample_main = 0" by (simp add: sample_main_def)
  from plugin_init_outcome [OF ok con _ refl refl refl, of "\<lambda>_. sample_procfs" 1 False] ne pid err show ?thesis
    by auto
qed

text \<open>The ways a start does not succeed: it never ends while no attempt to connect succeeds, it ends
  the whole process of sysrepo when VOM cannot be populated, and otherwise it returns the error
  of the first model that failed, whose subscriptions made before that stay without a private
  context to release them.\<close>

theorem plugin_init_failures:
  "(connect_loop E (out pm @ [Hw_init, Om_init]) = None \<longrightarrow> sr_plugin_init_cb E proc sess ctx pm = None) \<and>
   (connect_loop E (out pm @ [Hw_init, Om_init]) = Some tr \<and> om_populate E tr = Some e \<longrightarrow>
      sr_plugin_init_cb E proc sess ctx pm =
        Some (Exits 1, ctx, pm\<lparr>session := Some sess, out := tr @ [Om_populate (Some e)]\<rparr>)) \<and>
   (connect_loop E (out pm @ [Hw_init, Om_init]) = Some tr \<and> om_populate E tr = None \<and>
    sc_call_all_init_function (call_init E) (init_function_registrations pm) (tr @ [Om_populate None]) = (rc, regs, t) \<and>
    rc \<noteq> SR_ERR_OK \<longrightarrow>
      sr_plugin_init_cb E proc sess ctx pm =
        Some (Returns rc, ctx, pm\<lparr>session := Some sess, init_function_registrations := regs, out := t\<rparr>))"
  by (auto simp: sr_plugin_init_cb_def Let_def)

theorem plugin_init_failures_witness:
  "sr_plugin_init_cb (sample_env\<lparr>om_populate := (\<lambda>_. Some Library_error)\<rparr>) (\<lambda>_. sample_procfs) 1 False sample_main =
     Some (Exits 1, False, sample_main\<lparr>session := Some 1,
       out := [Hw_init, Om_init, Hw_connect True, Om_populate (Some Library_error)]\<rparr>)"
proof -
  let ?E = "sample_env\<lparr>om_populate := (\<lambda>_. Some Library_error)\<rparr>"
  have con: "connect_loop ?E (out sample_main @ [Hw_init, Om_init]) = Some [Hw_init, Om_init, Hw_connect True]"
    by (simp add: connect_loop.simps sample_main_def)
  from plugin_init_failures [of ?E sample_main "\<lambda>_. sample_procfs" 1 False "[Hw_init, Om_init, Hw_connect True]" Library_error]
    con show ?thesis by simp
qed

section \<open>The health check\<close>

text \<open>
  One check: while the answer of the scan is the reference it does nothing; otherwise it
  reconnects, replays the configuration and takes the answer for the reference.
\<close>

lemma health_check_same:
  assumes "fst (get_vpp_pid (proc (out pm)) (errno pm)) = vpp_pid_start pm"
  shows "\<exists>err. sr_plugin_health_check_cb E proc pm = Some (SR_ERR_OK, pm\<lparr>errno := err\<rparr>)"
  using assms by (auto simp: sr_plugin_health_check_cb_def Let_def split: prod.split)

lemma connect_loop_returns:
  assumes "\<exists>n. hw_connect E (tr @ failures n)"
  shows "\<exists>n. connect_loop E tr = Some (tr @ failures n @ [Hw_connect True])"
proof -
  from assms obtain n where "hw_connect E (tr @ failures n)" "\<forall>i < n. \<not> hw_connect E (tr @ failures i)"
    by (metis exists_least_iff [where P = "\<lambda>n. hw_connect E (tr @ failures n)"])
  then have "connected E tr (tr @ failures n @ [Hw_connect True])" by (auto simp: connected_def)
  then show ?thesis by (auto simp: connect_loop_exact)
qed

lemma health_check_other:
  assumes "fst (get_vpp_pid (proc (out pm)) (errno pm)) = n" and "n \<noteq> vpp_pid_start pm"
    and "\<exists>k. hw_connect E ((out pm @ [Hw_disconnect]) @ failures k)"
  shows "\<exists>err k. sr_plugin_health_check_cb E proc pm = Some (SR_ERR_OK,
    pm\<lparr>errno := err, out := out pm @ [Hw_disconnect] @ failures k @ [Hw_connect True, Om_replay], vpp_pid_start := n\<rparr>)"
proof -
  obtain err where pid: "get_vpp_pid (proc (out pm)) (errno pm) = (n, err)"
    using assms(1) by (metis prod.collapse)
  obtain k where "connect_loop E (out pm @ [Hw_disconnect]) =
      Some ((out pm @ [Hw_disconnect]) @ failures k @ [Hw_connect True])"
    using connect_loop_returns [OF assms(3)] by blast
  with pid assms(2) show ?thesis
    by (intro exI [of _ err] exI [of _ k]) (simp add: sr_plugin_health_check_cb_def)
qed

text \<open>A history of checks, each with what the file system holds when it comes.\<close>

fun health_checks :: "env \<Rightarrow> (trace \<Rightarrow> procfs) list \<Rightarrow> sc_plugin_main \<Rightarrow> (sr_err list \<times> sc_plugin_main) option" where
  "health_checks E [] pm = Some ([], pm)"
| "health_checks E (proc # procs) pm =
     (case sr_plugin_health_check_cb E proc pm of
        None \<Rightarrow> None
      | Some (r, pm') \<Rightarrow> map_option (\<lambda>(rs, q). (r # rs, q)) (health_checks E procs pm'))"

text \<open>The calls by which a check gives up a connection, takes a new one and replays.\<close>

definition reconnections :: "trace \<Rightarrow> effect list" where
  "reconnections tr = filter (\<lambda>e. e \<in> {Hw_disconnect, Hw_connect True, Om_replay}) tr"

lemma reconnections_failures [simp]: "reconnections (failures n) = []"
  by (simp add: reconnections_def failures_def)

lemma reconnections_append [simp]: "reconnections (xs @ ys) = reconnections xs @ reconnections ys"
  by (simp add: reconnections_def)

text \<open>C28: Over any history of health checks in which the scans of the processes answer given numbers,
  and some attempt to connect always succeeds, every check returns and reports that all is
  well, and the configuration is replayed exactly as often as the answer changes from one
  check to the next, the first of them being compared with the pid of the start: each time
  VPP is disconnected, connected and then the configuration replayed, in this order and once.
  The disappearance of VPP counts as a change and so does its return.\<close>

theorem health_checks_replay:
  assumes "list_all2 (\<lambda>proc n. \<forall>t err. fst (get_vpp_pid (proc t) err) = n) procs ns"
    and "\<forall>t. \<exists>k. hw_connect E (t @ failures k)"
  shows "\<exists>pm'. health_checks E procs pm = Some (replicate (length ns) SR_ERR_OK, pm') \<and>
    vpp_pid_start pm' = last (vpp_pid_start pm # ns) \<and>
    reconnections (out pm') = reconnections (out pm) @
      concat (replicate (length (remdups_adj (vpp_pid_start pm # ns)) - 1) [Hw_disconnect, Hw_connect True, Om_replay])"
  using assms(1)
proof (induction procs ns arbitrary: pm rule: list_all2_induct)
  case (Cons proc procs n ns)
  have pid: "fst (get_vpp_pid (proc (out pm)) (errno pm)) = n" using Cons.hyps(1) by simp
  show ?case
  proof (cases "n = vpp_pid_start pm")
    case True
    with pid health_check_same [of proc pm E] obtain err where
      check: "sr_plugin_health_check_cb E proc pm = Some (SR_ERR_OK, pm\<lparr>errno := err\<rparr>)" by blast
    from Cons.IH [of "pm\<lparr>errno := err\<rparr>"] True show ?thesis
      by (auto simp: check)
  next
    case False
    from health_check_other [of proc pm n E] pid False assms(2) obtain err k where
      check: "sr_plugin_health_check_cb E proc pm = Some (SR_ERR_OK, pm\<lparr>errno := err,
        out := out pm @ [Hw_disconnect] @ failures k @ [Hw_connect True, Om_replay], vpp_pid_start := n\<rparr>)" by blast
    obtain m where m: "length (remdups_adj (n # ns)) = Suc m"
      by (cases "remdups_adj (n # ns)") auto
    from Cons.IH [of "pm\<lparr>errno := err,
        out := out pm @ [Hw_disconnect] @ failures k @ [Hw_connect True, Om_replay], vpp_pid_start := n\<rparr>"] False m
    show ?thesis
      by (auto simp: check reconnections_def failures_def)
  qed
qed simp

text \<open>VPP runs, is gone, and runs again as before: two changes, and two replays.\<close>

theorem health_checks_replay_witness:
  "\<exists>pm'. health_checks sample_env [\<lambda>_. sample_procfs, \<lambda>_. sample_procfs_down, \<lambda>_. sample_procfs, \<lambda>_. sample_procfs]
      (sample_main\<lparr>vpp_pid_start := 42\<rparr>) = Some ([SR_ERR_OK, SR_ERR_OK, SR_ERR_OK, SR_ERR_OK], pm') \<and>
    vpp_pid_start pm' = 42 \<and>
    reconnections (out pm') =
      [Hw_disconnect, Hw_connect True, Om_replay, Hw_disconnect, Hw_connect True, Om_replay]"
proof -
  have pids: "list_all2 (\<lambda>proc n. \<forall>t err. fst (get_vpp_pid (proc t) err) = n)
      [\<lambda>_. sample_procfs, \<lambda>_. sample_procfs_down, \<lambda>_. sample_procfs, \<lambda>_. sample_procfs] [42, - 3, 42, 42]"
    by (simp add: sample_pid sample_pid_down)
  have "\<forall>t. \<exists>k. hw_connect sample_env (t @ failures k)" by simp
  from health_checks_replay [OF pids this, of "sample_main\<lparr>vpp_pid_start := 42\<rparr>"] show ?thesis
    by (simp add: sample_main_def reconnections_def numeral_eq_Suc)
qed

text \<open>C15: A check that runs while VPP is down takes the absence of a process for the reference: after it
  has reconnected to the restarted VPP and replayed the configuration, the next check finds
  the new process different from that and disconnects and replays a second time, although
  nothing has crashed; only the check after that is quiet.\<close>

theorem health_check_double_replay:
  assumes "sr_plugin_health_check_cb E proc pm = Some (r, pm1)"
    and "fst (get_vpp_pid (proc (out pm)) (errno pm)) < 0" and "0 \<le> vpp_pid_start pm"
    and "\<And>t err. t \<noteq> out pm \<Longrightarrow> fst (get_vpp_pid (proc t) err) = int n"
    and "sr_plugin_health_check_cb E proc pm1 = Some (r', pm2)"
  shows "length (filter (\<lambda>e. e = Om_replay) (out pm2)) = length (filter (\<lambda>e. e = Om_replay) (out pm)) + 2 \<and>
    vpp_pid_start pm2 = int n \<and> map_option (\<lambda>(r, q). (r, out q)) (sr_plugin_health_check_cb E proc pm2) =
      Some (SR_ERR_OK, out pm2)"
proof -
  have no_replay: "filter (\<lambda>e. e = Om_replay) (failures k) = []" for k
    by (simp add: failures_def)
  obtain now err where now: "get_vpp_pid (proc (out pm)) (errno pm) = (now, err)" by fastforce
  with assms(2,3) have "now < 0" "now \<noteq> vpp_pid_start pm" by auto
  with assms(1) now obtain tr where tr: "connect_loop E (out pm @ [Hw_disconnect]) = Some tr"
    "pm1 = pm\<lparr>errno := err, out := tr @ [Om_replay], vpp_pid_start := now\<rparr>"
    by (auto simp: sr_plugin_health_check_cb_def Let_def split: option.splits)
  from connect_loop_Some [OF tr(1)] obtain k where
    k: "tr = (out pm @ [Hw_disconnect]) @ failures k @ [Hw_connect True]" by (auto simp: connected_def)
  have out1: "out pm1 = tr @ [Om_replay]" "vpp_pid_start pm1 = now" by (simp_all add: tr(2))
  have "out pm1 \<noteq> out pm" by (simp add: out1 k)
  with assms(4) obtain err1 where now1: "get_vpp_pid (proc (out pm1)) (errno pm1) = (int n, err1)"
    by (metis prod.collapse)
  with assms(5) out1(2) \<open>now < 0\<close> obtain tr1 where tr1: "connect_loop E (out pm1 @ [Hw_disconnect]) = Some tr1"
    "pm2 = pm1\<lparr>errno := err1, out := tr1 @ [Om_replay], vpp_pid_start := int n\<rparr>"
    by (auto simp: sr_plugin_health_check_cb_def Let_def split: option.splits)
  from connect_loop_Some [OF tr1(1)] obtain k1 where
    k1: "tr1 = (out pm1 @ [Hw_disconnect]) @ failures k1 @ [Hw_connect True]" by (auto simp: connected_def)
  have out2: "out pm2 = tr1 @ [Om_replay]" "vpp_pid_start pm2 = int n" by (simp_all add: tr1(2))
  have "out pm2 \<noteq> out pm" by (simp add: out2 k1 out1 k)
  with assms(4) obtain err2 where "get_vpp_pid (proc (out pm2)) (errno pm2) = (int n, err2)"
    by (metis prod.collapse)
  then have quiet: "map_option (\<lambda>(r, q). (r, out q)) (sr_plugin_health_check_cb E proc pm2) = Some (SR_ERR_OK, out pm2)"
    by (simp add: sr_plugin_health_check_cb_def Let_def out2(2))
  have "length (filter (\<lambda>e. e = Om_replay) (out pm2)) = length (filter (\<lambda>e. e = Om_replay) (out pm)) + 2"
    by (simp add: out2 k1 out1 k no_replay)
  with out2(2) quiet show ?thesis by blast
qed

theorem health_check_double_replay_witness:
  "\<exists>pm1 pm2. sr_plugin_health_check_cb sample_env
       (\<lambda>t. if t = [] then sample_procfs\<lparr>p_entries := Inr []\<rparr> else sample_procfs) (sample_main\<lparr>vpp_pid_start := 41\<rparr>) =
         Some (SR_ERR_OK, pm1) \<and>
     sr_plugin_health_check_cb sample_env
       (\<lambda>t. if t = [] then sample_procfs\<lparr>p_entries := Inr []\<rparr> else sample_procfs) pm1 = Some (SR_ERR_OK, pm2) \<and>
     length (filter (\<lambda>e. e = Om_replay) (out pm2)) = 2"
proof -
  let ?proc = "\<lambda>t :: trace. if t = [] then sample_procfs\<lparr>p_entries := Inr []\<rparr> else sample_procfs"
  let ?pm = "sample_main\<lparr>vpp_pid_start := 41\<rparr>"
  let ?pm1 = "?pm\<lparr>out := [Hw_disconnect, Hw_connect True, Om_replay], vpp_pid_start := - 3\<rparr>"
  let ?pm2 = "?pm\<lparr>out := [Hw_disconnect, Hw_connect True, Om_replay, Hw_disconnect, Hw_connect True, Om_replay],
      vpp_pid_start := 42\<rparr>"
  have pid0: "get_vpp_pid (sample_procfs\<lparr>p_entries := Inr []\<rparr>) 0 = (- 3, 0)"
    by (simp add: get_vpp_pid_def sample_procfs_def esrch_def)
  have e: "out ?pm = []" "errno ?pm = 0" "vpp_pid_start ?pm = 41" by (simp_all add: sample_main_def)
  have "get_vpp_pid sample_procfs 0 = (42, 0)" by code_simp
  then have r1: "sr_plugin_health_check_cb sample_env ?proc ?pm = Some (SR_ERR_OK, ?pm1)"
    and r2: "sr_plugin_health_check_cb sample_env ?proc ?pm1 = Some (SR_ERR_OK, ?pm2)"
    using pid0 by (simp_all add: sr_plugin_health_check_cb_def connect_loop.simps sample_main_def)
  have pos: "fst (get_vpp_pid (?proc t) err) = int 42" if "t \<noteq> out ?pm" for t err
    using that sample_pid e(1) by simp
  have neg: "fst (get_vpp_pid (?proc (out ?pm)) (errno ?pm)) < 0" using e pid0 by simp
  have nn: "0 \<le> vpp_pid_start ?pm" by simp
  from health_check_double_replay [OF r1 neg nn pos r2] r1 r2 show ?thesis
    by (auto simp: sample_main_def)
qed

lemma plugin_cleanup_eq:
  "sr_plugin_cleanup_cb ctx pm =
     pm\<lparr>exit_function_registrations := map (is_called_update (\<lambda>_. True)) (exit_function_registrations pm),
        out := out pm @ (if ctx then [Unsubscribe] else []) @ [Hw_disconnect]\<rparr>"
proof -
  have "call_exit f = id" for f
    by (cases f) (simp_all add: fun_eq_iff ietf_interface_exit_def ietf_nat_exit_def openconfig_interface_exit_def)
  then have "sc_call_all_exit_function call_exit regs tr = (map (is_called_update (\<lambda>_. True)) regs, tr)" for regs tr
    by (induction regs arbitrary: tr) auto
  then show ?thesis by (simp add: sr_plugin_cleanup_cb_def)
qed

text \<open>Stop: every exit function not called so far is called, in order, none of them does anything, and
  the subscriptions are released exactly when there is a private context; VPP is disconnected
  last.  A second stop calls no exit function again.\<close>

theorem plugin_cleanup_outcome:
  "sr_plugin_cleanup_cb ctx pm =
     pm\<lparr>exit_function_registrations := map (is_called_update (\<lambda>_. True)) (exit_function_registrations pm),
        out := out pm @ (if ctx then [Unsubscribe] else []) @ [Hw_disconnect]\<rparr>"
  by (rule plugin_cleanup_eq)

end
