(* ===== verification/Sys_Util.thy ===== *)
theory Sys_Util
  imports Sample_Env
begin

text \<open>
  \<^verbatim>\<open>plugins/sys_util.h\<close> and \<^verbatim>\<open>plugins/sys_util.cpp\<close>: the loop macro over the
  changes of a notification, the null checks of arguments, the conversion of a netmask to a
  prefix length, and the class \<open>utils::prefix\<close>.
\<close>

section \<open>The macros\<close>

text \<open>
  \<open>foreach_change\<close>: the body runs on each change while \<open>sr_get_change_next\<close>
  gives one, and not at all for the abort event.  The index counts the changes, so that the
  values a body frees can be told apart.
\<close>

fun foreach_change ::
    "sr_event \<Rightarrow> (nat \<Rightarrow> change \<Rightarrow> 's \<Rightarrow> ('r, 's) flow) \<Rightarrow> nat \<Rightarrow> change list \<Rightarrow> 's \<Rightarrow> ('r, 's) flow" where
  "foreach_change ev body i [] s = Next s"
| "foreach_change ev body i (c # cs) s =
     (if ev \<noteq> SR_EV_ABORT then then_flow (body i c s) (foreach_change ev body (Suc i) cs)
      else Next s)"

text \<open>
  What the pointers to the values hold after the loop: the last call of
  \<open>sr_get_change_next\<close>, the one that fails, clears them or leaves them.
\<close>

definition vals_after_loop :: "env \<Rightarrow> sr_event \<Rightarrow> nat option \<Rightarrow> nat option" where
  "vals_after_loop E ev v = (if ev \<noteq> SR_EV_ABORT \<and> next_nulls E then None else v)"

text \<open>\<open>sr_free_val\<close> of the two pointers; null pointers are ignored.\<close>

definition free_vals :: "nat option \<Rightarrow> effect list" where
  "free_vals v = (case v of None \<Rightarrow> [] | Some i \<Rightarrow> [Free_vals i])"

text \<open>\<open>ARG_CHECK2\<close> and \<open>ARG_CHECK3\<close>: is one of the arguments null?\<close>

definition arg_check2 :: "'a option \<Rightarrow> 'b option \<Rightarrow> bool" where
  "arg_check2 a b \<longleftrightarrow> a = None \<or> b = None"

definition arg_check3 :: "'a option \<Rightarrow> 'b option \<Rightarrow> 'c option \<Rightarrow> bool" where
  "arg_check3 a b c \<longleftrightarrow> a = None \<or> b = None \<or> c = None"

lemma foreach_change_abort: "foreach_change SR_EV_ABORT body i cs s = Next s"
  by (cases cs) auto

lemma foreach_change_append:
  "ev \<noteq> SR_EV_ABORT \<Longrightarrow>
     foreach_change ev body i (xs @ ys) =
     (\<lambda>s. then_flow (foreach_change ev body i xs s) (foreach_change ev body (i + length xs) ys))"
  by (induction xs arbitrary: i) (auto simp: then_flow_assoc)

text \<open>What holds of every way the body ends holds of the way the loop ends.\<close>

lemma foreach_change_Goto:
  "foreach_change ev body i cs s = Goto t \<Longrightarrow> \<forall>i c s t. body i c s = Goto t \<longrightarrow> P t \<Longrightarrow> P t"
proof (induction cs arbitrary: i s)
  case (Cons c cs)
  then show ?case by (cases "body i c s") (auto simp: flow_simps split: if_splits)
qed simp

lemma foreach_change_Ret:
  "foreach_change ev body i cs s = Ret r t \<Longrightarrow> \<forall>i c s r t. body i c s = Ret r t \<longrightarrow> P r t \<Longrightarrow> P r t"
proof (induction cs arbitrary: i s)
  case (Cons c cs)
  then show ?case by (cases "body i c s") (auto simp: flow_simps split: if_splits)
qed simp

lemma foreach_change_Next:
  "foreach_change ev body i cs s = Next t \<Longrightarrow> ev \<noteq> SR_EV_ABORT \<Longrightarrow>
     \<forall>i c s t. body i c s = Next t \<longrightarrow> P c \<Longrightarrow> \<forall>c \<in> set cs. P c"
proof (induction cs arbitrary: i s)
  case (Cons c cs)
  then obtain u where u: "body i c s = Next u" "foreach_change ev body (Suc i) cs u = Next t"
    by (auto simp: then_flow_Next_iff)
  from u(1) Cons.prems(3) have "P c" by blast
  moreover from Cons.IH [OF u(2) Cons.prems(2,3)] have "\<forall>c \<in> set cs. P c" .
  ultimately show ?case by simp
qed simp

lemma free_vals_trace [trace_simps]:
  "config_ops (free_vals v) = []" "iter_frees (free_vals v) = 0"
  "freed_vals (free_vals v) = (case v of None \<Rightarrow> [] | Some i \<Rightarrow> [i])"
  by (simp_all add: free_vals_def trace_simps split: option.splits)

section \<open>netmask_to_plen\<close>

text \<open>
  The loop \<open>while (n > 0) { n = n >> 1; i++; }\<close> with \<open>n\<close> of 32 and \<open>i\<close> of
  8 bits.  The shift makes \<open>n\<close> smaller, so the loop ends.
\<close>

lemma unat_drop_bit_1: "unat (drop_bit (Suc 0) n) = unat (n :: u32) div 2"
  by (simp add: drop_bit_eq_div unat_div_distrib)

lemma shift_smaller: "n > 0 \<Longrightarrow> unat (drop_bit (Suc 0) n) < unat (n :: u32)"
  unfolding unat_drop_bit_1 by (simp add: word_less_nat_alt)

function count_shifts :: "u32 \<Rightarrow> u8 \<Rightarrow> u8" where
  "count_shifts n i = (if n > 0 then count_shifts (drop_bit 1 n) (i + 1) else i)"
  by pat_completeness auto
termination
  by (relation "measure (\<lambda>(n, i). unat n)") (auto intro: shift_smaller)

declare count_shifts.simps [simp del]

text \<open>An unsigned integer in memory, least significant byte first.\<close>

fun le_word :: "u8 list \<Rightarrow> u32" where
  "le_word [] = 0"
| "le_word (b # bs) = ucast b + push_bit 8 (le_word bs)"

text \<open>The value of the zero initialised \<open>n\<close> after bytes are stored from its start.\<close>

definition load_in_addr :: "bool \<Rightarrow> u8 list \<Rightarrow> u32" where
  "load_in_addr big bs =
     (let mem = bs @ replicate (4 - length bs) 0 in le_word (if big then rev mem else mem))"

definition netmask_to_plen :: "env \<Rightarrow> ip_address \<Rightarrow> u8 result" where
  "netmask_to_plen E netmask =
     (let af = (case netmask of Ip_v4 _ \<Rightarrow> AF_INET | Ip_v6 _ _ \<Rightarrow> AF_INET6)
      in case inet_pton E af (addr_to_string E netmask) of
           None \<Rightarrow> Raised (Runtime_error ''Fail converting netmask to prefix length'')
         | Some bytes \<Rightarrow>
             if length bytes > 4 then Crashed Stack_smash
             else Returned (count_shifts (load_in_addr (big_endian E) bytes) 0))"

text \<open>The bytes of a v4 address in network order, and the netmask of a prefix length.\<close>

definition be_bytes :: "u32 \<Rightarrow> u8 list" where
  "be_bytes a = map (\<lambda>k. ucast (drop_bit k a)) [24, 16, 8, 0]"

definition mask_of_plen :: "nat \<Rightarrow> u32" where
  "mask_of_plen p = of_nat (2 ^ 32 - 2 ^ (32 - p))"

lemma count_shifts_eq:
  "2 ^ k \<le> unat n \<Longrightarrow> unat n < 2 ^ Suc k \<Longrightarrow> count_shifts n i = i + of_nat (Suc k)"
proof (induction k arbitrary: n i)
  case 0
  then have "unat n = unat (1 :: u32)" by simp
  then have one: "n = 1" by (simp only: word_unat_eq_iff)
  show ?case
    by (simp add: one count_shifts.simps [of 1] count_shifts.simps [of 0])
next
  case (Suc k)
  have "(0::nat) < 2 ^ Suc k" by simp
  then have "0 < unat n" using Suc.prems(1) by (rule less_le_trans)
  then have pos: "n > 0" by (simp add: word_less_nat_alt)
  from Suc.prems have "2 ^ k \<le> unat (drop_bit 1 n)" "unat (drop_bit 1 n) < 2 ^ Suc k"
    by (simp_all add: unat_drop_bit_1)
  then have "count_shifts (drop_bit 1 n) (i + 1) = (i + 1) + of_nat (Suc k)"
    by (rule Suc.IH)
  with pos show ?case
    by (simp add: count_shifts.simps [of n] algebra_simps)
qed

lemma count_shifts_0: "count_shifts 0 i = i"
  by (simp add: count_shifts.simps)

text \<open>The loop counts the bits up to the highest one that is set.\<close>

lemma nat_bit_length:
  "(m::nat) > 0 \<Longrightarrow> \<exists>k. 2 ^ k \<le> m \<and> m < 2 ^ Suc k"
proof (induction m rule: less_induct)
  case (less m)
  show ?case
  proof (cases "m = 1")
    case True
    then show ?thesis by (intro exI [of _ 0]) simp
  next
    case False
    with less obtain k where "2 ^ k \<le> m div 2" "m div 2 < 2 ^ Suc k"
      by (metis Suc_lessI div_greater_zero_iff div_less_dividend less_2_cases_iff
          linorder_not_less one_less_numeral_iff semiring_norm(76) zero_less_iff_neq_zero One_nat_def)
    then show ?thesis by (intro exI [of _ "Suc k"]) auto
  qed
qed

lemma count_shifts_bit_length:
  assumes "n \<noteq> 0"
  obtains k where "2 ^ k \<le> unat n" "unat n < 2 ^ Suc k" "k < 32"
    "unat (count_shifts n 0) = Suc k"
proof -
  from assms have "unat n > 0" by (simp add: unat_gt_0 word_neq_0_conv)
  then obtain k where k: "2 ^ k \<le> unat n" "unat n < 2 ^ Suc k"
    using nat_bit_length by blast
  have "unat n < 2 ^ 32" using unsigned_less [of n, where ?'a = nat] by simp
  with k(1) have "(2::nat) ^ k < 2 ^ 32" by (rule le_less_trans)
  then have lt: "k < 32" by (rule power_less_imp_less_exp [rotated]) simp
  have "count_shifts n 0 = of_nat (Suc k)"
    using count_shifts_eq [OF k] by simp
  then have "unat (count_shifts n 0) = Suc k"
    using lt by (simp only: unat_of_nat) simp
  with k lt show ?thesis by (rule that)
qed

lemma length_be_bytes: "length (be_bytes a) = 4"
  by (simp add: be_bytes_def)

lemma load_be_bytes:
  "load_in_addr big (be_bytes a) = le_word (if big then rev (be_bytes a) else be_bytes a)"
  by (simp add: load_in_addr_def length_be_bytes)

lemma count_shifts_top:
  assumes "drop_bit k n = 1"
  shows "count_shifts n 0 = of_nat (Suc k)"
proof -
  have "drop_bit k (unat n) = 1" using assms by (metis unat_drop_bit_eq unat_1)
  then have one: "unat n div 2 ^ k = 1" by (simp only: drop_bit_eq_div)
  have "unat n = unat n div 2 ^ k * 2 ^ k + unat n mod 2 ^ k"
    by (simp only: div_mult_mod_eq)
  with one have "unat n = 2 ^ k + unat n mod 2 ^ k" by simp
  moreover have "unat n mod 2 ^ k < 2 ^ k" by simp
  ultimately have "2 ^ k \<le> unat n" "unat n < 2 * 2 ^ k" by linarith+
  then show ?thesis using count_shifts_eq by simp
qed

text \<open>
  The highest bit of a netmask as the two byte orders load it: the mask of \<open>p\<close> bits
  fills \<open>(p + 7) div 8\<close> bytes, each of them with its highest bit set.
\<close>

lemma mask_top_le:
  "list_all (\<lambda>p. drop_bit (8 * ((p + 7) div 8) - 1) (le_word (be_bytes (mask_of_plen p))) = 1) [1..<33]"
  by (simp add: be_bytes_def mask_of_plen_def upt_rec)

lemma mask_top_be:
  "list_all (\<lambda>p. drop_bit 31 (le_word (rev (be_bytes (mask_of_plen p)))) = 1) [1..<33]"
  by (simp add: be_bytes_def mask_of_plen_def upt_rec)

lemma count_shifts_mask:
  assumes "p \<le> 32"
  shows "count_shifts (load_in_addr big (be_bytes (mask_of_plen p))) 0 =
           (if big then if p = 0 then 0 else 32 else of_nat (8 * ((p + 7) div 8)))"
proof (cases "p = 0")
  case True
  then show ?thesis
    by (simp add: load_in_addr_def mask_of_plen_def be_bytes_def count_shifts_0)
next
  case False
  with assms have p: "p \<in> set [1..<33]" by auto
  have "drop_bit (8 * ((p + 7) div 8) - 1) (le_word (be_bytes (mask_of_plen p))) = 1"
    using mask_top_le p unfolding list_all_iff by (rule bspec)
  from count_shifts_top [OF this]
  have le: "count_shifts (le_word (be_bytes (mask_of_plen p))) 0 = of_nat (8 * ((p + 7) div 8))"
    using False by simp
  have "drop_bit 31 (le_word (rev (be_bytes (mask_of_plen p)))) = 1"
    using mask_top_be p unfolding list_all_iff by (rule bspec)
  from count_shifts_top [OF this] le False show ?thesis
    by (simp add: load_be_bytes)
qed

text \<open>C34: On a little endian host the prefix length of the netmask of \<open>p\<close> bits is
  \<open>p\<close> rounded up to whole bytes, on a big endian host it is 32 for every non-empty mask:
  the bytes are stored in network order and counted in host order.\<close>

theorem netmask_to_plen_contiguous:
  assumes "p \<le> 32"
    and "inet_pton E AF_INET (addr_to_string E (Ip_v4 (mask_of_plen p))) = Some (be_bytes (mask_of_plen p))"
  shows "netmask_to_plen E (Ip_v4 (mask_of_plen p)) =
    Returned (if big_endian E then if p = 0 then 0 else 32 else of_nat (8 * ((p + 7) div 8)))"
  using assms by (simp add: netmask_to_plen_def length_be_bytes count_shifts_mask)

theorem netmask_to_plen_contiguous_witness:
  "netmask_to_plen sample_env (Ip_v4 (mask_of_plen 17)) = Returned 24"
proof -
  have "inet_pton sample_env AF_INET (addr_to_string sample_env (Ip_v4 (mask_of_plen 17))) =
          Some (be_bytes (mask_of_plen 17))"
    by (simp add: mask_of_plen_def) code_simp
  from netmask_to_plen_contiguous [OF _ this] show ?thesis by simp
qed

text \<open>On a little endian host the conversion is right exactly for the netmasks that end
  on a byte boundary, such as the 255.255.255.0 of the comment.\<close>

theorem netmask_to_plen_exact_iff:
  assumes "p \<le> 32" and "\<not> big_endian E"
    and "inet_pton E AF_INET (addr_to_string E (Ip_v4 (mask_of_plen p))) = Some (be_bytes (mask_of_plen p))"
  shows "netmask_to_plen E (Ip_v4 (mask_of_plen p)) = Returned (of_nat p) \<longleftrightarrow> 8 dvd p"
proof -
  have "8 * ((p + 7) div 8) < 2 ^ LENGTH(8)" "p < 2 ^ LENGTH(8)" using assms(1) by auto
  then have "(of_nat (8 * ((p + 7) div 8)) = (of_nat p :: u8)) = (8 * ((p + 7) div 8) = p)"
    by (metis of_nat_inverse)
  moreover have "8 * ((p + 7) div 8) = p \<longleftrightarrow> 8 dvd p" by presburger
  ultimately show ?thesis
    using assms by (simp add: netmask_to_plen_def length_be_bytes count_shifts_mask)
qed

theorem netmask_to_plen_exact_iff_witness:
  "netmask_to_plen sample_env (Ip_v4 (mask_of_plen 24)) = Returned 24"
proof -
  have "inet_pton sample_env AF_INET (addr_to_string sample_env (Ip_v4 (mask_of_plen 24))) =
          Some (be_bytes (mask_of_plen 24))"
    by (simp add: mask_of_plen_def) code_simp
  from netmask_to_plen_exact_iff [OF _ _ this] show ?thesis by simp
qed

text \<open>A v6 netmask is never converted: \<open>inet_pton\<close> stores the sixteen bytes of
  the address into the four bytes of the local variable.\<close>

theorem netmask_to_plen_v6:
  assumes "\<And>s bytes. inet_pton E AF_INET6 s = Some bytes \<Longrightarrow> length bytes = 16"
  shows "netmask_to_plen E (Ip_v6 a sc) =
    (if inet_pton E AF_INET6 (addr_to_string E (Ip_v6 a sc)) = None
     then Raised (Runtime_error ''Fail converting netmask to prefix length'')
     else Crashed Stack_smash)"
proof (cases "inet_pton E AF_INET6 (addr_to_string E (Ip_v6 a sc))")
  case None
  then show ?thesis by (simp add: netmask_to_plen_def)
next
  case (Some bytes)
  from assms [OF Some] Some show ?thesis by (simp add: netmask_to_plen_def)
qed

theorem netmask_to_plen_v6_witness:
  "netmask_to_plen sample_env (Ip_v6 0 0) = Crashed Stack_smash"
proof -
  have len: "\<And>s bytes. inet_pton sample_env AF_INET6 s = Some bytes \<Longrightarrow> length bytes = 16"
    by (auto split: if_splits)
  from netmask_to_plen_v6 [of sample_env 0 0, OF len] show ?thesis by simp
qed

lemma count_shifts_Least: "unat (count_shifts n 0) = (LEAST k. unat n < 2 ^ k)"
proof (cases "n = 0")
  case True
  then show ?thesis by (simp add: count_shifts_0 Least_equality)
next
  case False
  then obtain k where k: "2 ^ k \<le> unat n" "unat n < 2 ^ Suc k" "unat (count_shifts n 0) = Suc k"
    by (rule count_shifts_bit_length)
  have "Suc k \<le> j" if "unat n < 2 ^ j" for j
  proof -
    from k(1) that have "(2::nat) ^ k < 2 ^ j" by (rule le_less_trans)
    then show ?thesis by simp
  qed
  with k show ?thesis by (metis (mono_tags, lifting) Least_equality)
qed

lemma count_shifts_le: "unat (count_shifts n 0) \<le> 32"
proof (cases "n = 0")
  case True
  then show ?thesis by (simp add: count_shifts_0)
next
  case False
  then obtain k where "k < 32" "unat (count_shifts n 0) = Suc k"
    by (rule count_shifts_bit_length)
  then show ?thesis by simp
qed

text \<open>C35: Whatever four bytes a v4 netmask has, contiguous or not, the loop ends and the answer is
  the number of bits up to the highest one that is set in the bytes as the host reads them,
  which is at most 32.\<close>

theorem netmask_to_plen_bit_length:
  assumes "inet_pton E AF_INET (addr_to_string E (Ip_v4 a)) = Some bytes" and "length bytes = 4"
  shows "\<exists>r. netmask_to_plen E (Ip_v4 a) = Returned r \<and> unat r \<le> 32 \<and>
    unat r = (LEAST k. unat (le_word (if big_endian E then rev bytes else bytes)) < 2 ^ k)"
  using assms count_shifts_Least count_shifts_le
  by (auto simp: netmask_to_plen_def load_in_addr_def)

theorem netmask_to_plen_bit_length_witness:
  "\<exists>r. netmask_to_plen sample_env (Ip_v4 0xFF00FF00) = Returned r \<and> unat r \<le> 32 \<and>
    unat r = (LEAST k. unat (le_word [255, 0, 255, 0]) < 2 ^ k)"
proof -
  have "inet_pton sample_env AF_INET (addr_to_string sample_env (Ip_v4 0xFF00FF00)) = Some [255, 0, 255, 0]"
    by simp code_simp
  from netmask_to_plen_bit_length [OF this] show ?thesis by simp
qed

section \<open>The class prefix\<close>

record prefix =
  m_address :: ip_address
  m_prefix_len :: u16

text \<open>
  The default constructor leaves the length uninitialised: its value is an argument.
\<close>

definition prefix_default :: "u16 \<Rightarrow> prefix" where
  "prefix_default junk = \<lparr>m_address = ip_default, m_prefix_len = junk\<rparr>"

definition prefix_length :: "prefix \<Rightarrow> u16" where
  "prefix_length p = m_prefix_len p"

definition prefix_address :: "prefix \<Rightarrow> ip_address" where
  "prefix_address p = m_address p"

definition prefix_copy :: "prefix \<Rightarrow> prefix" where
  "prefix_copy p = \<lparr>m_address = prefix_address p, m_prefix_len = prefix_length p\<rparr>"

text \<open>The constructor from a string; the int of \<open>stoi\<close> is cut to an unsigned short.\<close>

definition prefix_of_string :: "env \<Rightarrow> string \<Rightarrow> exn + prefix" where
  "prefix_of_string E p =
     (case find_last_of (CHR ''/'') p of
        None \<Rightarrow> Inl (Runtime_error (''missing '' @ [CHR 39, CHR ''/'', CHR 39] @ '' in '' @ p))
      | Some found \<Rightarrow>
          (case addr_from_string E (take found p) of
             None \<Rightarrow> Inl Boost_error
           | Some a \<Rightarrow>
               (case stoi (take (length p) (drop (found + 1) p)) of
                  Inl e \<Rightarrow> Inl e
                | Inr n \<Rightarrow> Inr \<lparr>m_address = a, m_prefix_len = word_of_int n\<rparr>)))"

definition make_prefix :: "env \<Rightarrow> string \<Rightarrow> exn + prefix" where
  "make_prefix E str =
     (case prefix_of_string E str of Inl e \<Rightarrow> Inl e | Inr tmp \<Rightarrow> Inr (prefix_copy tmp))"

definition prefix_to_string :: "env \<Rightarrow> prefix \<Rightarrow> string" where
  "prefix_to_string E p = addr_to_string E (m_address p) @ ''/'' @ dec (unat (m_prefix_len p))"

definition prefix_stream :: "env \<Rightarrow> string \<Rightarrow> prefix \<Rightarrow> string" where
  "prefix_stream E os p = os @ prefix_to_string E p"

definition prefix_empty :: "env \<Rightarrow> prefix \<Rightarrow> bool" where
  "prefix_empty E p \<longleftrightarrow> prefix_to_string E p = []"

lemma prefix_copy_id [simp]: "prefix_copy p = p"
  by (simp add: prefix_copy_def prefix_address_def prefix_length_def)

lemma make_prefix_eq: "make_prefix E s = prefix_of_string E s"
  by (simp add: make_prefix_def split: sum.splits)

text \<open>The text of a prefix has a slash, so no prefix counts as empty.\<close>

lemma prefix_never_empty [simp]: "\<not> prefix_empty E p"
  by (simp add: prefix_empty_def prefix_to_string_def)

lemma slash_not_in_dec: "CHR ''/'' \<notin> set (dec n)"
  using dec_digits is_digit_not_sign by blast

lemma make_prefix_accepts:
  "make_prefix E s = Inr p \<longleftrightarrow>
     (\<exists>a n v. s = a @ CHR ''/'' # n \<and> CHR ''/'' \<notin> set n \<and>
       addr_from_string E a = Some (prefix_address p) \<and>
       stoi n = Inr v \<and> prefix_length p = word_of_int v)"
proof
  assume "make_prefix E s = Inr p"
  then obtain i a v where i: "find_last_of (CHR ''/'') s = Some i"
    and a: "addr_from_string E (take i s) = Some a"
    and v: "stoi (drop (Suc i) s) = Inr v"
    and p: "p = \<lparr>m_address = a, m_prefix_len = word_of_int v\<rparr>"
    by (auto simp: make_prefix_eq prefix_of_string_def split: option.splits sum.splits)
  from find_last_of_Some_split [OF i] a v p show
    "\<exists>a n v. s = a @ CHR ''/'' # n \<and> CHR ''/'' \<notin> set n \<and>
       addr_from_string E a = Some (prefix_address p) \<and>
       stoi n = Inr v \<and> prefix_length p = word_of_int v"
    by (intro exI [of _ "take i s"] exI [of _ "drop (Suc i) s"] exI [of _ v])
      (simp add: prefix_address_def prefix_length_def)
next
  assume "\<exists>a n v. s = a @ CHR ''/'' # n \<and> CHR ''/'' \<notin> set n \<and>
       addr_from_string E a = Some (prefix_address p) \<and>
       stoi n = Inr v \<and> prefix_length p = word_of_int v"
  then show "make_prefix E s = Inr p"
    by (auto simp: make_prefix_eq prefix_of_string_def find_last_of_append
        prefix_address_def prefix_length_def)
qed

text \<open>C36: Exactly the texts that are accepted: the last slash separates an address that Boost
  reads from a text that starts with a number that fits an int; the length is that number
  modulo \<open>2 ^ 16\<close>, not checked against the size of the address.\<close>

theorem make_prefix_accepts_iff:
  "make_prefix E s = Inr p \<longleftrightarrow>
     (\<exists>a n v. s = a @ CHR ''/'' # n \<and> CHR ''/'' \<notin> set n \<and>
       addr_from_string E a = Some (prefix_address p) \<and>
       stoi n = Inr v \<and> prefix_length p = word_of_int v)"
  by (rule make_prefix_accepts)

text \<open>C37: Printing a prefix and reading it again gives the same prefix, for every length of an
  unsigned short, where Boost reads back the address it printed.\<close>

theorem make_prefix_roundtrip:
  assumes "addr_from_string E (addr_to_string E (prefix_address p)) = Some (prefix_address p)"
  shows "make_prefix E (prefix_to_string E p) = Inr p"
proof -
  have lt: "unat (m_prefix_len p) < 2 ^ 16"
    using unsigned_less [of "m_prefix_len p", where ?'a = nat] by simp
  then have "stoi (dec (unat (m_prefix_len p))) = Inr (int (unat (m_prefix_len p)))"
    by (intro stoi_dec) simp
  with assms show ?thesis
    unfolding make_prefix_accepts
    by (intro exI [of _ "addr_to_string E (m_address p)"] exI [of _ "dec (unat (m_prefix_len p))"]
        exI [of _ "int (unat (m_prefix_len p))"])
      (simp add: prefix_to_string_def prefix_address_def prefix_length_def slash_not_in_dec)
qed

theorem make_prefix_roundtrip_witness:
  "make_prefix sample_env (prefix_to_string sample_env \<lparr>m_address = Ip_v4 0x0A000002, m_prefix_len = 32\<rparr>) =
     Inr \<lparr>m_address = Ip_v4 0x0A000002, m_prefix_len = 32\<rparr>"
proof -
  have "addr_from_string sample_env (addr_to_string sample_env (Ip_v4 0x0A000002)) = Some (Ip_v4 0x0A000002)"
    by simp code_simp
  then show ?thesis
    using make_prefix_roundtrip [of sample_env "\<lparr>m_address = Ip_v4 0x0A000002, m_prefix_len = 32\<rparr>"]
    by (simp add: prefix_address_def)
qed

end
