(* ===== verification/Change_Loop.thy ===== *)
theory Change_Loop
  imports Sys_Util
begin

text \<open>
  What the configuration callbacks have in common: they loop over the changes of a
  notification with \<open>foreach_change\<close>, free the two values of a change at the end of
  its iteration, and leave through a cleanup label on an error.  The locale
  \<open>change_body\<close> is the contract that a loop body keeps towards the memory it is given;
  the facts about whole loops are proved once, here, and are interpreted for the body of
  every callback in the theory that defines it.
\<close>

section \<open>Leaving a callback\<close>

text \<open>
  The end of a callback: after a \<open>goto\<close> the cleanup runs and the code returns the
  result variable; a \<open>return\<close> and an exception skip it.
\<close>

fun leave_callback ::
    "('s \<Rightarrow> trace) \<Rightarrow> ('s \<Rightarrow> sr_err \<times> effect list) \<Rightarrow> (sr_err, 's) flow \<Rightarrow> sr_err result \<times> trace" where
  "leave_callback tr clean (Next s) = (Returned SR_ERR_OK, tr s)"
| "leave_callback tr clean (Goto s) = (Returned (fst (clean s)), tr s @ snd (clean s))"
| "leave_callback tr clean (Ret r s) = (Returned r, tr s)"
| "leave_callback tr clean (Throws e s) = (Raised e, tr s)"
| "leave_callback tr clean (Faults f s) = (Crashed f, tr s)"

declare leave_callback.simps [flow_simps]

text \<open>The trace after the loop over \<open>n\<close> changes without errors, and what the cleanup adds.\<close>

definition loop_trace :: "nat \<Rightarrow> trace \<Rightarrow> trace" where
  "loop_trace n tr = tr @ map Free_vals [0..<n]"

definition cleanup_after :: "env \<Rightarrow> nat \<Rightarrow> effect list" where
  "cleanup_after E n =
     free_vals (vals_after_loop E SR_EV_VERIFY (if n = 0 then None else Some (n - 1))) @ [Free_iter]"

section \<open>Calls of VOM\<close>

text \<open>\<open>OM::write\<close> and \<open>OM::remove\<close>: the answer, and the trace with the call.\<close>

definition call_om_write :: "env \<Rightarrow> trace \<Rightarrow> string \<Rightarrow> obj \<Rightarrow> (exn + rc_t) \<times> trace" where
  "call_om_write E tr k x = (let r = om_write E tr k x in (r, tr @ [Om_write k x r]))"

definition call_om_remove :: "env \<Rightarrow> trace \<Rightarrow> string \<Rightarrow> exn option \<times> trace" where
  "call_om_remove E tr k = (let r = om_remove E tr k in (r, tr @ [Om_remove k r]))"

lemma leave_callback_emits:
  assumes "\<And>s. list_all P (snd (clean s))"
  shows "\<exists>es. snd (leave_callback tr clean m) = tr (flow_state m) @ es \<and> list_all P es"
  using assms by (cases m) (auto simp: flow_simps)

section \<open>The contract of a loop body\<close>

locale change_body =
  fixes body :: "nat \<Rightarrow> change \<Rightarrow> 's \<Rightarrow> (sr_err, 's) flow"
    and tr :: "'s \<Rightarrow> trace"
    and vals :: "'s \<Rightarrow> nat option"
    and emits :: "effect \<Rightarrow> bool"
  assumes body_extends: "\<exists>es. tr (flow_state (body i c s)) = tr s @ es \<and> list_all emits es"
    and body_Next: "body i c s = Next t \<Longrightarrow>
      vals t = Some i \<and> freed_vals (tr t) = freed_vals (tr s) @ [i] \<and> iter_frees (tr t) = iter_frees (tr s)"
    and body_Goto: "body i c s = Goto t \<Longrightarrow>
      vals t = Some i \<and> freed_vals (tr t) = freed_vals (tr s) \<and> iter_frees (tr t) = iter_frees (tr s)"
begin

text \<open>A loop only makes the calls that its body makes.\<close>

lemma loop_extends:
  "\<exists>es. tr (flow_state (foreach_change ev body i cs s)) = tr s @ es \<and> list_all emits es"
proof (induction cs arbitrary: i s)
  case Nil
  then show ?case by (simp add: flow_simps)
next
  case (Cons c cs)
  from body_extends obtain es where
    es: "tr (flow_state (body i c s)) = tr s @ es" "list_all emits es" by blast
  show ?case
  proof (cases "body i c s")
    case (Next t)
    from Cons.IH obtain es' where
      "tr (flow_state (foreach_change ev body (Suc i) cs t)) = tr t @ es'" "list_all emits es'" by blast
    with es Next show ?thesis by (auto simp: flow_simps)
  qed (use es in \<open>auto simp: flow_simps\<close>)
qed

text \<open>A loop that reaches its end has freed every change once, in order.\<close>

lemma loop_Next:
  assumes "foreach_change ev body i cs s = Next t" and "ev \<noteq> SR_EV_ABORT"
  shows "freed_vals (tr t) = freed_vals (tr s) @ [i..<i + length cs] \<and>
    iter_frees (tr t) = iter_frees (tr s) \<and>
    vals t = (if cs = [] then vals s else Some (i + length cs - 1))"
  using assms(1)
proof (induction cs arbitrary: i s)
  case Nil
  then show ?case by simp
next
  case (Cons c cs)
  from Cons.prems assms(2) obtain u where
    u: "body i c s = Next u" "foreach_change ev body (Suc i) cs u = Next t"
    by (auto simp: then_flow_Next_iff)
  have upt: "i # [Suc i..<Suc i + length cs] = [i..<i + length (c # cs)]"
    by (simp add: upt_conv_Cons del: upt_Suc)
  have last: "cs = [] \<or> Suc i + length cs - 1 = i + length (c # cs) - 1" by simp
  from Cons.IH [OF u(2)] body_Next [OF u(1)] upt last show ?case
    by (auto simp del: upt_Suc)
qed

text \<open>
  A loop that jumps to the cleanup has freed the changes before the one it stopped at, and
  its pointers still hold the values of that one.
\<close>

lemma loop_Goto:
  assumes "foreach_change ev body i cs s = Goto t" and "ev \<noteq> SR_EV_ABORT"
  shows "\<exists>j < length cs. vals t = Some (i + j) \<and>
    freed_vals (tr t) = freed_vals (tr s) @ [i..<i + j] \<and> iter_frees (tr t) = iter_frees (tr s)"
  using assms(1)
proof (induction cs arbitrary: i s)
  case Nil
  then show ?case by simp
next
  case (Cons c cs)
  show ?case
  proof (cases "body i c s")
    case (Next u)
    with Cons.prems assms(2) have "foreach_change ev body (Suc i) cs u = Goto t"
      by (simp add: flow_simps)
    from Cons.IH [OF this] obtain j where "j < length cs" "vals t = Some (Suc i + j)"
      "freed_vals (tr t) = freed_vals (tr u) @ [Suc i..<Suc i + j]"
      "iter_frees (tr t) = iter_frees (tr u)" by blast
    with body_Next [OF Next] show ?thesis
      by (intro exI [of _ "Suc j"]) (simp add: upt_conv_Cons)
  next
    case (Goto u)
    with Cons.prems assms(2) have "u = t" by (simp add: flow_simps)
    with body_Goto [of i c s u] Goto show ?thesis by (intro exI [of _ 0]) simp
  qed (use Cons.prems assms(2) in \<open>auto simp: flow_simps\<close>)
qed

text \<open>
  A callback with this loop only adds to the trace, and only calls of the kinds that the body,
  what follows the loop and the cleanup make.
\<close>

lemma run_emits:
  assumes "\<And>e. emits e \<Longrightarrow> P e" and "\<And>s. list_all P (snd (clean s))"
    and "\<And>s. \<exists>es. tr (flow_state (finish s)) = tr s @ es \<and> list_all P es"
  shows "\<exists>es. snd (leave_callback tr clean (then_flow (foreach_change ev body i cs s) finish)) = tr s @ es \<and>
    list_all P es"
proof -
  let ?l = "foreach_change ev body i cs s"
  from loop_extends obtain es where es: "tr (flow_state ?l) = tr s @ es" "list_all emits es" by blast
  from es(2) assms(1) have "list_all P es" by (auto simp: list_all_iff)
  moreover have "\<exists>es'. tr (flow_state (then_flow ?l finish)) = tr (flow_state ?l) @ es' \<and> list_all P es'"
  proof (cases ?l)
    case (Next u)
    with assms(3) [of u] show ?thesis by (simp add: flow_simps)
  qed (auto simp: flow_simps)
  moreover note leave_callback_emits [where clean = clean and tr = tr and m = "then_flow ?l finish", OF assms(2)]
  ultimately show ?thesis using es(1) by auto
qed

lemmas loop_facts = loop_extends loop_Next loop_Goto

end

section \<open>The contract of a callback\<close>

text \<open>
  A callback that keeps the contract of the loop body, ends with a \<open>return\<close> after it has
  freed the iterator, or with a \<open>goto\<close> to a cleanup that frees what the pointers hold
  and the iterator.
\<close>

locale config_callback = change_body body tr vals emits
  for body :: "nat \<Rightarrow> change \<Rightarrow> 's \<Rightarrow> (sr_err, 's) flow"
    and tr :: "'s \<Rightarrow> trace" and vals :: "'s \<Rightarrow> nat option" and emits :: "effect \<Rightarrow> bool" +
  fixes set_vals :: "nat option \<Rightarrow> 's \<Rightarrow> 's"
    and finish :: "'s \<Rightarrow> (sr_err, 's) flow"
    and clean :: "'s \<Rightarrow> sr_err \<times> effect list"
  assumes set_vals: "vals (set_vals v s) = v" "tr (set_vals v s) = tr s"
    and clean_frees: "snd (clean s) = free_vals (vals s) @ [Free_iter]"
    and body_no_Ret: "body i c s \<noteq> Ret r t"
    and finish_no_Next: "finish s \<noteq> Next t"
    and finish_Ret: "finish s = Ret r t \<Longrightarrow>
      freed_vals (tr t) = freed_vals (tr s) \<and> iter_frees (tr t) = Suc (iter_frees (tr s))"
    and finish_Goto: "finish s = Goto t \<Longrightarrow> vals t = vals s \<and>
      freed_vals (tr t) = freed_vals (tr s) \<and> iter_frees (tr t) = iter_frees (tr s)"
begin

lemma loop_no_Ret: "foreach_change ev body i cs s \<noteq> Ret r t"
proof (induction cs arbitrary: i s)
  case (Cons c cs)
  then show ?case using body_no_Ret by (cases "body i c s") (auto simp: flow_simps)
qed simp

text \<open>
  Whenever such a callback returns, it has given back the iterator once.  The values of the
  changes it looked at have each been given back once, in order: those up to the change that
  stopped the loop, or all of them; where the failing call of \<open>sr_get_change_next\<close> leaves
  the pointers, those of the last change are given back a second time if the callback fails
  after the loop.
\<close>

lemma callback_frees:
  assumes run: "leave_callback tr clean
      (then_flow (foreach_change ev body 0 cs s) (\<lambda>s. finish (set_vals (vals_after_loop E ev (vals s)) s))) =
        (Returned r, t)"
    and ev: "ev \<noteq> SR_EV_ABORT" and init: "vals s = None"
  obtains
    (stopped) u j where "foreach_change ev body 0 cs s = Goto u" "r = fst (clean u)" "vals u = Some j"
      "freed_vals t = freed_vals (tr s) @ [0..<Suc j]" "iter_frees t = Suc (iter_frees (tr s))"
  | (finished) u v where "foreach_change ev body 0 cs s = Next u"
      "finish (set_vals (vals_after_loop E ev (vals u)) u) = Ret r v"
      "freed_vals t = freed_vals (tr s) @ [0..<length cs]" "iter_frees t = Suc (iter_frees (tr s))"
  | (failed) u v where "foreach_change ev body 0 cs s = Next u"
      "finish (set_vals (vals_after_loop E ev (vals u)) u) = Goto v" "r = fst (clean v)"
      "freed_vals t = freed_vals (tr s) @ [0..<length cs] @ (if next_nulls E \<or> cs = [] then [] else [length cs - 1])"
      "iter_frees t = Suc (iter_frees (tr s))"
proof (cases "foreach_change ev body 0 cs s")
  case (Next u)
  let ?u = "set_vals (vals_after_loop E ev (vals u)) u"
  note loop = loop_Next [OF Next ev]
  show thesis
  proof (cases "finish ?u")
    case (Goto v)
    with run Next have t: "r = fst (clean v)" "t = tr v @ free_vals (vals v) @ [Free_iter]"
      by (simp_all add: flow_simps clean_frees)
    from finish_Goto [OF Goto] loop have fv: "freed_vals (tr v) = freed_vals (tr s) @ [0..<length cs]"
      and it: "iter_frees (tr v) = iter_frees (tr s)"
      and vv: "vals v = vals_after_loop E ev (vals u)" by (simp_all add: set_vals)
    have "vals v = (if next_nulls E \<or> cs = [] then None else Some (length cs - 1))"
      using vv loop init ev by (simp add: vals_after_loop_def)
    with fv it t show thesis
      by (intro failed [OF Next Goto]) (simp_all add: trace_simps free_vals_def)
  next
    case (Ret q v)
    with run Next have "q = r" "t = tr v" by (simp_all add: flow_simps)
    with Ret finish_Ret [OF Ret] loop show thesis
      by (intro finished [OF Next, of v]) (simp_all add: set_vals)
  qed (use run Next finish_no_Next in \<open>auto simp: flow_simps\<close>)
next
  case (Goto u)
  with run have t: "r = fst (clean u)" "t = tr u @ free_vals (vals u) @ [Free_iter]"
    by (simp_all add: flow_simps clean_frees)
  from loop_Goto [OF Goto ev] obtain j where j: "vals u = Some j"
    "freed_vals (tr u) = freed_vals (tr s) @ [0..<j]" "iter_frees (tr u) = iter_frees (tr s)" by auto
  with t show thesis
    by (intro stopped [OF Goto, of j]) (simp_all add: trace_simps free_vals_def)
qed (use run loop_no_Ret in \<open>auto simp: flow_simps\<close>)

end

section \<open>Two bodies that agree\<close>

text \<open>
  A simulation between the loop bodies of two callbacks: on the changes that both accept, one
  computes on its local variables what the other does on their image.
\<close>

locale body_simulation =
  fixes body :: "nat \<Rightarrow> change \<Rightarrow> 's \<Rightarrow> (sr_err, 's) flow"
    and body' :: "nat \<Rightarrow> change \<Rightarrow> 't \<Rightarrow> (sr_err, 't) flow"
    and abs :: "'s \<Rightarrow> 't"
    and ok :: "change \<Rightarrow> bool"
  assumes body_sim: "ok c \<Longrightarrow> map_flow id abs (body i c s) = body' i c (abs s)"
begin

lemma loop_sim:
  "\<forall>c \<in> set cs. ok c \<Longrightarrow>
     map_flow id abs (foreach_change ev body i cs s) = foreach_change ev body' i cs (abs s)"
proof (induction cs arbitrary: i s)
  case (Cons c cs)
  then have "body' i c (abs s) = map_flow id abs (body i c s)" by (simp add: body_sim)
  with Cons show ?case by (cases "body i c s") (simp_all add: flow_simps)
qed simp

lemma callback_sim:
  assumes "\<forall>c \<in> set cs. ok c"
    and "\<And>s. map_flow id abs (finish s) = finish' (abs s)"
    and "\<And>s. tr' (abs s) = tr s" and "\<And>s. clean' (abs s) = clean s"
  shows "leave_callback tr clean (then_flow (foreach_change ev body i cs s) finish) =
    leave_callback tr' clean' (then_flow (foreach_change ev body' i cs (abs s)) finish')"
proof -
  have flow: "map_flow id abs (then_flow m finish) = then_flow (map_flow id abs m) finish'" for m
    by (cases m) (simp_all add: flow_simps assms(2))
  have leave: "leave_callback tr clean m = leave_callback tr' clean' (map_flow id abs m)" for m
    by (cases m) (simp_all add: flow_simps assms(3,4))
  show ?thesis
    by (simp add: leave flow loop_sim [OF assms(1)])
qed

end

end
