(* ===== verification/Builder_Spec.thy ===== *)
theory Builder_Spec
  imports Sysrepo_Vom
begin

text \<open>
  The contract of an interface builder: both \<open>ietf_interface.cpp\<close> and
  \<open>openconfig_interfaces.cpp\<close> have a class \<open>interface_builder\<close> of their own,
  with the same public operations.  What can be seen of a builder are its name, its type and
  its state; the contract says how the setters change what is seen and what \<open>build\<close>
  and \<open>to_string\<close> make of it.  Each of the two classes is shown to keep the contract
  in its own theory.
\<close>

datatype setting = Name_is string | Type_is string | State_is bool

fun obs_setting :: "setting \<Rightarrow> string \<times> string \<times> bool \<Rightarrow> string \<times> string \<times> bool" where
  "obs_setting (Name_is n) (_, t, b) = (n, t, b)"
| "obs_setting (Type_is u) (n, t, b) = (n, if u = ''iana-if-type:ethernetCsmacd'' then ''ETHERNET'' else t, b)"
| "obs_setting (State_is e) (n, t, _) = (n, t, e)"

fun apply_setting ::
    "(string \<Rightarrow> 'b \<Rightarrow> 'b) \<Rightarrow> (string \<Rightarrow> 'b \<Rightarrow> 'b) \<Rightarrow> (bool \<Rightarrow> 'b \<Rightarrow> 'b) \<Rightarrow> setting \<Rightarrow> 'b \<Rightarrow> 'b" where
  "apply_setting sn st se (Name_is n) b = sn n b"
| "apply_setting sn st se (Type_is t) b = st t b"
| "apply_setting sn st se (State_is e) b = se e b"

fun obs_build :: "string \<times> string \<times> bool \<Rightarrow> itf option" where
  "obs_build (n, t, b) =
     (if n = [] \<or> t = [] then None
      else Some \<lparr>itf_name = n, itf_type = Type_from_string t, itf_admin = Admin_from_int b\<rparr>)"

fun obs_to_string :: "string \<times> string \<times> bool \<Rightarrow> string" where
  "obs_to_string (n, t, b) = n @ '','' @ t @ '','' @ (if b then ''1'' else ''0'')"

locale itf_builder =
  fixes obs :: "'b \<Rightarrow> string \<times> string \<times> bool"
    and fresh :: "bool \<Rightarrow> 'b"
    and build :: "'b \<Rightarrow> itf option"
    and name :: "'b \<Rightarrow> string"
    and to_string :: "'b \<Rightarrow> string"
    and set_name :: "string \<Rightarrow> 'b \<Rightarrow> 'b"
    and set_type :: "string \<Rightarrow> 'b \<Rightarrow> 'b"
    and set_state :: "bool \<Rightarrow> 'b \<Rightarrow> 'b"
  assumes obs_fresh: "obs (fresh j) = ([], [], j)"
    and obs_of_build: "build b = obs_build (obs b)"
    and obs_of_name: "name b = fst (obs b)"
    and obs_of_to_string: "to_string b = obs_to_string (obs b)"
    and obs_set_name: "obs (set_name n b) = obs_setting (Name_is n) (obs b)"
    and obs_set_type: "obs (set_type t b) = obs_setting (Type_is t) (obs b)"
    and obs_set_state: "obs (set_state e b) = obs_setting (State_is e) (obs b)"
begin

text \<open>Whatever is set, in whatever order, is seen as the contract says.\<close>

lemma obs_run:
  "obs (fold (apply_setting set_name set_type set_state) xs b) = fold obs_setting xs (obs b)"
proof (induction xs arbitrary: b)
  case (Cons x xs)
  have "obs (apply_setting set_name set_type set_state x b) = obs_setting x (obs b)"
    by (cases x) (simp_all add: obs_set_name obs_set_type obs_set_state)
  with Cons.IH show ?case by simp
qed simp

lemma build_run:
  "build (fold (apply_setting set_name set_type set_state) xs (fresh j)) =
     obs_build (fold obs_setting xs ([], [], j))"
  by (simp add: obs_of_build obs_run obs_fresh)

lemma to_string_run:
  "to_string (fold (apply_setting set_name set_type set_state) xs (fresh j)) =
     obs_to_string (fold obs_setting xs ([], [], j))"
  by (simp add: obs_of_to_string obs_run obs_fresh)

lemma fold_obs_setting:
  "fold obs_setting xs (n, t, b) =
     (last (n # List.map_filter (\<lambda>x. case x of Name_is m \<Rightarrow> Some m | _ \<Rightarrow> None) xs),
      if Type_is ''iana-if-type:ethernetCsmacd'' \<in> set xs then ''ETHERNET'' else t,
      last (b # List.map_filter (\<lambda>x. case x of State_is e \<Rightarrow> Some e | _ \<Rightarrow> None) xs))"
proof (induction xs arbitrary: n t b)
  case (Cons x xs)
  then show ?case by (cases x) auto
qed simp

text \<open>
  A builder gives an interface exactly when the last name set is not empty and the Ethernet
  type has been set; the name of the interface is then the last name, and its state the last
  state.
\<close>

lemma build_run_Some:
  "build (fold (apply_setting set_name set_type set_state) xs (fresh j)) = Some i \<longleftrightarrow>
     i = \<lparr>itf_name = last ([] # List.map_filter (\<lambda>x. case x of Name_is m \<Rightarrow> Some m | _ \<Rightarrow> None) xs),
          itf_type = Type_from_string ''ETHERNET'',
          itf_admin = Admin_from_int (last (j # List.map_filter (\<lambda>x. case x of State_is e \<Rightarrow> Some e | _ \<Rightarrow> None) xs))\<rparr> \<and>
     itf_name i \<noteq> [] \<and> Type_is ''iana-if-type:ethernetCsmacd'' \<in> set xs"
  unfolding build_run fold_obs_setting by auto

end

end
