(* ===== verification/Ietf_Interface.thy ===== *)
theory Ietf_Interface
  imports Change_Loop Builder_Spec
begin

text \<open>
  \<^verbatim>\<open>plugins/ietf/ietf_interface.cpp\<close>, the configuration of interfaces: the class
  \<open>interface_builder\<close> and \<open>ietf_interface_create_cb\<close>, the callback for changes
  under \<^verbatim>\<open>/ietf-interfaces:interfaces/interface\<close>.
\<close>

section \<open>interface_builder\<close>

record interface_builder =
  b_name :: string
  b_type :: string
  b_state :: bool

text \<open>The constructor does not initialise \<open>m_state\<close>: its value is an argument.\<close>

definition interface_builder_new :: "bool \<Rightarrow> interface_builder" where
  "interface_builder_new junk = \<lparr>b_name = [], b_type = [], b_state = junk\<rparr>"

definition build :: "interface_builder \<Rightarrow> itf option" where
  "build b =
     (if b_name b = [] \<or> b_type b = [] then None
      else Some \<lparr>itf_name = b_name b, itf_type = Type_from_string (b_type b),
                 itf_admin = Admin_from_int (b_state b)\<rparr>)"

definition set_name :: "string \<Rightarrow> interface_builder \<Rightarrow> interface_builder" where
  "set_name n b = b\<lparr>b_name := n\<rparr>"

definition set_type :: "string \<Rightarrow> interface_builder \<Rightarrow> interface_builder" where
  "set_type t b = (if t = ''iana-if-type:ethernetCsmacd'' then b\<lparr>b_type := ''ETHERNET''\<rparr> else b)"

definition set_state :: "bool \<Rightarrow> interface_builder \<Rightarrow> interface_builder" where
  "set_state enable b = b\<lparr>b_state := enable\<rparr>"

definition builder_to_string :: "interface_builder \<Rightarrow> string" where
  "builder_to_string b = b_name b @ '','' @ b_type b @ '','' @ (if b_state b then ''1'' else ''0'')"

definition builder_name :: "interface_builder \<Rightarrow> string" where
  "builder_name b = b_name b"

interpretation ietf_builder: itf_builder
  "\<lambda>b. (b_name b, b_type b, b_state b)" interface_builder_new build builder_name builder_to_string
  set_name set_type set_state
  by unfold_locales
    (simp_all add: interface_builder_new_def build_def builder_name_def builder_to_string_def
      set_name_def set_type_def set_state_def)

text \<open>The class \<open>interface_builder\<close>: after any calls of its setters on a new object,
  \<open>build\<close> gives an interface exactly when the last name set is not empty and the
  Ethernet type has been set at some time; the interface has the last name and the last
  state, and the uninitialised state where none was set.\<close>

theorem ietf_builder_builds:
  "build (fold (apply_setting set_name set_type set_state) xs (interface_builder_new j)) = Some i \<longleftrightarrow>
     i = \<lparr>itf_name = last ([] # List.map_filter (\<lambda>x. case x of Name_is m \<Rightarrow> Some m | _ \<Rightarrow> None) xs),
          itf_type = Type_from_string ''ETHERNET'',
          itf_admin = Admin_from_int (last (j # List.map_filter (\<lambda>x. case x of State_is e \<Rightarrow> Some e | _ \<Rightarrow> None) xs))\<rparr> \<and>
     itf_name i \<noteq> [] \<and> Type_is ''iana-if-type:ethernetCsmacd'' \<in> set xs"
  by (rule ietf_builder.build_run_Some)

section \<open>The callback\<close>

text \<open>
  The local variables.  \<open>create\<close>, \<open>remove\<close>, \<open>modify\<close> and the state in the
  builder are not initialised by the code; what they hold on entry is \<open>create_junk\<close>.
  \<open>icb_vals\<close> tells what \<open>old_val\<close> and \<open>new_val\<close> point to: nothing, or the values
  of the change with that index.
\<close>

record create_junk =
  junk_create :: bool
  junk_remove :: bool
  junk_modify :: bool
  junk_state :: bool

record icb =
  icb_intf :: "itf option"
  icb_builder :: interface_builder
  icb_create :: bool
  icb_remove :: bool
  icb_modify :: bool
  icb_rc :: sr_err
  icb_vals :: "nat option"
  icb_trace :: trace

definition icb_init :: "create_junk \<Rightarrow> trace \<Rightarrow> icb" where
  "icb_init j tr =
     \<lparr>icb_intf = None, icb_builder = interface_builder_new (junk_state j),
      icb_create = junk_create j, icb_remove = junk_remove j, icb_modify = junk_modify j,
      icb_rc = SR_ERR_OK, icb_vals = None, icb_trace = tr\<rparr>"

definition icb_emit :: "effect list \<Rightarrow> icb \<Rightarrow> icb" where
  "icb_emit es s = s\<lparr>icb_trace := icb_trace s @ es\<rparr>"

text \<open>The three cases of the switch.\<close>

definition create_modified :: "env \<Rightarrow> change \<Rightarrow> icb \<Rightarrow> (sr_err, icb) flow" where
  "create_modified E c s =
     need Null_deref (ch_new c) s (\<lambda>new_val.
       if node_name_eq E (v_xpath new_val) ''enabled'' then
         need Null_string (key_value E (v_xpath new_val) ''interface'' ''name'') s (\<lambda>n.
           (case itf_find E (icb_trace s) n of
              None \<Rightarrow> Goto (s\<lparr>icb_intf := None, icb_rc := SR_ERR_OPERATION_FAILED\<rparr>)
            | Some intf \<Rightarrow>
                need Bad_union (bool_val (v_data new_val)) s (\<lambda>b.
                  Next (icb_emit [Itf_set n (Admin_from_int b)]
                    (s\<lparr>icb_intf := Some (intf\<lparr>itf_admin := Admin_from_int b\<rparr>), icb_modify := True\<rparr>)))))
       else Next s)"

definition create_created :: "env \<Rightarrow> change \<Rightarrow> icb \<Rightarrow> (sr_err, icb) flow" where
  "create_created E c s =
     need Null_deref (ch_new c) s (\<lambda>new_val.
       if node_name_eq E (v_xpath new_val) ''name'' then
         need Bad_union (string_val (v_data new_val)) s (\<lambda>n.
           Next (s\<lparr>icb_builder := set_name n (icb_builder s), icb_create := True\<rparr>))
       else if node_name_eq E (v_xpath new_val) ''type'' then
         need Bad_union (string_val (v_data new_val)) s (\<lambda>t.
           Next (s\<lparr>icb_builder := set_type t (icb_builder s)\<rparr>))
       else if node_name_eq E (v_xpath new_val) ''enabled'' then
         need Bad_union (bool_val (v_data new_val)) s (\<lambda>b.
           Next (s\<lparr>icb_builder := set_state b (icb_builder s)\<rparr>))
       else Next s)"

definition create_deleted :: "env \<Rightarrow> change \<Rightarrow> icb \<Rightarrow> (sr_err, icb) flow" where
  "create_deleted E c s =
     need Null_deref (ch_old c) s (\<lambda>old_val.
       if node_name_eq E (v_xpath old_val) ''name'' then
         need Bad_union (string_val (v_data old_val)) s (\<lambda>n.
           Next (s\<lparr>icb_builder := set_name n (icb_builder s), icb_remove := True\<rparr>))
       else Next s)"

text \<open>
  The body of the loop.  The log line reads the xpath of the old value, or of the new one
  when there is no old one.
\<close>

definition create_body :: "env \<Rightarrow> nat \<Rightarrow> change \<Rightarrow> icb \<Rightarrow> (sr_err, icb) flow" where
  "create_body E i c s0 =
     (let s = s0\<lparr>icb_vals := Some i\<rparr> in
      if ch_old c = None \<and> ch_new c = None then Faults Null_deref s
      else then_flow
        (case ch_op c of
           SR_OP_MODIFIED \<Rightarrow> create_modified E c s
         | SR_OP_CREATED \<Rightarrow> create_created E c s
         | SR_OP_DELETED \<Rightarrow> create_deleted E c s
         | SR_OP_MOVED \<Rightarrow> Goto (s\<lparr>icb_rc := SR_ERR_UNSUPPORTED\<rparr>))
        (\<lambda>s. Next (icb_emit (free_vals (icb_vals s)) s)))"

text \<open>What follows the loop.\<close>

definition create_build :: "icb \<Rightarrow> (sr_err, icb) flow" where
  "create_build s =
     (if icb_create s then
        (case build (icb_builder s) of
           None \<Rightarrow> Goto (s\<lparr>icb_intf := None, icb_rc := SR_ERR_INVAL_ARG\<rparr>)
         | Some intf \<Rightarrow> Next (s\<lparr>icb_intf := Some intf\<rparr>))
      else Next s)"

definition create_commit :: "env \<Rightarrow> icb \<Rightarrow> (sr_err, icb) flow" where
  "create_commit E s =
     (if icb_create s \<or> icb_modify s then
        need Null_deref (icb_intf s) s (\<lambda>intf.
          let (r, tr) = call_om_write E (icb_trace s) (itf_key E intf) (Obj_itf intf);
              s' = s\<lparr>icb_trace := tr\<rparr>
          in attempt r s' (\<lambda>rc.
               if rc \<noteq> RC_OK then Goto (s'\<lparr>icb_rc := SR_ERR_OPERATION_FAILED\<rparr>) else Next s'))
      else if icb_remove s then
        let (r, tr) = call_om_remove E (icb_trace s) (builder_name (icb_builder s));
            s' = s\<lparr>icb_trace := tr\<rparr>
        in (case r of Some e \<Rightarrow> Throws e s' | None \<Rightarrow> Next s')
      else Next s)"

definition create_finish :: "env \<Rightarrow> icb \<Rightarrow> (sr_err, icb) flow" where
  "create_finish E s =
     then_flow (create_build s) (\<lambda>s.
       then_flow (create_commit E s) (\<lambda>s. Ret SR_ERR_OK (icb_emit [Free_iter] s)))"

definition icb_cleanup :: "icb \<Rightarrow> sr_err \<times> effect list" where
  "icb_cleanup s = (icb_rc s, free_vals (icb_vals s) @ [Free_iter])"

definition ietf_interface_create_cb ::
    "env \<Rightarrow> sr_session \<Rightarrow> string \<Rightarrow> sr_event \<Rightarrow> create_junk \<Rightarrow> trace \<Rightarrow> sr_err result \<times> trace" where
  "ietf_interface_create_cb E session xpath event junk tr =
     (if event \<noteq> SR_EV_VERIFY then (Returned SR_ERR_OK, tr)
      else if changes_rc E tr xpath \<noteq> SR_ERR_OK then (Returned SR_ERR_OPERATION_FAILED, tr @ [Free_iter])
      else leave_callback icb_trace icb_cleanup
        (then_flow (foreach_change event (create_body E) 0 (s_changes session xpath) (icb_init junk tr))
          (\<lambda>s. create_finish E (s\<lparr>icb_vals := vals_after_loop E event (icb_vals s)\<rparr>))))"

section \<open>What a change asks for\<close>

text \<open>
  The meaning of a change for this callback, read off the change alone; \<open>None\<close> for a
  change without the values its operation promises, or of an unsupported operation.
\<close>

datatype itf_action =
  Act_name string | Act_type string | Act_enabled bool | Act_set string bool
| Act_delete string | Act_skip

definition itf_action_of :: "env \<Rightarrow> change \<Rightarrow> itf_action option" where
  "itf_action_of E c =
     (case ch_op c of
        SR_OP_CREATED \<Rightarrow>
          Option.bind (ch_new c) (\<lambda>v.
            if node_name_eq E (v_xpath v) ''name'' then map_option Act_name (string_val (v_data v))
            else if node_name_eq E (v_xpath v) ''type'' then map_option Act_type (string_val (v_data v))
            else if node_name_eq E (v_xpath v) ''enabled'' then map_option Act_enabled (bool_val (v_data v))
            else Some Act_skip)
      | SR_OP_MODIFIED \<Rightarrow>
          Option.bind (ch_new c) (\<lambda>v.
            if node_name_eq E (v_xpath v) ''enabled'' then
              Option.bind (key_value E (v_xpath v) ''interface'' ''name'') (\<lambda>n.
                map_option (Act_set n) (bool_val (v_data v)))
            else Some Act_skip)
      | SR_OP_DELETED \<Rightarrow>
          Option.bind (ch_old c) (\<lambda>v.
            if node_name_eq E (v_xpath v) ''name'' then map_option Act_delete (string_val (v_data v))
            else Some Act_skip)
      | SR_OP_MOVED \<Rightarrow> None)"

text \<open>The effect of an action that needs no answer of VOM on the local variables.\<close>

fun act_apply :: "itf_action \<Rightarrow> icb \<Rightarrow> icb" where
  "act_apply (Act_name n) s = s\<lparr>icb_builder := set_name n (icb_builder s), icb_create := True\<rparr>"
| "act_apply (Act_type t) s = s\<lparr>icb_builder := set_type t (icb_builder s)\<rparr>"
| "act_apply (Act_enabled b) s = s\<lparr>icb_builder := set_state b (icb_builder s)\<rparr>"
| "act_apply (Act_delete n) s = s\<lparr>icb_builder := set_name n (icb_builder s), icb_remove := True\<rparr>"
| "act_apply (Act_set n b) s = s"
| "act_apply Act_skip s = s"

fun is_creation :: "itf_action option \<Rightarrow> bool" where
  "is_creation (Some (Act_name n)) = True"
| "is_creation (Some (Act_type t)) = True"
| "is_creation (Some (Act_enabled b)) = True"
| "is_creation (Some Act_skip) = True"
| "is_creation _ = False"

fun is_deletion :: "itf_action option \<Rightarrow> bool" where
  "is_deletion (Some (Act_delete n)) = True"
| "is_deletion (Some Act_skip) = True"
| "is_deletion _ = False"

fun is_local :: "itf_action \<Rightarrow> bool" where
  "is_local (Act_set n b) = False"
| "is_local _ = True"

fun act_names :: "itf_action \<Rightarrow> string option" where
  "act_names (Act_name n) = Some n"
| "act_names (Act_delete n) = Some n"
| "act_names _ = None"

fun act_enables :: "itf_action \<Rightarrow> bool option" where
  "act_enables (Act_enabled b) = Some b"
| "act_enables _ = None"

definition actions :: "env \<Rightarrow> change list \<Rightarrow> itf_action list" where
  "actions E cs = map (\<lambda>c. the (itf_action_of E c)) cs"

lemmas create_body_defs =
  create_body_def create_modified_def create_created_def create_deleted_def icb_emit_def free_vals_def

lemma act_apply_frame [simp]:
  "icb_trace (act_apply a s) = icb_trace s"
  "icb_vals (act_apply a s) = icb_vals s"
  "icb_intf (act_apply a s) = icb_intf s"
  "icb_modify (act_apply a s) = icb_modify s"
  "icb_rc (act_apply a s) = icb_rc s"
  "act_apply a (s\<lparr>icb_vals := v\<rparr>) = (act_apply a s)\<lparr>icb_vals := v\<rparr>"
  "act_apply a (s\<lparr>icb_trace := t\<rparr>) = (act_apply a s)\<lparr>icb_trace := t\<rparr>"
  by (cases a; simp)+

lemma fold_act_apply_frame [simp]:
  "icb_trace (fold act_apply as s) = icb_trace s"
  "icb_vals (fold act_apply as s) = icb_vals s"
  "icb_intf (fold act_apply as s) = icb_intf s"
  "icb_modify (fold act_apply as s) = icb_modify s"
  "icb_rc (fold act_apply as s) = icb_rc s"
  by (induction as arbitrary: s) simp_all

lemma fold_act_apply_commute [simp]:
  "fold act_apply as (s\<lparr>icb_vals := v\<rparr>) = (fold act_apply as s)\<lparr>icb_vals := v\<rparr>"
  "fold act_apply as (s\<lparr>icb_trace := t\<rparr>) = (fold act_apply as s)\<lparr>icb_trace := t\<rparr>"
  by (induction as arbitrary: s) simp_all

lemma create_body_action:
  assumes "itf_action_of E c = Some a" and "is_local a"
  shows "create_body E i c s =
    Next ((act_apply a s)\<lparr>icb_vals := Some i, icb_trace := icb_trace s @ [Free_vals i]\<rparr>)"
  using assms
  by (cases "ch_op c")
    (auto simp: itf_action_of_def create_body_defs flow_simps Let_def split: bind_splits if_splits)

lemma create_loop_actions:
  assumes "\<forall>c \<in> set cs. \<exists>a. itf_action_of E c = Some a \<and> is_local a"
  shows "foreach_change SR_EV_VERIFY (create_body E) i cs s =
    Next ((fold act_apply (actions E cs) s)
      \<lparr>icb_vals := (if cs = [] then icb_vals s else Some (i + length cs - 1)),
       icb_trace := icb_trace s @ map Free_vals [i..<i + length cs]\<rparr>)"
  using assms
proof (induction cs arbitrary: i s)
  case Nil
  then show ?case by (simp add: actions_def)
next
  case (Cons c cs)
  then obtain a where a: "itf_action_of E c = Some a" "is_local a" by auto
  have "map Free_vals [i..<i + length (c # cs)] = Free_vals i # map Free_vals [Suc i..<Suc i + length cs]"
    by (simp add: upt_conv_Cons del: upt_Suc)
  with Cons a show ?case
    by (simp add: create_body_action flow_simps actions_def del: upt_Suc)
qed

text \<open>The builder after a batch: the last name, an Ethernet type if one was given, the last state.\<close>

lemma fold_act_apply_builder:
  "b_name (icb_builder (fold act_apply as s)) = last (b_name (icb_builder s) # List.map_filter act_names as)"
  "b_type (icb_builder (fold act_apply as s)) =
     (if Act_type ''iana-if-type:ethernetCsmacd'' \<in> set as then ''ETHERNET'' else b_type (icb_builder s))"
  "b_state (icb_builder (fold act_apply as s)) = last (b_state (icb_builder s) # List.map_filter act_enables as)"
proof (induction as arbitrary: s)
  case (Cons a as)
  {
    case 1 from Cons.IH(1) show ?case by (cases a) (auto simp: set_name_def set_type_def set_state_def)
  next
    case 2 from Cons.IH(2) show ?case by (cases a) (auto simp: set_name_def set_type_def set_state_def)
  next
    case 3 from Cons.IH(3) show ?case by (cases a) (auto simp: set_name_def set_type_def set_state_def)
  }
qed simp_all

lemma fold_act_apply_flags:
  "icb_create (fold act_apply as s) = (icb_create s \<or> (\<exists>n. Act_name n \<in> set as))"
  "icb_remove (fold act_apply as s) = (icb_remove s \<or> (\<exists>n. Act_delete n \<in> set as))"
proof (induction as arbitrary: s)
  case (Cons a as)
  {
    case 1 from Cons.IH(1) show ?case by (cases a) auto
  next
    case 2 from Cons.IH(2) show ?case by (cases a) auto
  }
qed simp_all

lemmas fold_act_apply_simps = fold_act_apply_builder fold_act_apply_flags

lemma is_creation_action:
  "is_creation (itf_action_of E c) \<Longrightarrow> \<exists>a. itf_action_of E c = Some a \<and> is_local a \<and> (\<forall>n. a \<noteq> Act_delete n)"
  by (cases "itf_action_of E c" rule: is_creation.cases) auto

lemma is_deletion_action:
  "is_deletion (itf_action_of E c) \<Longrightarrow> \<exists>a. itf_action_of E c = Some a \<and> is_local a \<and> (\<forall>n. a \<noteq> Act_name n)
     \<and> (\<forall>t. a \<noteq> Act_type t)"
  by (cases "itf_action_of E c" rule: is_deletion.cases) auto

section \<open>The memory of the notification\<close>

text \<open>The loop makes no call that commits anything: it only sets admin states and frees values.\<close>

fun sets_or_frees :: "effect \<Rightarrow> bool" where
  "sets_or_frees (Itf_set n a) = True"
| "sets_or_frees (Free_vals i) = True"
| "sets_or_frees _ = False"

interpretation create_loop: change_body "create_body E" icb_trace icb_vals sets_or_frees for E
proof
  show "\<exists>es. icb_trace (flow_state (create_body E i c s)) = icb_trace s @ es \<and> list_all sets_or_frees es" for i c s
    by (cases "ch_op c")
      (auto simp: create_body_defs flow_simps Let_def split: option.splits flow_splits)
next
  fix i c s t
  assume "create_body E i c s = Next t"
  then show "icb_vals t = Some i \<and> freed_vals (icb_trace t) = freed_vals (icb_trace s) @ [i] \<and>
      iter_frees (icb_trace t) = iter_frees (icb_trace s)"
    by (cases "ch_op c")
      (auto simp: create_body_defs flow_Next_iffs Let_def trace_simps split: if_splits option.splits)
next
  fix i c s t
  assume "create_body E i c s = Goto t"
  then show "icb_vals t = Some i \<and> freed_vals (icb_trace t) = freed_vals (icb_trace s) \<and>
      iter_frees (icb_trace t) = iter_frees (icb_trace s)"
    by (cases "ch_op c")
      (auto simp: create_body_defs flow_simps Let_def trace_simps split: if_splits option.splits flow_splits)
qed

section \<open>Creation and deletion\<close>

text \<open>
  What a batch of creations asks for: the last name and the last state it gives, and an
  Ethernet interface if one of its changes gives that type.
\<close>

definition requested_itf :: "env \<Rightarrow> bool \<Rightarrow> change list \<Rightarrow> itf option" where
  "requested_itf E junk cs =
     (let names = List.map_filter act_names (actions E cs) in
      if last ([] # names) = [] \<or> Act_type ''iana-if-type:ethernetCsmacd'' \<notin> set (actions E cs) then None
      else Some \<lparr>itf_name = last names, itf_type = Type_from_string ''ETHERNET'',
                 itf_admin = Admin_from_int (last (junk # List.map_filter act_enables (actions E cs)))\<rparr>)"

lemma actions_set: "c \<in> set cs \<Longrightarrow> itf_action_of E c = Some a \<Longrightarrow> a \<in> set (actions E cs)"
  by (force simp: actions_def)

lemma actions_setD:
  "a \<in> set (actions E cs) \<Longrightarrow> \<forall>c \<in> set cs. itf_action_of E c \<noteq> None \<Longrightarrow>
     \<exists>c \<in> set cs. itf_action_of E c = Some a"
  by (auto simp: actions_def)

text \<open>The callback on a batch whose changes need no answer of VOM in the loop.\<close>

lemma create_cb_local:
  assumes "changes_rc E tr xpath = SR_ERR_OK"
    and "\<forall>c \<in> set (s_changes session xpath). \<exists>a. itf_action_of E c = Some a \<and> is_local a"
    and "n = length (s_changes session xpath)"
  shows "ietf_interface_create_cb E session xpath SR_EV_VERIFY junk tr =
    leave_callback icb_trace icb_cleanup (create_finish E
      ((fold act_apply (actions E (s_changes session xpath)) (icb_init junk tr))
        \<lparr>icb_trace := loop_trace n tr,
         icb_vals := vals_after_loop E SR_EV_VERIFY (if n = 0 then None else Some (n - 1))\<rparr>))"
  using assms
  by (simp add: ietf_interface_create_cb_def create_loop_actions flow_simps loop_trace_def icb_init_def)

lemma create_batch_run:
  assumes "changes_rc E tr xpath = SR_ERR_OK"
    and "cs = s_changes session xpath" and "n = length cs"
    and "\<forall>c \<in> set cs. is_creation (itf_action_of E c)"
    and "\<exists>m. Act_name m \<in> set (actions E cs)"
  shows "ietf_interface_create_cb E session xpath SR_EV_VERIFY junk tr =
    (case requested_itf E (junk_state junk) cs of
       None \<Rightarrow> (Returned SR_ERR_INVAL_ARG, loop_trace n tr @ cleanup_after E n)
     | Some intf \<Rightarrow>
         (let r = om_write E (loop_trace n tr) (itf_key E intf) (Obj_itf intf);
              tr' = loop_trace n tr @ [Om_write (itf_key E intf) (Obj_itf intf) r]
          in case r of
               Inl e \<Rightarrow> (Raised e, tr')
             | Inr RC_OK \<Rightarrow> (Returned SR_ERR_OK, tr' @ [Free_iter])
             | Inr RC_OTHER \<Rightarrow> (Returned SR_ERR_OPERATION_FAILED, tr' @ cleanup_after E n)))"
proof -
  have local: "\<forall>c \<in> set (s_changes session xpath). \<exists>a. itf_action_of E c = Some a \<and> is_local a"
    using assms(2,4) is_creation_action by blast
  have ne: "List.map_filter act_names (actions E cs) \<noteq> []"
    using assms(5) by (force simp: List.map_filter_def filter_empty_conv)
  note cb = create_cb_local [OF assms(1) local assms(3) [unfolded assms(2)], of junk]
  let ?s = "(fold act_apply (actions E cs) (icb_init junk tr))
        \<lparr>icb_trace := loop_trace n tr,
         icb_vals := vals_after_loop E SR_EV_VERIFY (if n = 0 then None else Some (n - 1))\<rparr>"
  have flags: "icb_create ?s"
    using assms(5) by (simp add: fold_act_apply_simps)
  have built: "build (icb_builder ?s) = requested_itf E (junk_state junk) cs"
    using ne by (auto simp: build_def requested_itf_def fold_act_apply_simps icb_init_def
        interface_builder_new_def Let_def)
  show ?thesis
    unfolding cb assms(2) [symmetric] using flags built
    by (auto simp: create_finish_def create_build_def create_commit_def call_om_write_def Let_def
        flow_simps icb_cleanup_def cleanup_after_def icb_emit_def
        split: option.splits sum.splits rc_t.splits)
qed

text \<open>C1: A batch of creations that creates a name, on every branch: when the last name is empty or no
  Ethernet type is given the callback
  answers \<open>SR_ERR_INVAL_ARG\<close> and VOM is not called; otherwise exactly one object is
  written, the interface with the last name and the last state of the batch, under its own
  key, and the result of the write decides the result of the callback.\<close>

theorem ietf_create_batch:
  assumes "changes_rc E tr xpath = SR_ERR_OK"
    and "cs = s_changes session xpath" and "n = length cs"
    and "\<forall>c \<in> set cs. is_creation (itf_action_of E c)"
    and "\<exists>m. Act_name m \<in> set (actions E cs)"
  shows "ietf_interface_create_cb E session xpath SR_EV_VERIFY junk tr =
    (case requested_itf E (junk_state junk) cs of
       None \<Rightarrow> (Returned SR_ERR_INVAL_ARG, loop_trace n tr @ cleanup_after E n)
     | Some intf \<Rightarrow>
         (let r = om_write E (loop_trace n tr) (itf_key E intf) (Obj_itf intf);
              tr' = loop_trace n tr @ [Om_write (itf_key E intf) (Obj_itf intf) r]
          in case r of
               Inl e \<Rightarrow> (Raised e, tr')
             | Inr RC_OK \<Rightarrow> (Returned SR_ERR_OK, tr' @ [Free_iter])
             | Inr RC_OTHER \<Rightarrow> (Returned SR_ERR_OPERATION_FAILED, tr' @ cleanup_after E n)))"
  using assms by (rule create_batch_run)

definition no_junk :: create_junk where
  "no_junk = \<lparr>junk_create = False, junk_remove = False, junk_modify = False, junk_state = False\<rparr>"

theorem ietf_create_batch_witness:
  "ietf_interface_create_cb sample_env (sample_session (sample_create_itf ''host-vpp1'')) ''/x'' SR_EV_VERIFY
     no_junk [] =
   (Returned SR_ERR_OK,
    [Free_vals 0, Free_vals 1, Free_vals 2,
     Om_write ''host-vpp1''
       (Obj_itf \<lparr>itf_name = ''host-vpp1'', itf_type = Type_from_string ''ETHERNET'',
                 itf_admin = Admin_from_int True\<rparr>) (Inr RC_OK), Free_iter])"
proof -
  let ?cs = "sample_create_itf ''host-vpp1''"
  have acts: "actions sample_env ?cs =
      [Act_name ''host-vpp1'', Act_type ''iana-if-type:ethernetCsmacd'', Act_enabled True]"
    by (simp add: actions_def itf_action_of_def sample_simps)
  have creations: "\<forall>c \<in> set ?cs. is_creation (itf_action_of sample_env c)"
    by (simp add: itf_action_of_def sample_simps)
  have "\<exists>m. Act_name m \<in> set (actions sample_env ?cs)" by (simp add: acts)
  from ietf_create_batch [OF _ _ refl creations this, of "[]" "''/x''" "sample_session ?cs" no_junk]
  show ?thesis
    by (simp add: acts requested_itf_def loop_trace_def) (simp add: sample_create_itf_def)
qed

lemma delete_batch_run:
  assumes "changes_rc E tr xpath = SR_ERR_OK"
    and "cs = s_changes session xpath" and "n = length cs"
    and "\<forall>c \<in> set cs. is_deletion (itf_action_of E c)"
    and "\<exists>m. Act_delete m \<in> set (actions E cs)"
  shows "ietf_interface_create_cb E session xpath SR_EV_VERIFY junk tr =
    (if junk_create junk then (Returned SR_ERR_INVAL_ARG, loop_trace n tr @ cleanup_after E n)
     else if junk_modify junk then (Crashed Null_deref, loop_trace n tr)
     else
       (let k = last (List.map_filter act_names (actions E cs));
            r = om_remove E (loop_trace n tr) k;
            tr' = loop_trace n tr @ [Om_remove k r]
        in case r of
             Some e \<Rightarrow> (Raised e, tr')
           | None \<Rightarrow> (Returned SR_ERR_OK, tr' @ [Free_iter])))"
proof -
  have local: "\<forall>c \<in> set (s_changes session xpath). \<exists>a. itf_action_of E c = Some a \<and> is_local a"
    using assms(2,4) is_deletion_action by blast
  have ne: "List.map_filter act_names (actions E cs) \<noteq> []"
    using assms(5) by (force simp: List.map_filter_def filter_empty_conv)
  have no_create: "Act_name m \<notin> set (actions E cs)" "Act_type t \<notin> set (actions E cs)" for m t
    using assms(4) is_deletion_action by (fastforce simp: actions_def)+
  note cb = create_cb_local [OF assms(1) local assms(3) [unfolded assms(2)], of junk]
  let ?s = "(fold act_apply (actions E cs) (icb_init junk tr))
        \<lparr>icb_trace := loop_trace n tr,
         icb_vals := vals_after_loop E SR_EV_VERIFY (if n = 0 then None else Some (n - 1))\<rparr>"
  have flags: "icb_create ?s = junk_create junk" "icb_modify ?s = junk_modify junk" "icb_remove ?s"
    "icb_intf ?s = None"
    using assms(5) no_create by (auto simp: fold_act_apply_simps icb_init_def)
  have built: "build (icb_builder ?s) = None" "b_name (icb_builder ?s) = last (List.map_filter act_names (actions E cs))"
    using ne no_create by (auto simp: build_def fold_act_apply_simps icb_init_def interface_builder_new_def)
  show ?thesis
    unfolding cb assms(2) [symmetric] using flags built
    by (auto simp: create_finish_def create_build_def create_commit_def call_om_remove_def builder_name_def Let_def
        flow_simps icb_cleanup_def cleanup_after_def icb_emit_def
        split: option.splits)
qed

text \<open>C2: A batch of deletions, on every branch.  With flags that happen to be clear on entry exactly
  one interface is removed, the last one of the batch, under its name.  The result is not
  that of the batch alone, though: an uninitialised \<open>create\<close> that happens to be set
  turns the batch into \<open>SR_ERR_INVAL_ARG\<close> without any call, an uninitialised
  \<open>modify\<close> into a use of the null pointer.\<close>

theorem ietf_delete_batch:
  assumes "changes_rc E tr xpath = SR_ERR_OK"
    and "cs = s_changes session xpath" and "n = length cs"
    and "\<forall>c \<in> set cs. is_deletion (itf_action_of E c)"
    and "\<exists>m. Act_delete m \<in> set (actions E cs)"
  shows "ietf_interface_create_cb E session xpath SR_EV_VERIFY junk tr =
    (if junk_create junk then (Returned SR_ERR_INVAL_ARG, loop_trace n tr @ cleanup_after E n)
     else if junk_modify junk then (Crashed Null_deref, loop_trace n tr)
     else
       (let k = last (List.map_filter act_names (actions E cs));
            r = om_remove E (loop_trace n tr) k;
            tr' = loop_trace n tr @ [Om_remove k r]
        in case r of
             Some e \<Rightarrow> (Raised e, tr')
           | None \<Rightarrow> (Returned SR_ERR_OK, tr' @ [Free_iter])))"
  using assms by (rule delete_batch_run)

theorem ietf_delete_batch_witness:
  "ietf_interface_create_cb sample_env
     (sample_session [sample_deleted (sample_leaf ''eth0'' ''name'') (String_val ''eth0'')]) ''/x'' SR_EV_VERIFY
     no_junk [] =
   (Returned SR_ERR_OK, [Free_vals 0, Om_remove ''eth0'' None, Free_iter]) \<and>
   ietf_interface_create_cb sample_env
     (sample_session [sample_deleted (sample_leaf ''eth0'' ''name'') (String_val ''eth0'')]) ''/x'' SR_EV_VERIFY
     (no_junk\<lparr>junk_create := True\<rparr>) [] =
   (Returned SR_ERR_INVAL_ARG, [Free_vals 0, Free_iter])"
proof -
  let ?cs = "[sample_deleted (sample_leaf ''eth0'' ''name'') (String_val ''eth0'')]"
  have acts: "actions sample_env ?cs = [Act_delete ''eth0'']"
    by (simp add: actions_def itf_action_of_def sample_simps)
  have deletions: "\<forall>c \<in> set ?cs. is_deletion (itf_action_of sample_env c)"
    by (simp add: itf_action_of_def sample_simps)
  have "\<exists>m. Act_delete m \<in> set (actions sample_env ?cs)" by (simp add: acts)
  note del = ietf_delete_batch [OF _ _ refl deletions this, of "[]" "''/x''" "sample_session ?cs"]
  from del [of no_junk] del [of "no_junk\<lparr>junk_create := True\<rparr>"] show ?thesis
    by (simp add: acts loop_trace_def no_junk_def cleanup_after_def vals_after_loop_def free_vals_def)
qed

section \<open>Modification\<close>

fun is_modification :: "itf_action option \<Rightarrow> bool" where
  "is_modification (Some (Act_set n b)) = True"
| "is_modification (Some Act_skip) = True"
| "is_modification _ = False"

text \<open>The calls of a loop over modifications, from the index of the first change on.\<close>

fun mod_effects :: "nat \<Rightarrow> itf_action list \<Rightarrow> effect list" where
  "mod_effects i [] = []"
| "mod_effects i (a # as) =
     (case a of Act_set n b \<Rightarrow> [Itf_set n (Admin_from_int b)] | _ \<Rightarrow> []) @ Free_vals i # mod_effects (Suc i) as"

lemma mod_effects_append: "mod_effects i (as @ bs) = mod_effects i as @ mod_effects (i + length as) bs"
  by (induction as arbitrary: i) auto

lemma length_actions [simp]: "length (actions E cs) = length cs"
  by (simp add: actions_def)

lemma actions_append [simp]: "actions E (xs @ ys) = actions E xs @ actions E ys"
  by (simp add: actions_def)

lemma create_body_set:
  assumes "itf_action_of E c = Some (Act_set n b)" and "itf_find E (icb_trace s) n = Some f"
  shows "create_body E i c s =
    Next (s\<lparr>icb_intf := Some (f\<lparr>itf_admin := Admin_from_int b\<rparr>), icb_modify := True, icb_vals := Some i,
            icb_trace := icb_trace s @ [Itf_set n (Admin_from_int b), Free_vals i]\<rparr>)"
  using assms
  by (cases "ch_op c")
    (auto simp: itf_action_of_def create_body_defs flow_simps Let_def split: bind_splits if_splits)

lemma create_body_set_unknown:
  assumes "itf_action_of E c = Some (Act_set n b)" and "itf_find E (icb_trace s) n = None"
  shows "create_body E i c s =
    Goto (s\<lparr>icb_vals := Some i, icb_intf := None, icb_rc := SR_ERR_OPERATION_FAILED\<rparr>)"
  using assms
  by (cases "ch_op c")
    (auto simp: itf_action_of_def create_body_defs flow_simps Let_def split: bind_splits if_splits)

lemma create_body_skip:
  assumes "itf_action_of E c = Some Act_skip"
  shows "create_body E i c s = Next (s\<lparr>icb_vals := Some i, icb_trace := icb_trace s @ [Free_vals i]\<rparr>)"
  using create_body_action [OF assms] by simp

lemma is_modification_cases:
  assumes "is_modification (itf_action_of E c)"
  obtains n b where "itf_action_of E c = Some (Act_set n b)" | "itf_action_of E c = Some Act_skip"
  using assms by (cases "itf_action_of E c" rule: is_modification.cases) auto

lemma create_loop_modifications:
  assumes "\<forall>c \<in> set cs. is_modification (itf_action_of E c)"
    and "\<forall>n b. Act_set n b \<in> set (actions E cs) \<longrightarrow> (\<forall>t. itf_find E t n \<noteq> None)"
  shows "\<exists>f m. foreach_change SR_EV_VERIFY (create_body E) i cs s =
      Next (s\<lparr>icb_intf := f, icb_modify := m,
        icb_vals := (if cs = [] then icb_vals s else Some (i + length cs - 1)),
        icb_trace := icb_trace s @ mod_effects i (actions E cs)\<rparr>) \<and>
      ((\<forall>n b. Act_set n b \<notin> set (actions E cs)) \<longrightarrow> f = icb_intf s \<and> m = icb_modify s)"
  using assms
proof (induction cs arbitrary: i s)
  case Nil
  then show ?case by (auto simp: actions_def)
next
  case (Cons c cs)
  have IH: "\<exists>f m. foreach_change SR_EV_VERIFY (create_body E) (Suc i) cs u =
      Next (u\<lparr>icb_intf := f, icb_modify := m,
        icb_vals := (if cs = [] then icb_vals u else Some (Suc i + length cs - 1)),
        icb_trace := icb_trace u @ mod_effects (Suc i) (actions E cs)\<rparr>) \<and>
      ((\<forall>n b. Act_set n b \<notin> set (actions E cs)) \<longrightarrow> f = icb_intf u \<and> m = icb_modify u)" for u
    using Cons.prems by (intro Cons.IH) (auto simp: actions_def)
  from Cons.prems(1) have "is_modification (itf_action_of E c)" by simp
  then show ?case
  proof (cases rule: is_modification_cases)
    case (1 n b)
    then have "Act_set n b \<in> set (actions E (c # cs))" by (simp add: actions_def)
    with Cons.prems(2) obtain f where f: "itf_find E (icb_trace s) n = Some f" by blast
    let ?u = "s\<lparr>icb_intf := Some (f\<lparr>itf_admin := Admin_from_int b\<rparr>), icb_modify := True, icb_vals := Some i,
            icb_trace := icb_trace s @ [Itf_set n (Admin_from_int b), Free_vals i]\<rparr>"
    from IH [of ?u] obtain g k where "foreach_change SR_EV_VERIFY (create_body E) (Suc i) cs ?u =
      Next (?u\<lparr>icb_intf := g, icb_modify := k,
        icb_vals := (if cs = [] then icb_vals ?u else Some (Suc i + length cs - 1)),
        icb_trace := icb_trace ?u @ mod_effects (Suc i) (actions E cs)\<rparr>)" by blast
    with create_body_set [OF 1 f] 1 show ?thesis
      by (intro exI [of _ g] exI [of _ k]) (auto simp: flow_simps actions_def)
  next
    case 2
    let ?u = "s\<lparr>icb_vals := Some i, icb_trace := icb_trace s @ [Free_vals i]\<rparr>"
    from IH [of ?u] obtain g k where "foreach_change SR_EV_VERIFY (create_body E) (Suc i) cs ?u =
      Next (?u\<lparr>icb_intf := g, icb_modify := k,
        icb_vals := (if cs = [] then icb_vals ?u else Some (Suc i + length cs - 1)),
        icb_trace := icb_trace ?u @ mod_effects (Suc i) (actions E cs)\<rparr>)"
      "(\<forall>n b. Act_set n b \<notin> set (actions E cs)) \<longrightarrow> g = icb_intf ?u \<and> k = icb_modify ?u" by blast
    with create_body_skip [OF 2] 2 show ?thesis
      by (intro exI [of _ g] exI [of _ k]) (auto simp: flow_simps actions_def)
  qed
qed

lemma modify_batch_run:
  assumes "changes_rc E tr xpath = SR_ERR_OK"
    and "s_changes session xpath = pre @ c # post" and "m = length (pre @ c # post)"
    and "\<forall>c \<in> set pre. is_modification (itf_action_of E c)"
    and "itf_action_of E c = Some (Act_set n b)"
    and "\<forall>c \<in> set post. itf_action_of E c = Some Act_skip"
    and "\<forall>n b. Act_set n b \<in> set (actions E pre) \<longrightarrow> (\<forall>t. itf_find E t n \<noteq> None)"
    and "itf_find E (tr @ mod_effects 0 (actions E pre)) n = Some f"
    and "t = tr @ mod_effects 0 (actions E (pre @ c # post))"
    and "intf = f\<lparr>itf_admin := Admin_from_int b\<rparr>"
  shows "ietf_interface_create_cb E session xpath SR_EV_VERIFY junk tr =
    (if junk_create junk then (Returned SR_ERR_INVAL_ARG, t @ cleanup_after E m)
     else
       (let r = om_write E t (itf_key E intf) (Obj_itf intf);
            tr' = t @ [Om_write (itf_key E intf) (Obj_itf intf) r]
        in case r of
             Inl e \<Rightarrow> (Raised e, tr')
           | Inr RC_OK \<Rightarrow> (Returned SR_ERR_OK, tr' @ [Free_iter])
           | Inr RC_OTHER \<Rightarrow> (Returned SR_ERR_OPERATION_FAILED, tr' @ cleanup_after E m)))"
proof -
  let ?s = "icb_init junk tr"
  from create_loop_modifications [OF assms(4,7), of 0 ?s] obtain g k where
    pre: "foreach_change SR_EV_VERIFY (create_body E) 0 pre ?s =
      Next (?s\<lparr>icb_intf := g, icb_modify := k,
        icb_vals := (if pre = [] then icb_vals ?s else Some (0 + length pre - 1)),
        icb_trace := icb_trace ?s @ mod_effects 0 (actions E pre)\<rparr>)"
    by blast
  let ?u = "?s\<lparr>icb_intf := g, icb_modify := k,
        icb_vals := (if pre = [] then icb_vals ?s else Some (0 + length pre - 1)),
        icb_trace := icb_trace ?s @ mod_effects 0 (actions E pre)\<rparr>"
  let ?v = "?u\<lparr>icb_intf := Some intf, icb_modify := True, icb_vals := Some (length pre),
        icb_trace := tr @ mod_effects 0 (actions E pre) @ [Itf_set n (Admin_from_int b), Free_vals (length pre)]\<rparr>"
  have tr: "icb_trace ?s = tr" by (simp add: icb_init_def)
  have c: "create_body E (length pre) c ?u = Next ?v"
    using create_body_set [OF assms(5), of ?u f "length pre"] assms(8,10) tr by simp
  have skips: "\<forall>c \<in> set post. is_modification (itf_action_of E c)"
    "Act_set n' b' \<notin> set (actions E post)" for n' b'
    using assms(6) by (auto simp: actions_def)
  from create_loop_modifications [OF skips(1), of "Suc (length pre)" ?v] skips(2) have
    post: "foreach_change SR_EV_VERIFY (create_body E) (Suc (length pre)) post ?v =
      Next (?v\<lparr>icb_vals := Some (m - 1), icb_trace := t\<rparr>)"
    using assms(3,5,9) by (auto simp: mod_effects_append actions_def)
  have loop: "foreach_change SR_EV_VERIFY (create_body E) 0 (s_changes session xpath) ?s =
      Next (?v\<lparr>icb_vals := Some (m - 1), icb_trace := t\<rparr>)"
    unfolding assms(2) using pre c post by (simp add: foreach_change_append flow_simps)
  have m: "m \<noteq> 0" using assms(3) by simp
  show ?thesis
    using loop assms(1) m
    by (auto simp: ietf_interface_create_cb_def flow_simps create_finish_def create_build_def
        create_commit_def call_om_write_def Let_def icb_init_def interface_builder_new_def build_def
        icb_cleanup_def cleanup_after_def icb_emit_def split: sum.splits rc_t.splits)
qed

text \<open>C3: A batch of modifications whose interfaces VOM all knows: the admin state is set on every
  one of them, in order, but only the object of the last one is written, whatever the others
  were.  An uninitialised \<open>create\<close> that happens to be set prevents that write as well.\<close>

theorem ietf_modify_batch:
  assumes "changes_rc E tr xpath = SR_ERR_OK"
    and "s_changes session xpath = pre @ c # post" and "m = length (pre @ c # post)"
    and "\<forall>c \<in> set pre. is_modification (itf_action_of E c)"
    and "itf_action_of E c = Some (Act_set n b)"
    and "\<forall>c \<in> set post. itf_action_of E c = Some Act_skip"
    and "\<forall>n b. Act_set n b \<in> set (actions E pre) \<longrightarrow> (\<forall>t. itf_find E t n \<noteq> None)"
    and "itf_find E (tr @ mod_effects 0 (actions E pre)) n = Some f"
    and "t = tr @ mod_effects 0 (actions E (pre @ c # post))"
    and "intf = f\<lparr>itf_admin := Admin_from_int b\<rparr>"
  shows "ietf_interface_create_cb E session xpath SR_EV_VERIFY junk tr =
    (if junk_create junk then (Returned SR_ERR_INVAL_ARG, t @ cleanup_after E m)
     else
       (let r = om_write E t (itf_key E intf) (Obj_itf intf);
            tr' = t @ [Om_write (itf_key E intf) (Obj_itf intf) r]
        in case r of
             Inl e \<Rightarrow> (Raised e, tr')
           | Inr RC_OK \<Rightarrow> (Returned SR_ERR_OK, tr' @ [Free_iter])
           | Inr RC_OTHER \<Rightarrow> (Returned SR_ERR_OPERATION_FAILED, tr' @ cleanup_after E m)))"
  using assms by (rule modify_batch_run)

theorem ietf_modify_batch_witness:
  "ietf_interface_create_cb sample_known_env
     (sample_session
       [sample_modified (sample_leaf ''eth0'' ''enabled'') (Bool_val True) (Bool_val False),
        sample_modified (sample_leaf ''eth1'' ''enabled'') (Bool_val True) (Bool_val False)]) ''/x'' SR_EV_VERIFY
     no_junk [] =
   (Returned SR_ERR_OK,
    [Itf_set ''eth0'' (Admin_from_int False), Free_vals 0,
     Itf_set ''eth1'' (Admin_from_int False), Free_vals 1,
     Om_write ''eth1''
       (Obj_itf \<lparr>itf_name = ''eth1'', itf_type = Type_from_string ''ETHERNET'',
                 itf_admin = Admin_from_int False\<rparr>) (Inr RC_OK), Free_iter])"
proof -
  let ?c = "sample_modified (sample_leaf ''eth0'' ''enabled'') (Bool_val True) (Bool_val False)"
  let ?d = "sample_modified (sample_leaf ''eth1'' ''enabled'') (Bool_val True) (Bool_val False)"
  have acts: "itf_action_of sample_known_env ?c = Some (Act_set ''eth0'' False)"
    "itf_action_of sample_known_env ?d = Some (Act_set ''eth1'' False)"
    by (simp_all add: itf_action_of_def sample_simps)
  from acts(1) have pre: "\<forall>c \<in> set [?c]. is_modification (itf_action_of sample_known_env c)" by simp
  have known: "\<forall>n b. Act_set n b \<in> set (actions sample_known_env [?c]) \<longrightarrow>
      (\<forall>t. itf_find sample_known_env t n \<noteq> None)"
    by simp
  have "itf_find sample_known_env ([] @ mod_effects 0 (actions sample_known_env [?c])) ''eth1'' = Some
     \<lparr>itf_name = ''eth1'', itf_type = Type_from_string ''ETHERNET'', itf_admin = Admin_from_int True\<rparr>"
    by simp
  from ietf_modify_batch [OF _ _ refl pre acts(2) _ known this refl refl, of "''/x''" "sample_session [?c, ?d]" "[]" no_junk]
  show ?thesis
    by (simp add: no_junk_def actions_def acts)
qed

section \<open>Every run\<close>

interpretation create_callback: config_callback
  "create_body E" icb_trace icb_vals sets_or_frees "\<lambda>v s. s\<lparr>icb_vals := v\<rparr>" "create_finish E" icb_cleanup for E
proof
  show "create_body E i c s \<noteq> Ret r t" for i c s r t
    by (cases "ch_op c")
      (auto simp: create_body_defs flow_simps Let_def split: option.splits flow_splits)
  show "create_finish E s \<noteq> Next t" for s t
    by (auto simp: create_finish_def then_flow_Next_iff)
  show "freed_vals (icb_trace t) = freed_vals (icb_trace s) \<and>
      iter_frees (icb_trace t) = Suc (iter_frees (icb_trace s))"
    if "create_finish E s = Ret r t" for s r t
    using that
    by (auto simp: create_finish_def create_build_def create_commit_def call_om_write_def call_om_remove_def
        icb_emit_def flow_simps Let_def trace_simps split: option.splits if_splits flow_splits)
  show "icb_vals t = icb_vals s \<and> freed_vals (icb_trace t) = freed_vals (icb_trace s) \<and>
      iter_frees (icb_trace t) = iter_frees (icb_trace s)"
    if "create_finish E s = Goto t" for s t
    using that
    by (auto simp: create_finish_def create_build_def create_commit_def call_om_write_def call_om_remove_def
        flow_simps Let_def trace_simps split: option.splits if_splits flow_splits)
qed (simp_all add: icb_cleanup_def)

text \<open>
  A change that stops the loop after the calls in a trace: one that is moved, or one that sets
  the state of an interface VOM does not know then.
\<close>

definition create_stops :: "env \<Rightarrow> trace \<Rightarrow> change \<Rightarrow> bool" where
  "create_stops E tr c =
     (case ch_op c of
        SR_OP_MOVED \<Rightarrow> True
      | SR_OP_MODIFIED \<Rightarrow>
          (case ch_new c of
             None \<Rightarrow> False
           | Some v \<Rightarrow> node_name_eq E (v_xpath v) ''enabled'' \<and>
               (case key_value E (v_xpath v) ''interface'' ''name'' of
                  None \<Rightarrow> False
                | Some n \<Rightarrow> itf_find E tr n = None))
      | _ \<Rightarrow> False)"

text \<open>The index of the first change that stops the loop; the changes before it set states and are freed.\<close>

fun first_stop :: "env \<Rightarrow> trace \<Rightarrow> nat \<Rightarrow> change list \<Rightarrow> nat option" where
  "first_stop E tr i [] = None"
| "first_stop E tr i (c # cs) =
     (if create_stops E tr c then Some i
      else first_stop E (tr @ mod_effects i (actions E [c])) (Suc i) cs)"

lemma create_stops_action:
  "itf_action_of E c = Some (Act_set n b) \<Longrightarrow> create_stops E tr c \<longleftrightarrow> itf_find E tr n = None"
  "itf_action_of E c = Some a \<Longrightarrow> is_local a \<Longrightarrow> \<not> create_stops E tr c"
  by (cases "ch_op c"; auto simp: create_stops_def itf_action_of_def split: if_splits bind_splits)+

lemma create_body_undefined: "itf_action_of E c = None \<Longrightarrow> create_body E i c s \<noteq> Next t"
  by (cases "ch_op c")
    (auto simp: itf_action_of_def create_body_defs flow_Next_iffs Let_def split: if_splits option.splits bind_splits)

lemma create_body_goes_on:
  assumes "create_body E i c s = Next t"
  shows "\<not> create_stops E (icb_trace s) c \<and> icb_trace t = icb_trace s @ mod_effects i (actions E [c])"
proof (cases "itf_action_of E c")
  case None
  with assms create_body_undefined show ?thesis by blast
next
  case (Some a)
  show ?thesis
  proof (cases "is_local a")
    case True
    then have "mod_effects i (actions E [c]) = [Free_vals i]"
      using Some by (cases a) (simp_all add: actions_def)
    with True Some assms show ?thesis
      by (auto simp: create_body_action create_stops_action(2))
  next
    case False
    then obtain n b where a: "a = Act_set n b" by (cases a) auto
    show ?thesis
    proof (cases "itf_find E (icb_trace s) n")
      case None
      with Some a assms show ?thesis by (simp add: create_body_set_unknown)
    next
      case (Some f)
      with \<open>itf_action_of E c = Some a\<close> a assms show ?thesis
        by (auto simp: create_body_set create_stops_action(1) actions_def)
    qed
  qed
qed

lemma create_body_stops:
  assumes "create_body E i c s = Goto t"
  shows "create_stops E (icb_trace s) c \<and> icb_rc t \<noteq> SR_ERR_OK"
  using assms
  by (cases "ch_op c")
    (auto simp: create_body_defs create_stops_def flow_simps Let_def split: if_splits option.splits flow_splits)

lemma create_loop_first_stop:
  "foreach_change SR_EV_VERIFY (create_body E) i cs s = Next t \<Longrightarrow> first_stop E (icb_trace s) i cs = None"
  "foreach_change SR_EV_VERIFY (create_body E) i cs s = Goto t \<Longrightarrow>
     first_stop E (icb_trace s) i cs = icb_vals t \<and> icb_vals t \<noteq> None \<and> icb_rc t \<noteq> SR_ERR_OK"
proof (induction cs arbitrary: i s)
  case (Cons c cs)
  {
    case 1
    then obtain u where "create_body E i c s = Next u"
      "foreach_change SR_EV_VERIFY (create_body E) (Suc i) cs u = Next t"
      by (auto simp: then_flow_Next_iff)
    with create_body_goes_on [of E i c s u] Cons.IH(1) [of "Suc i" u] show ?case by simp
  next
    case 2
    show ?case
    proof (cases "create_body E i c s")
      case (Next u)
      with 2 create_body_goes_on [OF Next] Cons.IH(2) [of "Suc i" u] show ?thesis
        by (simp add: flow_simps)
    next
      case (Goto u)
      with 2 create_body_stops [OF Goto] create_loop.body_Goto [OF Goto] show ?thesis
        by (simp add: flow_simps)
    qed (use 2 in \<open>auto simp: flow_simps\<close>)
  }
qed simp_all

lemma create_finish_ends:
  "create_finish E s = Ret r t \<Longrightarrow> r = SR_ERR_OK"
  "create_finish E s = Goto t \<Longrightarrow> icb_rc t \<noteq> SR_ERR_OK"
  by (auto simp: create_finish_def create_build_def create_commit_def call_om_write_def call_om_remove_def
      flow_simps Let_def split: option.splits if_splits flow_splits)

text \<open>C22: Memory: whenever the callback returns from a verification it has given back the iterator
  once, and the values of every change it looked at, in order: up to and with the change that
  stopped it, if one did, and of all changes otherwise.  Each is given back once, unless the
  library leaves the pointers of the last change in place at the end of the iteration and
  the callback fails after the loop, which gives these back twice.\<close>

theorem ietf_create_frees:
  assumes "ietf_interface_create_cb E session xpath SR_EV_VERIFY junk tr = (Returned r, t)"
    and "changes_rc E tr xpath = SR_ERR_OK" and "cs = s_changes session xpath"
  shows "iter_frees t = Suc (iter_frees tr) \<and>
    (case first_stop E tr 0 cs of
       Some j \<Rightarrow> r \<noteq> SR_ERR_OK \<and> freed_vals t = freed_vals tr @ [0..<Suc j]
     | None \<Rightarrow> freed_vals t = freed_vals tr @ [0..<length cs] @
         (if r = SR_ERR_OK \<or> next_nulls E \<or> cs = [] then [] else [length cs - 1]))"
proof -
  let ?s = "icb_init junk tr"
  have init: "icb_trace ?s = tr" "icb_vals ?s = None" by (simp_all add: icb_init_def)
  from assms have "leave_callback icb_trace icb_cleanup
      (then_flow (foreach_change SR_EV_VERIFY (create_body E) 0 cs ?s)
        (\<lambda>s. create_finish E (s\<lparr>icb_vals := vals_after_loop E SR_EV_VERIFY (icb_vals s)\<rparr>))) = (Returned r, t)"
    by (simp add: ietf_interface_create_cb_def)
  note ends = create_callback.callback_frees [OF this _ init(2)]
  have verify: "SR_EV_VERIFY \<noteq> SR_EV_ABORT" by simp
  show ?thesis
  proof (cases rule: ends [OF verify, case_names stopped finished failed])
    case (stopped u j)
    with create_loop_first_stop(2) [OF stopped(1)] show ?thesis by (simp add: init icb_cleanup_def)
  next
    case (finished u v)
    with create_loop_first_stop(1) [OF finished(1)] create_finish_ends(1) [OF finished(2)] show ?thesis
      by (simp add: init)
  next
    case (failed u v)
    with create_loop_first_stop(1) [OF failed(1)] create_finish_ends(2) [OF failed(2)] show ?thesis
      by (simp add: init icb_cleanup_def)
  qed
qed

text \<open>One batch that is stopped by its second change, and one that fails after the loop.\<close>

theorem ietf_create_frees_witness:
  "(\<exists>t. ietf_interface_create_cb sample_env
       (sample_session [sample_created (sample_leaf ''eth0'' ''name'') (String_val ''eth0''),
          sample_modified (sample_leaf ''eth1'' ''enabled'') (Bool_val True) (Bool_val False),
          sample_created (sample_leaf ''eth0'' ''enabled'') (Bool_val True)])
       ''/x'' SR_EV_VERIFY no_junk [] = (Returned SR_ERR_OPERATION_FAILED, t) \<and>
     freed_vals t = [0, 1] \<and> iter_frees t = 1) \<and>
   (\<exists>t. ietf_interface_create_cb (sample_env\<lparr>next_nulls := False\<rparr>)
       (sample_session [sample_created (sample_leaf ''eth0'' ''name'') (String_val ''eth0'')])
       ''/x'' SR_EV_VERIFY no_junk [] = (Returned SR_ERR_INVAL_ARG, t) \<and>
     freed_vals t = [0, 0] \<and> iter_frees t = 1)"
proof
  let ?cs = "[sample_created (sample_leaf ''eth0'' ''name'') (String_val ''eth0''),
    sample_modified (sample_leaf ''eth1'' ''enabled'') (Bool_val True) (Bool_val False),
    sample_created (sample_leaf ''eth0'' ''enabled'') (Bool_val True)]"
  note defs = ietf_interface_create_cb_def create_body_defs sample_simps flow_simps icb_init_def
    interface_builder_new_def no_junk_def create_finish_def create_build_def build_def set_name_def
    icb_cleanup_def vals_after_loop_def
  have run: "\<exists>t. ietf_interface_create_cb sample_env (sample_session ?cs) ''/x'' SR_EV_VERIFY no_junk [] =
      (Returned SR_ERR_OPERATION_FAILED, t)"
    by (simp add: defs sample_find_def)
  have stop: "first_stop sample_env [] 0 ?cs = Some 1"
    by (simp add: create_stops_def actions_def itf_action_of_def sample_simps sample_find_def)
  from run obtain t where t: "ietf_interface_create_cb sample_env (sample_session ?cs) ''/x'' SR_EV_VERIFY no_junk [] =
      (Returned SR_ERR_OPERATION_FAILED, t)" ..
  from ietf_create_frees [OF t _ refl] stop
  have "freed_vals t = [0, 1] \<and> iter_frees t = 1" by (simp add: trace_simps)
  with t show "\<exists>t. ietf_interface_create_cb sample_env (sample_session ?cs) ''/x'' SR_EV_VERIFY no_junk [] =
      (Returned SR_ERR_OPERATION_FAILED, t) \<and> freed_vals t = [0, 1] \<and> iter_frees t = 1" by blast
  let ?E = "sample_env\<lparr>next_nulls := False\<rparr>"
  let ?ds = "[sample_created (sample_leaf ''eth0'' ''name'') (String_val ''eth0'')]"
  have "\<exists>t. ietf_interface_create_cb ?E (sample_session ?ds) ''/x'' SR_EV_VERIFY no_junk [] =
      (Returned SR_ERR_INVAL_ARG, t)"
    by (simp add: defs)
  then obtain t where t: "ietf_interface_create_cb ?E (sample_session ?ds) ''/x'' SR_EV_VERIFY no_junk [] =
      (Returned SR_ERR_INVAL_ARG, t)" ..
  have "first_stop ?E [] 0 ?ds = None"
    by (simp add: create_stops_def sample_simps)
  with ietf_create_frees [OF t _ refl] have "freed_vals t = [0, 0] \<and> iter_frees t = 1"
    by (simp add: trace_simps)
  with t show "\<exists>t. ietf_interface_create_cb ?E (sample_session ?ds) ''/x'' SR_EV_VERIFY no_junk [] =
      (Returned SR_ERR_INVAL_ARG, t) \<and> freed_vals t = [0, 0] \<and> iter_frees t = 1" by blast
qed

text \<open>The calls that commit a configuration.\<close>

fun is_commit :: "effect \<Rightarrow> bool" where
  "is_commit (Om_write k x r) = True"
| "is_commit (Om_remove k r) = True"
| "is_commit _ = False"

lemma sets_or_frees_no_commit: "list_all sets_or_frees es \<Longrightarrow> filter is_commit es = []"
proof (induction es)
  case (Cons e es)
  then show ?case by (cases e) auto
qed simp

lemma create_finish_extends:
  "\<exists>es. icb_trace (flow_state (create_finish E s)) = icb_trace s @ es \<and> length (filter is_commit es) \<le> 1"
  by (auto simp: create_finish_def create_build_def create_commit_def call_om_write_def call_om_remove_def
      icb_emit_def flow_simps Let_def split: option.splits flow_splits)

lemma leave_callback_extends:
  "\<exists>es. snd (leave_callback icb_trace icb_cleanup m) = icb_trace (flow_state m) @ es \<and> filter is_commit es = []"
  by (cases m) (auto simp: flow_simps icb_cleanup_def free_vals_def split: option.splits)

text \<open>C38: Whatever the batch, the libraries and the uninitialised variables are, a run of the
  callback makes at most one call that commits a configuration: a notification about several
  interfaces reaches VPP for one of them at most.\<close>

theorem ietf_create_single_commit:
  "\<exists>es. snd (ietf_interface_create_cb E session xpath event junk tr) = tr @ es \<and>
     length (filter is_commit es) \<le> 1"
proof (cases "event = SR_EV_VERIFY \<and> changes_rc E tr xpath = SR_ERR_OK")
  case False
  then show ?thesis by (auto simp: ietf_interface_create_cb_def)
next
  case True
  let ?l = "foreach_change event (create_body E) 0 (s_changes session xpath) (icb_init junk tr)"
  let ?m = "then_flow ?l (\<lambda>s. create_finish E (s\<lparr>icb_vals := vals_after_loop E event (icb_vals s)\<rparr>))"
  have "icb_trace (icb_init junk tr) = tr" by (simp add: icb_init_def)
  with create_loop.loop_extends [where ev = event and E = E and i = 0
      and cs = "s_changes session xpath" and s = "icb_init junk tr"]
  obtain es where es: "icb_trace (flow_state ?l) = tr @ es" "list_all sets_or_frees es" by auto
  have "\<exists>es'. icb_trace (flow_state ?m) = icb_trace (flow_state ?l) @ es' \<and> length (filter is_commit es') \<le> 1"
  proof (cases ?l)
    case (Next s)
    then show ?thesis
      using create_finish_extends [of E "s\<lparr>icb_vals := vals_after_loop E event (icb_vals s)\<rparr>"]
      by (simp add: flow_simps)
  qed (auto simp: flow_simps)
  with es leave_callback_extends [of ?m] True show ?thesis
    by (auto simp: ietf_interface_create_cb_def sets_or_frees_no_commit)
qed

end
