(* ===== verification/Reply_Values.thy ===== *)
theory Reply_Values
  imports Sys_Util
begin

text \<open>
  How the operational callbacks answer: they allocate an array of values with
  \<open>sr_new_values\<close>, fill its cells one after the other while counting them, and hand out
  the array and the count.  A write past the end of the array is undefined behaviour, so
  that the callbacks are safe only if the arrays they allocate are large enough.
\<close>

record reply =
  r_vals :: "sr_val option list"
  r_cnt :: nat

text \<open>What a callback leaves in its out parameters \<open>values\<close> and \<open>values_cnt\<close>.\<close>

datatype out_values = Untouched | Null_values | Values reply

definition new_values :: "nat \<Rightarrow> reply" where
  "new_values n = \<lparr>r_vals = replicate n None, r_cnt = 0\<rparr>"

text \<open>
  One cell: \<open>sr_val_build_xpath\<close> and the setting of its type and data, then
  \<open>cnt++\<close>.
\<close>

definition put_value :: "sr_val \<Rightarrow> reply \<Rightarrow> (sr_err, reply) flow" where
  "put_value v r =
     (if r_cnt r < length (r_vals r)
      then Next \<lparr>r_vals = (r_vals r)[r_cnt r := Some v], r_cnt = Suc (r_cnt r)\<rparr>
      else Faults Buffer_overflow r)"

fun put_values :: "sr_val list \<Rightarrow> reply \<Rightarrow> (sr_err, reply) flow" where
  "put_values [] r = Next r"
| "put_values (v # vs) r = then_flow (put_value v r) (put_values vs)"

definition reply_of :: "sr_val list \<Rightarrow> nat \<Rightarrow> reply" where
  "reply_of vs n = \<lparr>r_vals = map Some vs @ replicate (n - length vs) None, r_cnt = length vs\<rparr>"

lemma new_values_reply: "new_values n = reply_of [] n"
  by (simp add: new_values_def reply_of_def)

lemma put_value_reply:
  "put_value v (reply_of vs n) =
     (if length vs < n then Next (reply_of (vs @ [v]) n) else Faults Buffer_overflow (reply_of vs n))"
proof (cases "length vs < n")
  case True
  then obtain k where k: "n - length vs = Suc k" by (metis Suc_diff_Suc)
  then have "n - Suc (length vs) = k" by simp
  with True k show ?thesis by (simp add: put_value_def reply_of_def list_update_append)
qed (simp add: put_value_def reply_of_def)

text \<open>Filling an array succeeds exactly when the values fit.\<close>

lemma put_values_fit:
  "length us + length vs \<le> n \<Longrightarrow> put_values vs (reply_of us n) = Next (reply_of (us @ vs) n)"
  by (induction vs arbitrary: us) (simp_all add: put_value_reply flow_simps)

lemma put_values_overflow:
  "n < length us + length vs \<Longrightarrow> length us \<le> n \<Longrightarrow>
     put_values vs (reply_of us n) = Faults Buffer_overflow (reply_of (us @ take (n - length us) vs) n)"
proof (induction vs arbitrary: us)
  case (Cons v vs)
  show ?case
  proof (cases "length us < n")
    case True
    then obtain k where k: "n - length us = Suc k" by (metis Suc_diff_Suc)
    then have "n - Suc (length us) = k" by simp
    with k Cons.IH [of "us @ [v]"] Cons.prems True show ?thesis
      by (simp add: put_value_reply flow_simps)
  next
    case False
    with Cons.prems show ?thesis by (simp add: put_value_reply flow_simps)
  qed
qed simp

text \<open>How a reply leaves an operational callback.\<close>

fun leave_reply :: "(sr_err, reply) flow \<Rightarrow> trace \<Rightarrow> sr_err result \<times> out_values \<times> trace" where
  "leave_reply (Next r) tr = (Returned SR_ERR_OK, Values r, tr)"
| "leave_reply (Goto r) tr = (Returned SR_ERR_OK, Null_values, tr)"
| "leave_reply (Ret e r) tr = (Returned e, Untouched, tr)"
| "leave_reply (Throws e r) tr = (Raised e, Untouched, tr)"
| "leave_reply (Faults f r) tr = (Crashed f, Untouched, tr)"

declare leave_reply.simps [flow_simps]

text \<open>
  A reply as sysrepo may read it: the first cells, as many as are counted, hold values whose
  data are of the type they declare, and the other cells are empty.
\<close>

definition well_typed :: "sr_val \<Rightarrow> bool" where
  "well_typed v \<longleftrightarrow>
     (case v_data v of
        Bool_val b \<Rightarrow> v_type v = SR_BOOL_T
      | String_val t \<Rightarrow> v_type v \<in> {SR_STRING_T, SR_ENUM_T, SR_IDENTITYREF_T}
      | Uint8_val w \<Rightarrow> v_type v = SR_UINT8_T
      | Uint16_val w \<Rightarrow> v_type v = SR_UINT16_T
      | Uint32_val w \<Rightarrow> v_type v = SR_UINT32_T
      | Int32_val w \<Rightarrow> v_type v = SR_INT32_T
      | Uint64_val w \<Rightarrow> v_type v = SR_UINT64_T
      | No_data \<Rightarrow> v_type v = SR_LIST_T)"

definition reply_ok :: "reply \<Rightarrow> bool" where
  "reply_ok r \<longleftrightarrow>
     r_cnt r \<le> length (r_vals r) \<and>
     list_all (\<lambda>c. case c of None \<Rightarrow> False | Some v \<Rightarrow> well_typed v) (take (r_cnt r) (r_vals r)) \<and>
     list_all (\<lambda>c. c = None) (drop (r_cnt r) (r_vals r))"

lemma new_values_ok: "reply_ok (new_values n)"
  by (simp add: reply_ok_def new_values_def list_all_iff)

lemma put_value_ok:
  assumes "reply_ok r" and "well_typed v" and "put_value v r = Next r'"
  shows "reply_ok r'"
proof -
  from assms(3) have lt: "r_cnt r < length (r_vals r)"
    and r': "r' = \<lparr>r_vals = (r_vals r)[r_cnt r := Some v], r_cnt = Suc (r_cnt r)\<rparr>"
    by (auto simp: put_value_def split: if_splits)
  have "take (Suc (r_cnt r)) ((r_vals r)[r_cnt r := Some v]) = take (r_cnt r) (r_vals r) @ [Some v]"
    using lt by (simp add: take_Suc_conv_app_nth)
  moreover have "drop (Suc (r_cnt r)) ((r_vals r)[r_cnt r := Some v]) = tl (drop (r_cnt r) (r_vals r))"
  proof -
    have "drop (Suc (r_cnt r)) ((r_vals r)[r_cnt r := Some v]) = drop (Suc (r_cnt r)) (r_vals r)"
      by simp
    then show ?thesis by (simp add: drop_Suc drop_tl)
  qed
  moreover have "list_all (\<lambda>c. c = None) (tl (drop (r_cnt r) (r_vals r)))"
    using assms(1) by (cases "drop (r_cnt r) (r_vals r)") (simp_all add: reply_ok_def)
  ultimately show ?thesis using assms(1,2) lt by (simp add: reply_ok_def r')
qed

lemma put_values_ok:
  "list_all well_typed vs \<Longrightarrow> reply_ok r \<Longrightarrow> put_values vs r = Next r' \<Longrightarrow> reply_ok r'"
proof (induction vs arbitrary: r)
  case (Cons v vs)
  then obtain q where q: "put_value v r = Next q" "put_values vs q = Next r'"
    by (auto simp: then_flow_Next_iff)
  have "well_typed v" "list_all well_typed vs" using Cons.prems(1) by simp_all
  with Cons.IH [OF _ _ q(2)] put_value_ok [OF Cons.prems(2) _ q(1)] show ?case by blast
qed simp

end
