(* ===== verification/Vpp_Oper.thy ===== *)
theory Vpp_Oper
  imports Sys_Util
begin

text \<open>
  \<^verbatim>\<open>plugins/vpp-oper/interface.hpp\<close> and \<^verbatim>\<open>interface.cpp\<close>: the command
  \<open>interface_dump\<close>, which asks VPP for the details of one interface or of all of them.
  What a fresh message holds and what VPP answers are those of the VAPI.
\<close>

record interface_dump =
  i_name :: string

definition interface_dump_all :: interface_dump where
  "interface_dump_all = \<lparr>i_name = []\<rparr>"

definition interface_dump_one :: "string \<Rightarrow> interface_dump" where
  "interface_dump_one interface_name = \<lparr>i_name = interface_name\<rparr>"

text \<open>
  The request: \<open>memset\<close> clears as many bytes as the length field says and \<open>memcpy\<close>
  copies the name, both from the start of the buffer.
\<close>

definition fill_request :: "interface_dump \<Rightarrow> dump_request \<Rightarrow> (unit, dump_request) flow" where
  "fill_request d q =
     (if i_name d = [] then Next (q\<lparr>q_name_filter_valid := 0\<rparr>)
      else
        let q = q\<lparr>q_name_filter_valid := 1\<rparr>;
            n = unat (q_length q)
        in if n > length (q_buf q) then Faults Buffer_overflow q
           else
             let q = q\<lparr>q_buf := replicate n (CHR 0x00) @ drop n (q_buf q)\<rparr>;
                 m = length (i_name d)
             in if m > length (q_buf q) then Faults Buffer_overflow q
                else Next (q\<lparr>q_buf := i_name d @ drop m (q_buf q)\<rparr>))"

text \<open>\<open>issue\<close>: the result, the answers that the command then holds, and the trace.\<close>

definition issue :: "env \<Rightarrow> interface_dump \<Rightarrow> trace \<Rightarrow> rc_t result \<times> itf_details list \<times> trace" where
  "issue E d tr =
     (case fill_request d (new_request E tr) of
        Faults f q \<Rightarrow> (Crashed f, [], tr)
      | Throws e q \<Rightarrow> (Raised e, [], tr)
      | m \<Rightarrow> (Returned RC_OK, itf_dump E tr (flow_state m), tr @ [Hw_dump (flow_state m)]))"

definition dump_to_string :: "interface_dump \<Rightarrow> string" where
  "dump_to_string d = ''itf-dump''"

lemma issue_all:
  "issue E interface_dump_all tr =
     (let q = (new_request E tr)\<lparr>q_name_filter_valid := 0\<rparr>
      in (Returned RC_OK, itf_dump E tr q, tr @ [Hw_dump q]))"
  by (simp add: issue_def fill_request_def interface_dump_all_def Let_def flow_simps)

text \<open>The filter of a named dump, where the message has room for the name.\<close>

definition named_request :: "string \<Rightarrow> dump_request \<Rightarrow> dump_request" where
  "named_request n q =
     q\<lparr>q_name_filter_valid := 1,
       q_buf := n @ drop (length n) (replicate (unat (q_length q)) (CHR 0x00) @ drop (unat (q_length q)) (q_buf q))\<rparr>"

lemma fill_request_named:
  assumes "n \<noteq> []"
  shows "fill_request (interface_dump_one n) q =
    (if unat (q_length q) \<le> length (q_buf q) \<and> length n \<le> length (q_buf q) then Next (named_request n q)
     else Faults Buffer_overflow (if unat (q_length q) > length (q_buf q) then q\<lparr>q_name_filter_valid := 1\<rparr>
       else q\<lparr>q_name_filter_valid := 1,
              q_buf := replicate (unat (q_length q)) (CHR 0x00) @ drop (unat (q_length q)) (q_buf q)\<rparr>))"
  using assms by (auto simp: fill_request_def interface_dump_one_def Let_def named_request_def)

text \<open>C39: Where the buffer has the length that the message gives it, a dump by name is issued exactly
  if the name fits the buffer; a longer one is written past the end of the message, since
  the name is copied with its own length.  A command that was issued always answers
  \<open>rc_t::OK\<close>.\<close>

theorem issue_named_iff:
  assumes "n \<noteq> []" and "unat (q_length (new_request E tr)) = length (q_buf (new_request E tr))"
  shows "issue E (interface_dump_one n) tr =
    (if length n \<le> unat (q_length (new_request E tr))
     then (let q = named_request n (new_request E tr) in (Returned RC_OK, itf_dump E tr q, tr @ [Hw_dump q]))
     else (Crashed Buffer_overflow, [], tr))"
  using assms by (simp add: issue_def fill_request_named Let_def flow_simps)

theorem issue_named_iff_witness:
  "fst (issue sample_env (interface_dump_one ''eth0'') []) = Returned RC_OK \<and>
   issue sample_env (interface_dump_one (replicate 65 (CHR ''e''))) [] = (Crashed Buffer_overflow, [], [])"
  using issue_named_iff [of "''eth0''" sample_env "[]"]
    issue_named_iff [of "replicate 65 (CHR ''e'')" sample_env "[]"]
  by (simp add: Let_def)

text \<open>The filter that VPP reads is the name: the text at the start of the buffer is the name of
  the command where the length field is at least as long as the name and its terminator.  The
  length field itself is never set.\<close>

theorem named_filter_text:
  assumes "CHR 0x00 \<notin> set n" and "length n < unat (q_length q)" and "n \<noteq> []"
    and "fill_request (interface_dump_one n) q = Next q'"
  shows "c_string (q_buf q') = n \<and> q_length q' = q_length q \<and> q_name_filter_valid q' = 1"
proof -
  have q': "q' = named_request n q"
    using assms(3,4) by (simp add: fill_request_named split: if_splits)
  have "drop (length n) (replicate (unat (q_length q)) (CHR 0x00) @ drop (unat (q_length q)) (q_buf q)) =
      CHR 0x00 # replicate (unat (q_length q) - Suc (length n)) (CHR 0x00) @ drop (unat (q_length q)) (q_buf q)"
    using assms(2) by (simp add: Suc_diff_Suc flip: replicate_Suc append_Cons)
  moreover have "takeWhile (\<lambda>c. c \<noteq> CHR 0x00) (n @ CHR 0x00 # xs) = n" for xs
    using assms(1) by (subst takeWhile_append2) auto
  ultimately show ?thesis by (simp add: q' named_request_def c_string_def)
qed

theorem named_filter_text_witness:
  "c_string (q_buf (named_request ''eth0'' (new_request sample_env []))) = ''eth0''"
proof -
  have "fill_request (interface_dump_one ''eth0'') (new_request sample_env []) =
      Next (named_request ''eth0'' (new_request sample_env []))"
    by (simp add: fill_request_named)
  from named_filter_text [OF _ _ _ this] show ?thesis by simp
qed

end
