(* ===== verification/Ietf_State.thy ===== *)
theory Ietf_State
  imports Reply_Values Vpp_Oper
begin

unbundle bit_operations_syntax

text \<open>
  \<^verbatim>\<open>plugins/ietf/ietf_interface.cpp\<close>, the operational data of interfaces:
  \<open>ietf_interface_state_cb\<close> and \<open>interface_statistics_cb\<close>.
\<close>

section \<open>ietf_interface_state_cb\<close>

text \<open>The text of a hardware address, the format \<open>%02x:%02x:%02x:%02x:%02x:%02x\<close>.\<close>

fun mac_to_string :: "mac \<Rightarrow> string" where
  "mac_to_string (Mac a b c d e f) =
     hex2 a @ '':'' @ hex2 b @ '':'' @ hex2 c @ '':'' @ hex2 d @ '':'' @ hex2 e @ '':'' @ hex2 f"

text \<open>The xpath of a leaf, the format \<open>%s[name='%s']/leaf\<close>.\<close>

definition state_leaf :: "string \<Rightarrow> itf_details \<Rightarrow> string \<Rightarrow> string" where
  "state_leaf xpath d leaf = xpath @ ''[name='' @ [CHR 39] @ d_name d @ [CHR 39] @ '']/'' @ leaf"

text \<open>The five values of one iteration; a flag counts only when the flags are equal to it.\<close>

definition state_values :: "env \<Rightarrow> string \<Rightarrow> itf_details \<Rightarrow> sr_val list" where
  "state_values E xpath d =
     [\<lparr>v_xpath = state_leaf xpath d ''admin-status'', v_type = SR_ENUM_T,
       v_data = String_val (if d_flags d = flag_admin_up E then ''up'' else ''down'')\<rparr>,
      \<lparr>v_xpath = state_leaf xpath d ''oper-status'', v_type = SR_ENUM_T,
       v_data = String_val (if d_flags d = flag_link_up E then ''up'' else ''down'')\<rparr>,
      \<lparr>v_xpath = state_leaf xpath d ''phys-address'', v_type = SR_STRING_T,
       v_data = String_val (mac_to_string (d_l2_address d))\<rparr>,
      \<lparr>v_xpath = state_leaf xpath d ''if-index'', v_type = SR_INT32_T,
       v_data = Int32_val (d_sw_if_index d)\<rparr>,
      \<lparr>v_xpath = state_leaf xpath d ''speed'', v_type = SR_UINT64_T,
       v_data = Uint64_val (ucast (d_link_speed d))\<rparr>]"

fun state_loop :: "env \<Rightarrow> string \<Rightarrow> itf_details list \<Rightarrow> reply \<Rightarrow> (sr_err, reply) flow" where
  "state_loop E xpath [] r = Next r"
| "state_loop E xpath (d # ds) r =
     then_flow (put_values (state_values E xpath d) r) (state_loop E xpath ds)"

definition ietf_interface_state_cb :: "env \<Rightarrow> string \<Rightarrow> trace \<Rightarrow> sr_err result \<times> out_values \<times> trace" where
  "ietf_interface_state_cb E xpath tr =
     (if \<not> node_name_eq E xpath ''interface'' then (Returned SR_ERR_OK, Null_values, tr)
      else
        (case issue E interface_dump_all tr of
           (Crashed f, dump, tr) \<Rightarrow> (Crashed f, Untouched, tr)
         | (Raised e, dump, tr) \<Rightarrow> (Raised e, Untouched, tr)
         | (Returned r, dump, tr) \<Rightarrow>
             let vc = 6;
                 interface_num = length dump;
                 n = (interface_num + 1) * vc;
                 rc = new_values_rc E tr n
             in if rc \<noteq> SR_ERR_OK then (Returned rc, Null_values, tr)
                else leave_reply (state_loop E xpath dump (new_values n)) tr))"

lemma length_state_values [simp]: "length (state_values E xpath d) = 5"
  by (simp add: state_values_def)

lemma state_loop_fit:
  "length us + 5 * length ds \<le> n \<Longrightarrow>
     state_loop E xpath ds (reply_of us n) = Next (reply_of (us @ concat (map (state_values E xpath) ds)) n)"
  by (induction ds arbitrary: us) (simp_all add: put_values_fit flow_simps)

lemma length_concat_state_values [simp]:
  "length (concat (map (state_values E xpath) ds)) = 5 * length ds"
  by (induction ds) simp_all

text \<open>C18: The operational state of all interfaces, on every branch: the callback asks VPP for every
  interface and answers with five values for each one, in the order of the dump.  It never
  writes past the array it allocates, of six cells for each interface and six more, and the
  count it hands out is that of the cells it filled.\<close>

theorem ietf_state_reply:
  assumes "q = (new_request E tr)\<lparr>q_name_filter_valid := 0\<rparr>" and "dump = itf_dump E tr q"
    and "vals = concat (map (state_values E xpath) dump)" and "n = (length dump + 1) * 6"
  shows "ietf_interface_state_cb E xpath tr =
    (if \<not> node_name_eq E xpath ''interface'' then (Returned SR_ERR_OK, Null_values, tr)
     else if new_values_rc E (tr @ [Hw_dump q]) n \<noteq> SR_ERR_OK
     then (Returned (new_values_rc E (tr @ [Hw_dump q]) n), Null_values, tr @ [Hw_dump q])
     else (Returned SR_ERR_OK,
       Values \<lparr>r_vals = map Some vals @ replicate (length dump + 6) None, r_cnt = 5 * length dump\<rparr>,
       tr @ [Hw_dump q]))"
proof -
  have fit: "state_loop E xpath dump (new_values n) = Next (reply_of vals n)"
    using state_loop_fit [of "[]" dump n] assms(3,4) by (simp add: new_values_reply)
  have "n - length vals = length dump + 6" using assms(3,4) by simp
  then have "reply_of vals n = \<lparr>r_vals = map Some vals @ replicate (length dump + 6) None, r_cnt = 5 * length dump\<rparr>"
    using assms(3) by (simp add: reply_of_def)
  with fit assms(1,2,4) show ?thesis
    by (simp add: ietf_interface_state_cb_def issue_all Let_def flow_simps)
qed

text \<open>An environment with one interface and its flags.\<close>

definition sample_details :: "u32 \<Rightarrow> itf_details" where
  "sample_details flags =
     \<lparr>d_name = ''eth0'', d_flags = flags, d_l2_address = Mac 2 254 0 1 10 255,
      d_sw_if_index = 1, d_link_speed = 1000, d_link_mtu = 1500\<rparr>"

definition sample_dump_env :: "u32 \<Rightarrow> env" where
  "sample_dump_env flags = sample_known_env\<lparr>itf_dump := (\<lambda>_ _. [sample_details flags])\<rparr>"

lemma sample_dump_env_simps [simp]:
  "itf_dump (sample_dump_env w) t q = [sample_details w]"
  "node_name_eq (sample_dump_env w) = sample_node_name_eq"
  "key_value (sample_dump_env w) = sample_key_value"
  "new_request (sample_dump_env w) = new_request sample_env"
  "new_values_rc (sample_dump_env w) t n = SR_ERR_OK"
  "flag_admin_up (sample_dump_env w) = 1"
  "flag_link_up (sample_dump_env w) = 2"
  "itf_find (sample_dump_env w) = itf_find sample_known_env"
  "itf_stats (sample_dump_env w) = itf_stats sample_env"
  by (simp_all add: sample_dump_env_def sample_known_env_def)

theorem ietf_state_reply_witness:
  "\<exists>q. ietf_interface_state_cb (sample_dump_env 1) ''/s/interface'' [] =
     (Returned SR_ERR_OK,
      Values \<lparr>r_vals = map Some (state_values (sample_dump_env 1) ''/s/interface'' (sample_details 1)) @
                replicate 7 None, r_cnt = 5\<rparr>, [Hw_dump q])"
  using ietf_state_reply [OF refl refl refl refl, of "sample_dump_env 1" "''/s/interface''" "[]"]
  by (simp add: sample_node_name_eq_def)

text \<open>
  Is the status with an xpath up in a list of values?
\<close>

definition status_up :: "sr_val list \<Rightarrow> string \<Rightarrow> bool" where
  "status_up vs xp \<longleftrightarrow> (\<exists>v \<in> set vs. v_xpath v = xp \<and> v_data v = String_val ''up'')"

lemma mac_to_string_not_up: "mac_to_string m \<noteq> ''up''"
  by (cases m) (simp add: hex2_def)

lemma state_leaf_inj: "state_leaf xpath d l = state_leaf xpath d l' \<longleftrightarrow> l = l'"
  by (simp add: state_leaf_def)

lemma status_up_iff:
  "status_up (state_values E xpath d) (state_leaf xpath d ''admin-status'') \<longleftrightarrow> d_flags d = flag_admin_up E"
  "status_up (state_values E xpath d) (state_leaf xpath d ''oper-status'') \<longleftrightarrow> d_flags d = flag_link_up E"
  by (simp_all add: status_up_def state_values_def state_leaf_inj)

text \<open>The flags are compared for equality and not tested bit by bit: an interface that VPP
  reports with both flags set, that is up and running, is reported administratively down and
  operationally down.\<close>

theorem ietf_state_up_reported_down:
  assumes "d_flags d = (flag_admin_up E OR flag_link_up E)"
    and "flag_admin_up E AND flag_link_up E = 0" and "flag_admin_up E \<noteq> 0" and "flag_link_up E \<noteq> 0"
  shows "\<not> status_up (state_values E xpath d) (state_leaf xpath d ''admin-status'') \<and>
    \<not> status_up (state_values E xpath d) (state_leaf xpath d ''oper-status'')"
proof -
  let ?a = "flag_admin_up E" and ?l = "flag_link_up E"
  have "?l AND (?a OR ?l) = ?l" "?a AND (?a OR ?l) = ?a" by (simp_all add: ac_simps)
  moreover have "?l AND ?a = 0" using assms(2) by (simp only: and.commute)
  ultimately have "?a OR ?l \<noteq> ?a" "?a OR ?l \<noteq> ?l" using assms(2-4) by metis+
  with assms(1) show ?thesis by (simp add: status_up_iff)
qed

theorem ietf_state_up_reported_down_witness:
  "\<not> status_up (state_values (sample_dump_env 3) ''/s/interface'' (sample_details 3))
       (state_leaf ''/s/interface'' (sample_details 3) ''admin-status'')"
  using ietf_state_up_reported_down [of "sample_details 3" "sample_dump_env 3" "''/s/interface''"]
  by (simp add: sample_details_def)

text \<open>The text of a hardware address has 17 characters and determines the address.\<close>

theorem mac_to_string_inj:
  "length (mac_to_string m) = 17 \<and> (mac_to_string m = mac_to_string m' \<longleftrightarrow> m = m')"
proof -
  have "hex2 a = hex2 b \<longleftrightarrow> a = b" for a b
  proof -
    have "unat a div 16 < 16" "unat b div 16 < 16"
      using unsigned_less [of a, where ?'a = nat] unsigned_less [of b, where ?'a = nat] by auto
    then have "hex2 a = hex2 b \<longleftrightarrow> unat a div 16 = unat b div 16 \<and> unat a mod 16 = unat b mod 16"
      by (simp add: hex2_def hex_digit_inj)
    also have "\<dots> \<longleftrightarrow> unat a = unat b"
      by (metis div_mult_mod_eq)
    finally show ?thesis by (simp add: word_unat_eq_iff)
  qed
  moreover have "length (hex2 a) = 2" for a by (simp add: hex2_def)
  ultimately show ?thesis by (cases m; cases m') simp
qed

section \<open>interface_statistics_cb\<close>

definition statistics_values :: "string \<Rightarrow> stats_t \<Rightarrow> sr_val list" where
  "statistics_values xpath stats =
     map (\<lambda>(leaf, n). \<lparr>v_xpath = xpath @ leaf, v_type = SR_UINT64_T, v_data = Uint64_val n\<rparr>)
       [(''/in-octets'', m_rx_bytes stats),
        (''/in-unicast-pkts'', m_rx_unicast_packets stats),
        (''/in-broadcast-pkts'', m_rx_broadcast_packets stats),
        (''/in-multicast-pkts'', m_rx_multicast_packets stats),
        (''/out-octets'', m_tx_bytes stats),
        (''/out-unicast-pkts'', m_tx_unicast_packets stats),
        (''/out-broadcast-pkts'', m_tx_broadcast_packets stats),
        (''/out-multicast-pkts'', m_tx_multicast_packets stats)]"

definition interface_statistics_cb :: "env \<Rightarrow> string \<Rightarrow> trace \<Rightarrow> sr_err result \<times> out_values \<times> trace" where
  "interface_statistics_cb E xpath tr =
     (case key_value E xpath ''interface'' ''name'' of
        None \<Rightarrow> (Crashed Null_string, Untouched, tr)
      | Some intf_name \<Rightarrow>
          if intf_name = [] then (Returned SR_ERR_INVAL_ARG, Untouched, tr)
          else
            (case itf_find E tr intf_name of
               None \<Rightarrow> (Returned SR_ERR_OK, Null_values, tr)
             | Some interface \<Rightarrow>
                 let vc = 8;
                     rc = new_values_rc E tr vc
                 in if rc \<noteq> SR_ERR_OK then (Returned rc, Null_values, tr)
                    else leave_reply
                      (put_values (statistics_values xpath (itf_stats E tr intf_name)) (new_values vc)) tr))"

text \<open>
  What a client reads under an xpath: the counter of the only cell with that xpath among those
  that are counted.
\<close>

definition read_counter :: "reply \<Rightarrow> string \<Rightarrow> u64 option" where
  "read_counter r xp =
     (case filter (\<lambda>v. v_xpath v = xp) (List.map_filter id (take (r_cnt r) (r_vals r))) of
        [v] \<Rightarrow> if v_type v = SR_UINT64_T then (case v_data v of Uint64_val n \<Rightarrow> Some n | _ \<Rightarrow> None) else None
      | _ \<Rightarrow> None)"

lemma map_filter_id_Some [simp]: "List.map_filter id (map Some xs) = xs"
  by (induction xs) simp_all

lemma length_statistics [simp]: "length (statistics_values xpath st) = 8"
  by (simp add: statistics_values_def)

lemma read_statistics:
  assumes "r = \<lparr>r_vals = map Some (statistics_values xpath st), r_cnt = 8\<rparr>"
  shows "length (r_vals r) = 8"
    and "read_counter r (xpath @ ''/in-octets'') = Some (m_rx_bytes st)"
    and "read_counter r (xpath @ ''/in-unicast-pkts'') = Some (m_rx_unicast_packets st)"
    and "read_counter r (xpath @ ''/in-broadcast-pkts'') = Some (m_rx_broadcast_packets st)"
    and "read_counter r (xpath @ ''/in-multicast-pkts'') = Some (m_rx_multicast_packets st)"
    and "read_counter r (xpath @ ''/out-octets'') = Some (m_tx_bytes st)"
    and "read_counter r (xpath @ ''/out-unicast-pkts'') = Some (m_tx_unicast_packets st)"
    and "read_counter r (xpath @ ''/out-broadcast-pkts'') = Some (m_tx_broadcast_packets st)"
    and "read_counter r (xpath @ ''/out-multicast-pkts'') = Some (m_tx_multicast_packets st)"
proof -
  show "length (r_vals r) = 8" by (simp add: assms)
  have "List.map_filter id (take (r_cnt r) (r_vals r)) = statistics_values xpath st"
    by (simp add: assms take_map)
  then have read: "read_counter r xp =
      (case filter (\<lambda>v. v_xpath v = xp) (statistics_values xpath st) of
         [v] \<Rightarrow> if v_type v = SR_UINT64_T then (case v_data v of Uint64_val n \<Rightarrow> Some n | _ \<Rightarrow> None) else None
       | _ \<Rightarrow> None)" for xp
    by (simp add: read_counter_def)
  show "read_counter r (xpath @ ''/in-octets'') = Some (m_rx_bytes st)"
    "read_counter r (xpath @ ''/in-unicast-pkts'') = Some (m_rx_unicast_packets st)"
    "read_counter r (xpath @ ''/in-broadcast-pkts'') = Some (m_rx_broadcast_packets st)"
    "read_counter r (xpath @ ''/in-multicast-pkts'') = Some (m_rx_multicast_packets st)"
    "read_counter r (xpath @ ''/out-octets'') = Some (m_tx_bytes st)"
    "read_counter r (xpath @ ''/out-unicast-pkts'') = Some (m_tx_unicast_packets st)"
    "read_counter r (xpath @ ''/out-broadcast-pkts'') = Some (m_tx_broadcast_packets st)"
    "read_counter r (xpath @ ''/out-multicast-pkts'') = Some (m_tx_multicast_packets st)"
    by (simp_all add: read statistics_values_def)
qed

lemma put_statistics:
  "put_values (statistics_values xpath st) (new_values 8) =
     Next \<lparr>r_vals = map Some (statistics_values xpath st), r_cnt = 8\<rparr>"
  using put_values_fit [of "[]" "statistics_values xpath st" 8]
  by (simp add: new_values_reply) (simp add: reply_of_def)

text \<open>C33: The statistics of an interface, on every branch: for a known interface the eight cells
  allocated are exactly those filled, and a client reads under each of the eight leaves of
  the model the counter of that name of that interface: received for in, transmitted for
  out, bytes for octets, packets for the rest.  An unknown interface is answered by no values
  and success; an xpath without the key crashes the callback.\<close>

theorem interface_statistics_reply:
  "case key_value E xpath ''interface'' ''name'' of
     None \<Rightarrow> interface_statistics_cb E xpath tr = (Crashed Null_string, Untouched, tr)
   | Some [] \<Rightarrow> interface_statistics_cb E xpath tr = (Returned SR_ERR_INVAL_ARG, Untouched, tr)
   | Some (c # n) \<Rightarrow>
       if itf_find E tr (c # n) = None then
         interface_statistics_cb E xpath tr = (Returned SR_ERR_OK, Null_values, tr)
       else if new_values_rc E tr 8 \<noteq> SR_ERR_OK then
         interface_statistics_cb E xpath tr = (Returned (new_values_rc E tr 8), Null_values, tr)
       else
         (\<exists>r. interface_statistics_cb E xpath tr = (Returned SR_ERR_OK, Values r, tr) \<and>
            r_cnt r = 8 \<and> length (r_vals r) = 8 \<and>
            read_counter r (xpath @ ''/in-octets'') = Some (m_rx_bytes (itf_stats E tr (c # n))) \<and>
            read_counter r (xpath @ ''/in-unicast-pkts'') = Some (m_rx_unicast_packets (itf_stats E tr (c # n))) \<and>
            read_counter r (xpath @ ''/in-broadcast-pkts'') = Some (m_rx_broadcast_packets (itf_stats E tr (c # n))) \<and>
            read_counter r (xpath @ ''/in-multicast-pkts'') = Some (m_rx_multicast_packets (itf_stats E tr (c # n))) \<and>
            read_counter r (xpath @ ''/out-octets'') = Some (m_tx_bytes (itf_stats E tr (c # n))) \<and>
            read_counter r (xpath @ ''/out-unicast-pkts'') = Some (m_tx_unicast_packets (itf_stats E tr (c # n))) \<and>
            read_counter r (xpath @ ''/out-broadcast-pkts'') = Some (m_tx_broadcast_packets (itf_stats E tr (c # n))) \<and>
            read_counter r (xpath @ ''/out-multicast-pkts'') = Some (m_tx_multicast_packets (itf_stats E tr (c # n))))"
proof (cases "key_value E xpath ''interface'' ''name''")
  case None
  then show ?thesis by (simp add: interface_statistics_cb_def)
next
  case (Some name)
  show ?thesis
  proof (cases name)
    case Nil
    with Some show ?thesis by (simp add: interface_statistics_cb_def)
  next
    case (Cons c n)
    show ?thesis
    proof (cases "itf_find E tr (c # n) = None \<or> new_values_rc E tr 8 \<noteq> SR_ERR_OK")
      case True
      with Some Cons show ?thesis by (auto simp: interface_statistics_cb_def Let_def)
    next
      case False
      let ?r = "\<lparr>r_vals = map Some (statistics_values xpath (itf_stats E tr (c # n))), r_cnt = 8\<rparr>"
      from False Some Cons have "interface_statistics_cb E xpath tr = (Returned SR_ERR_OK, Values ?r, tr)"
        by (auto simp: interface_statistics_cb_def Let_def put_statistics flow_simps)
      then have "\<exists>r. interface_statistics_cb E xpath tr = (Returned SR_ERR_OK, Values r, tr) \<and> r = ?r \<and> r_cnt r = 8"
        by simp
      with False Some Cons show ?thesis by (auto simp: read_statistics)
    qed
  qed
qed

end
