(* ===== verification/Oc_Interfaces.thy ===== *)
theory Oc_Interfaces
  imports Ietf_Interface Ietf_State
begin

text \<open>
  \<^verbatim>\<open>plugins/openconfig/openconfig_interfaces.cpp\<close>: its own class
  \<open>interface_builder\<close>, the configuration callback \<open>oc_interfaces_config_cb\<close> and
  the operational one, \<open>oc_interfaces_state_cb\<close>.
\<close>

section \<open>interface_builder\<close>

record oc_builder =
  ob_name :: string
  ob_type :: string
  ob_state :: bool

definition oc_builder_new :: "bool \<Rightarrow> oc_builder" where
  "oc_builder_new junk = \<lparr>ob_name = [], ob_type = [], ob_state = junk\<rparr>"

definition oc_build :: "oc_builder \<Rightarrow> itf option" where
  "oc_build b =
     (if ob_name b = [] \<or> ob_type b = [] then None
      else Some \<lparr>itf_name = ob_name b, itf_type = Type_from_string (ob_type b),
                 itf_admin = Admin_from_int (ob_state b)\<rparr>)"

definition oc_name :: "oc_builder \<Rightarrow> string" where
  "oc_name b = ob_name b"

definition oc_set_name :: "string \<Rightarrow> oc_builder \<Rightarrow> oc_builder" where
  "oc_set_name n b = b\<lparr>ob_name := n\<rparr>"

definition oc_set_type :: "string \<Rightarrow> oc_builder \<Rightarrow> oc_builder" where
  "oc_set_type t b = (if t = ''iana-if-type:ethernetCsmacd'' then b\<lparr>ob_type := ''ETHERNET''\<rparr> else b)"

definition oc_set_state :: "bool \<Rightarrow> oc_builder \<Rightarrow> oc_builder" where
  "oc_set_state enable b = b\<lparr>ob_state := enable\<rparr>"

definition oc_to_string :: "oc_builder \<Rightarrow> string" where
  "oc_to_string b = ob_name b @ '','' @ ob_type b @ '','' @ (if ob_state b then ''1'' else ''0'')"

lemmas oc_builder_defs =
  oc_builder_new_def oc_build_def oc_name_def oc_set_name_def oc_set_type_def oc_set_state_def oc_to_string_def

interpretation oc_builder: itf_builder
  "\<lambda>b. (ob_name b, ob_type b, ob_state b)" oc_builder_new oc_build oc_name oc_to_string
  oc_set_name oc_set_type oc_set_state
  by unfold_locales (simp_all add: oc_builder_defs)

section \<open>oc_interfaces_config_cb\<close>

text \<open>
  The local variables; \<open>create\<close>, \<open>remove\<close>, \<open>modify\<close> and the state in the
  builder are not initialised.  The result variable is not either, but every jump to the
  cleanup sets it first.
\<close>

record ocb =
  o_builder :: oc_builder
  o_intf :: "itf option"
  o_intf_name :: string
  o_create :: bool
  o_remove :: bool
  o_modify :: bool
  o_rc :: sr_err
  o_vals :: "nat option"
  o_trace :: trace

definition ocb_init :: "create_junk \<Rightarrow> trace \<Rightarrow> ocb" where
  "ocb_init j tr =
     \<lparr>o_builder = oc_builder_new (junk_state j), o_intf = None, o_intf_name = [],
      o_create = junk_create j, o_remove = junk_remove j, o_modify = junk_modify j,
      o_rc = SR_ERR_OK, o_vals = None, o_trace = tr\<rparr>"

definition ocb_emit :: "effect list \<Rightarrow> ocb \<Rightarrow> ocb" where
  "ocb_emit es s = s\<lparr>o_trace := o_trace s @ es\<rparr>"

definition oc_created :: "env \<Rightarrow> sr_val \<Rightarrow> ocb \<Rightarrow> (sr_err, ocb) flow" where
  "oc_created E ne s =
     (if node_name_eq E (v_xpath ne) ''name'' then
        need Bad_union (string_val (v_data ne)) s (\<lambda>n.
          Next (s\<lparr>o_builder := oc_set_name n (o_builder s), o_create := True\<rparr>))
      else if node_name_eq E (v_xpath ne) ''type'' then
        need Bad_union (string_val (v_data ne)) s (\<lambda>t.
          Next (s\<lparr>o_builder := oc_set_type t (o_builder s)\<rparr>))
      else if node_name_eq E (v_xpath ne) ''enabled'' then
        need Bad_union (bool_val (v_data ne)) s (\<lambda>b.
          Next (s\<lparr>o_builder := oc_set_state b (o_builder s)\<rparr>))
      else Next s)"

definition oc_modified :: "env \<Rightarrow> sr_val \<Rightarrow> ocb \<Rightarrow> (sr_err, ocb) flow" where
  "oc_modified E ne s =
     (if node_name_eq E (v_xpath ne) ''enabled'' then
        need Null_string (key_value E (v_xpath ne) ''interface'' ''name'') s (\<lambda>n.
          (case itf_find E (o_trace s) n of
             None \<Rightarrow> Goto (s\<lparr>o_intf := None, o_rc := SR_ERR_OPERATION_FAILED\<rparr>)
           | Some intf \<Rightarrow>
               need Bad_union (bool_val (v_data ne)) s (\<lambda>b.
                 Next (ocb_emit [Itf_set n (Admin_from_int b)]
                   (s\<lparr>o_intf := Some (intf\<lparr>itf_admin := Admin_from_int b\<rparr>), o_modify := True\<rparr>)))))
      else Next s)"

definition oc_deleted :: "env \<Rightarrow> change \<Rightarrow> ocb \<Rightarrow> (sr_err, ocb) flow" where
  "oc_deleted E c s =
     need Null_deref (ch_old c) s (\<lambda>ol.
       if node_name_eq E (v_xpath ol) ''name'' then
         need Bad_union (string_val (v_data ol)) s (\<lambda>n.
           Next (s\<lparr>o_builder := oc_set_name n (o_builder s), o_remove := True\<rparr>))
       else Next s)"

definition oc_switch :: "env \<Rightarrow> change \<Rightarrow> sr_val \<Rightarrow> ocb \<Rightarrow> (sr_err, ocb) flow" where
  "oc_switch E c ne s =
     (case ch_op c of
        SR_OP_CREATED \<Rightarrow> oc_created E ne s
      | SR_OP_MODIFIED \<Rightarrow> oc_modified E ne s
      | SR_OP_DELETED \<Rightarrow> oc_deleted E c s
      | SR_OP_MOVED \<Rightarrow> Goto (s\<lparr>o_rc := SR_ERR_UNSUPPORTED\<rparr>))"

definition oc_no_name_msg :: string where
  "oc_no_name_msg = ''XPATH interface name NOT found''"

text \<open>The body of the loop: before anything else it reads the new value, whatever the operation.\<close>

definition oc_body :: "env \<Rightarrow> nat \<Rightarrow> change \<Rightarrow> ocb \<Rightarrow> (sr_err, ocb) flow" where
  "oc_body E i c s0 =
     (let s = s0\<lparr>o_vals := Some i\<rparr> in
      need Null_deref (ch_new c) s (\<lambda>ne.
        need Null_string (key_value E (v_xpath ne) ''interface'' ''name'') s (\<lambda>intf_name.
          let s = s\<lparr>o_intf_name := intf_name\<rparr> in
          if intf_name = [] then Ret SR_ERR_INVAL_ARG (ocb_emit [Set_error oc_no_name_msg (v_xpath ne)] s)
          else then_flow (oc_switch E c ne s) (\<lambda>s. Next (ocb_emit (free_vals (o_vals s)) s)))))"

definition oc_create :: "ocb \<Rightarrow> (sr_err, ocb) flow" where
  "oc_create s =
     (if o_create s then
        (case oc_build (o_builder s) of
           None \<Rightarrow> Goto (s\<lparr>o_intf := None, o_rc := SR_ERR_INVAL_ARG\<rparr>)
         | Some intf \<Rightarrow> Next (s\<lparr>o_intf := Some intf\<rparr>))
      else Next s)"

definition oc_commit :: "env \<Rightarrow> ocb \<Rightarrow> (sr_err, ocb) flow" where
  "oc_commit E s =
     (if o_create s \<or> o_modify s then
        need Null_deref (o_intf s) s (\<lambda>intf.
          let (r, tr) = call_om_write E (o_trace s) (itf_key E intf) (Obj_itf intf);
              s' = s\<lparr>o_trace := tr\<rparr>
          in attempt r s' (\<lambda>rc.
               if rc \<noteq> RC_OK then Goto (s'\<lparr>o_rc := SR_ERR_OPERATION_FAILED\<rparr>) else Next s'))
      else if o_remove s then
        let (r, tr) = call_om_remove E (o_trace s) (oc_name (o_builder s));
            s' = s\<lparr>o_trace := tr\<rparr>
        in (case r of Some e \<Rightarrow> Throws e s' | None \<Rightarrow> Next s')
      else Next s)"

definition oc_finish :: "env \<Rightarrow> ocb \<Rightarrow> (sr_err, ocb) flow" where
  "oc_finish E s =
     then_flow (oc_create s) (\<lambda>s.
       then_flow (oc_commit E s) (\<lambda>s. Ret SR_ERR_OK (ocb_emit [Free_iter] s)))"

definition oc_cleanup :: "ocb \<Rightarrow> sr_err \<times> effect list" where
  "oc_cleanup s = (o_rc s, free_vals (o_vals s) @ [Free_iter])"

definition oc_interfaces_config_cb ::
    "env \<Rightarrow> sr_session option \<Rightarrow> string option \<Rightarrow> sr_event \<Rightarrow> create_junk \<Rightarrow> trace \<Rightarrow> sr_err result \<times> trace" where
  "oc_interfaces_config_cb E ds xpath event junk tr =
     (if arg_check2 ds xpath then (Returned SR_ERR_INVAL_ARG, tr)
      else if event \<noteq> SR_EV_VERIFY then (Returned SR_ERR_OK, tr)
      else if changes_rc E tr (the xpath) \<noteq> SR_ERR_OK then (Returned SR_ERR_OK, tr @ [Free_iter])
      else leave_callback o_trace oc_cleanup
        (then_flow (foreach_change event (oc_body E) 0 (s_changes (the ds) (the xpath)) (ocb_init junk tr))
          (\<lambda>s. oc_finish E (s\<lparr>o_vals := vals_after_loop E event (o_vals s)\<rparr>))))"

lemmas oc_body_defs =
  oc_body_def oc_switch_def oc_created_def oc_modified_def oc_deleted_def ocb_emit_def free_vals_def

section \<open>What it shares with the ietf callback\<close>

text \<open>The image of the local variables.\<close>

definition icb_of_ocb :: "ocb \<Rightarrow> icb" where
  "icb_of_ocb s =
     \<lparr>icb_intf = o_intf s,
      icb_builder = \<lparr>b_name = ob_name (o_builder s), b_type = ob_type (o_builder s), b_state = ob_state (o_builder s)\<rparr>,
      icb_create = o_create s, icb_remove = o_remove s, icb_modify = o_modify s,
      icb_rc = o_rc s, icb_vals = o_vals s, icb_trace = o_trace s\<rparr>"

text \<open>The changes on which the two agree: those with a new value whose xpath names an interface.\<close>

definition names_interface :: "env \<Rightarrow> change \<Rightarrow> bool" where
  "names_interface E c \<longleftrightarrow>
     (case ch_new c of
        None \<Rightarrow> False
      | Some v \<Rightarrow>
          (case key_value E (v_xpath v) ''interface'' ''name'' of None \<Rightarrow> False | Some n \<Rightarrow> n \<noteq> []))"

interpretation oc_sim: body_simulation "oc_body E" "create_body E" icb_of_ocb "names_interface E" for E
proof
  show "map_flow id icb_of_ocb (oc_body E i c s) = create_body E i c (icb_of_ocb s)"
    if "names_interface E c" for i c s
    using that
    by (cases "ch_op c")
      (auto simp: names_interface_def oc_body_defs create_body_defs icb_of_ocb_def Let_def flow_simps
        oc_builder_defs set_name_def set_type_def set_state_def
        split: option.splits flow_splits)
qed

lemma oc_finish_sim: "map_flow id icb_of_ocb (oc_finish E s) = create_finish E (icb_of_ocb s)"
  by (auto simp: oc_finish_def create_finish_def oc_create_def create_build_def oc_commit_def create_commit_def
      oc_build_def build_def oc_name_def builder_name_def icb_of_ocb_def ocb_emit_def icb_emit_def Let_def
      flow_simps call_om_write_def call_om_remove_def split: option.splits flow_splits)

text \<open>C8: On a batch whose changes all have a new value and name an interface, the openconfig callback
  does exactly what the ietf callback does, call for call and with the same result, whatever
  the uninitialised variables hold; the two pieces of code are copies of each other but for
  their first lines.\<close>

theorem oc_config_is_ietf_create:
  assumes "changes_rc E tr xpath = SR_ERR_OK"
    and "\<forall>c \<in> set (s_changes session xpath). names_interface E c"
  shows "oc_interfaces_config_cb E (Some session) (Some xpath) event junk tr =
    ietf_interface_create_cb E session xpath event junk tr"
proof (cases "event = SR_EV_VERIFY")
  case True
  have init: "icb_of_ocb (ocb_init junk tr) = icb_init junk tr"
    by (simp add: icb_of_ocb_def ocb_init_def icb_init_def oc_builder_new_def interface_builder_new_def)
  have fin: "map_flow id icb_of_ocb (oc_finish E (s\<lparr>o_vals := vals_after_loop E event (o_vals s)\<rparr>)) =
      create_finish E (icb_of_ocb s\<lparr>icb_vals := vals_after_loop E event (icb_vals (icb_of_ocb s))\<rparr>)" for s
    by (simp add: oc_finish_sim) (simp add: icb_of_ocb_def)
  have trc: "icb_trace (icb_of_ocb s) = o_trace s" "icb_cleanup (icb_of_ocb s) = oc_cleanup s" for s
    by (simp_all add: icb_of_ocb_def icb_cleanup_def oc_cleanup_def)
  note sim = oc_sim.callback_sim [where finish = "\<lambda>s. oc_finish E (s\<lparr>o_vals := vals_after_loop E event (o_vals s)\<rparr>)"
      and finish' = "\<lambda>s. create_finish E (s\<lparr>icb_vals := vals_after_loop E event (icb_vals s)\<rparr>)"
      and tr = o_trace and tr' = icb_trace and clean = oc_cleanup and clean' = icb_cleanup, OF assms(2) fin trc]
  from sim [of event 0 "ocb_init junk tr"] True assms(1) show ?thesis
    by (simp add: oc_interfaces_config_cb_def ietf_interface_create_cb_def arg_check2_def init)
qed (simp add: oc_interfaces_config_cb_def ietf_interface_create_cb_def arg_check2_def)

theorem oc_config_is_ietf_create_witness:
  "fst (oc_interfaces_config_cb sample_env (Some (sample_session (sample_create_itf ''host-vpp1''))) (Some ''/x'')
     SR_EV_VERIFY no_junk []) = Returned SR_ERR_OK"
proof -
  let ?s = "sample_session (sample_create_itf ''host-vpp1'')"
  have "\<forall>c \<in> set (s_changes ?s ''/x''). names_interface sample_env c"
    by (simp add: names_interface_def sample_simps)
  from oc_config_is_ietf_create [OF _ this, of "[]" SR_EV_VERIFY no_junk]
  have "oc_interfaces_config_cb sample_env (Some ?s) (Some ''/x'') SR_EV_VERIFY no_junk [] =
      ietf_interface_create_cb sample_env ?s ''/x'' SR_EV_VERIFY no_junk []" by simp
  note same = this
  show ?thesis
    unfolding same
    by (simp add: ietf_interface_create_cb_def create_body_defs flow_simps sample_simps icb_init_def interface_builder_new_def set_name_def set_type_def set_state_def
        create_finish_def create_build_def build_def create_commit_def call_om_write_def Let_def no_junk_def)
qed

section \<open>What it does on its own\<close>

fun oc_emits :: "effect \<Rightarrow> bool" where
  "oc_emits (Itf_set n a) = True"
| "oc_emits (Free_vals i) = True"
| "oc_emits (Set_error m x) = True"
| "oc_emits _ = False"

lemma oc_switch_frame:
  "\<exists>es. o_trace (flow_state (oc_switch E c ne s)) = o_trace s @ es \<and> list_all oc_emits es \<and>
     freed_vals es = [] \<and> iter_frees es = 0 \<and> o_vals (flow_state (oc_switch E c ne s)) = o_vals s"
  by (cases "ch_op c")
    (auto simp: oc_switch_def oc_created_def oc_modified_def oc_deleted_def ocb_emit_def flow_simps trace_simps
      split: option.splits flow_splits)

lemma oc_switch_ends:
  "oc_switch E c ne s \<noteq> Ret r t" "oc_switch E c ne s = Goto t \<Longrightarrow> o_rc t \<noteq> SR_ERR_OK"
  by (cases "ch_op c";
      auto simp: oc_switch_def oc_created_def oc_modified_def oc_deleted_def ocb_emit_def flow_simps
        split: option.splits flow_splits if_splits)+

text \<open>How the body ends, in terms of how the switch ends.\<close>

lemma oc_body_cases:
  obtains
    (fault) f where "oc_body E i c s = Faults f (s\<lparr>o_vals := Some i\<rparr>)"
  | (unnamed) m where
      "oc_body E i c s = Ret SR_ERR_INVAL_ARG (ocb_emit [Set_error oc_no_name_msg m]
        (s\<lparr>o_vals := Some i, o_intf_name := []\<rparr>))"
  | (switch) ne n where "ch_new c = Some ne"
      "oc_body E i c s = then_flow (oc_switch E c ne (s\<lparr>o_vals := Some i, o_intf_name := n\<rparr>))
        (\<lambda>s. Next (ocb_emit (free_vals (o_vals s)) s))"
proof (cases "ch_new c")
  case None
  then have "oc_body E i c s = Faults Null_deref (s\<lparr>o_vals := Some i\<rparr>)"
    by (simp add: oc_body_def flow_simps)
  then show ?thesis by (rule fault)
next
  case (Some ne)
  show ?thesis
  proof (cases "key_value E (v_xpath ne) ''interface'' ''name''")
    case None
    with Some have "oc_body E i c s = Faults Null_string (s\<lparr>o_vals := Some i\<rparr>)"
      by (simp add: oc_body_def flow_simps)
    then show ?thesis by (rule fault)
  next
    fix n assume n: "key_value E (v_xpath ne) ''interface'' ''name'' = Some n"
    show ?thesis
    proof (cases "n = []")
      case True
      with Some n show ?thesis
        by (intro unnamed [of "v_xpath ne"]) (simp add: oc_body_def flow_simps)
    next
      case False
      with Some n show ?thesis
        by (intro switch [of ne n]) (simp_all add: oc_body_def flow_simps)
    qed
  qed
qed

interpretation oc_loop: change_body "oc_body E" o_trace o_vals oc_emits for E
proof
  fix i c s
  show "\<exists>es. o_trace (flow_state (oc_body E i c s)) = o_trace s @ es \<and> list_all oc_emits es"
  proof (cases rule: oc_body_cases [of E i c s])
    case (switch ne n)
    let ?m = "oc_switch E c ne (s\<lparr>o_vals := Some i, o_intf_name := n\<rparr>)"
    from oc_switch_frame [of E c ne "s\<lparr>o_vals := Some i, o_intf_name := n\<rparr>"] switch(2) show ?thesis
      by (cases ?m) (auto simp: flow_simps ocb_emit_def free_vals_def)
  qed (auto simp: flow_simps ocb_emit_def)
next
  fix i c s t
  assume run: "oc_body E i c s = Next t"
  show "o_vals t = Some i \<and> freed_vals (o_trace t) = freed_vals (o_trace s) @ [i] \<and>
      iter_frees (o_trace t) = iter_frees (o_trace s)"
  proof (cases rule: oc_body_cases [of E i c s])
    case (switch ne n)
    let ?m = "oc_switch E c ne (s\<lparr>o_vals := Some i, o_intf_name := n\<rparr>)"
    from oc_switch_frame [of E c ne "s\<lparr>o_vals := Some i, o_intf_name := n\<rparr>"] switch(2) run show ?thesis
      by (cases ?m) (auto simp: flow_simps ocb_emit_def free_vals_def trace_simps)
  qed (use run in auto)
next
  fix i c s t
  assume run: "oc_body E i c s = Goto t"
  show "o_vals t = Some i \<and> freed_vals (o_trace t) = freed_vals (o_trace s) \<and>
      iter_frees (o_trace t) = iter_frees (o_trace s)"
  proof (cases rule: oc_body_cases [of E i c s])
    case (switch ne n)
    let ?m = "oc_switch E c ne (s\<lparr>o_vals := Some i, o_intf_name := n\<rparr>)"
    from oc_switch_frame [of E c ne "s\<lparr>o_vals := Some i, o_intf_name := n\<rparr>"] switch(2) run show ?thesis
      by (cases ?m) (auto simp: flow_simps trace_simps)
  qed (use run in auto)
qed

lemma oc_body_needs_new: "oc_body E i c s = Next t \<Longrightarrow> ch_new c \<noteq> None"
  by (auto simp: oc_body_def flow_Next_iffs Let_def)

lemma oc_body_Goto_error: "oc_body E i c s = Goto t \<Longrightarrow> o_rc t \<noteq> SR_ERR_OK"
proof (cases rule: oc_body_cases [of E i c s])
  case (switch ne n)
  assume "oc_body E i c s = Goto t"
  with switch(2) oc_switch_ends(2) show ?thesis
    by (cases "oc_switch E c ne (s\<lparr>o_vals := Some i, o_intf_name := n\<rparr>)") (auto simp: flow_simps)
qed auto

lemma oc_body_Ret_error: "oc_body E i c s = Ret r t \<Longrightarrow> r \<noteq> SR_ERR_OK"
proof (cases rule: oc_body_cases [of E i c s])
  case (switch ne n)
  assume "oc_body E i c s = Ret r t"
  with switch(2) oc_switch_ends(1) show ?thesis
    by (cases "oc_switch E c ne (s\<lparr>o_vals := Some i, o_intf_name := n\<rparr>)") (auto simp: flow_simps)
qed auto

lemma oc_emits_no_commit: "list_all oc_emits es \<Longrightarrow> filter is_commit es = []"
proof (induction es)
  case (Cons e es)
  then show ?case by (cases e) auto
qed simp

text \<open>C14: No interface is ever removed through openconfig: sysrepo gives no new value with a deletion,
  and the loop reads the xpath of the new value before it looks at the operation.  A batch
  with a deletion never succeeds and commits nothing, and where the deletion comes first the
  null pointer is read at once.\<close>

theorem oc_delete_never_succeeds:
  assumes "changes_rc E tr xpath = SR_ERR_OK" and "c \<in> set (s_changes session xpath)" and "ch_new c = None"
    and "oc_interfaces_config_cb E (Some session) (Some xpath) SR_EV_VERIFY junk tr = (r, t)"
  shows "r \<noteq> Returned SR_ERR_OK \<and> filter is_commit t = filter is_commit tr \<and>
    (c = hd (s_changes session xpath) \<longrightarrow> r = Crashed Null_deref \<and> t = tr)"
proof -
  let ?cs = "s_changes session xpath"
  let ?l = "foreach_change SR_EV_VERIFY (oc_body E) 0 ?cs (ocb_init junk tr)"
  have no_next: "?l \<noteq> Next u" for u
    using foreach_change_Next [of SR_EV_VERIFY "oc_body E" 0 ?cs "ocb_init junk tr" u "\<lambda>c. ch_new c \<noteq> None"]
      oc_body_needs_new assms(2,3) by blast
  have goto: "?l = Goto u \<Longrightarrow> o_rc u \<noteq> SR_ERR_OK" for u
    by (rule foreach_change_Goto [where P = "\<lambda>t. o_rc t \<noteq> SR_ERR_OK"]) (use oc_body_Goto_error in blast)+
  have ret: "?l = Ret q u \<Longrightarrow> q \<noteq> SR_ERR_OK" for q u
    by (rule foreach_change_Ret [where P = "\<lambda>r t. r \<noteq> SR_ERR_OK"]) (use oc_body_Ret_error in blast)+
  from assms(1,4) have run: "leave_callback o_trace oc_cleanup (then_flow ?l
      (\<lambda>s. oc_finish E (s\<lparr>o_vals := vals_after_loop E SR_EV_VERIFY (o_vals s)\<rparr>))) = (r, t)"
    by (simp add: oc_interfaces_config_cb_def arg_check2_def)
  have "o_trace (ocb_init junk tr) = tr" by (simp add: ocb_init_def)
  with oc_loop.loop_extends [where ev = SR_EV_VERIFY and E = E and i = 0 and cs = ?cs and s = "ocb_init junk tr"]
  obtain es where es: "o_trace (flow_state ?l) = tr @ es" "list_all oc_emits es" by auto
  have "filter is_commit (free_vals v @ [Free_iter]) = []" for v
    by (simp add: free_vals_def split: option.splits)
  then have "r \<noteq> Returned SR_ERR_OK \<and> filter is_commit t = filter is_commit tr"
    using run no_next goto ret es oc_emits_no_commit [OF es(2)]
    by (cases ?l) (auto simp: flow_simps oc_cleanup_def)
  moreover have "r = Crashed Null_deref \<and> t = tr" if "c = hd ?cs"
  proof -
    from that assms(2) obtain cs where cs: "?cs = c # cs" by (cases ?cs) auto
    from run show ?thesis
      unfolding cs by (simp add: oc_body_def assms(3) flow_simps ocb_init_def)
  qed
  ultimately show ?thesis by blast
qed

theorem oc_delete_never_succeeds_witness:
  "oc_interfaces_config_cb sample_env
     (Some (sample_session [sample_deleted (sample_leaf ''eth0'' ''name'') (String_val ''eth0'')])) (Some ''/x'')
     SR_EV_VERIFY no_junk [] = (Crashed Null_deref, [])"
proof -
  let ?c = "sample_deleted (sample_leaf ''eth0'' ''name'') (String_val ''eth0'')"
  obtain r t where rt: "oc_interfaces_config_cb sample_env (Some (sample_session [?c])) (Some ''/x'')
      SR_EV_VERIFY no_junk [] = (r, t)" by fastforce
  have "?c \<in> set (s_changes (sample_session [?c]) ''/x'')" "ch_new ?c = None"
    by (simp_all add: sample_deleted_def)
  from oc_delete_never_succeeds [OF _ this rt] rt show ?thesis by simp
qed

text \<open>The early ways out of the callback: a null argument is an error, every event but the
  verification and a failing iterator are answered by success without looking at the changes,
  and a change without an interface name ends the loop at once with an error that leaves the
  iterator and the values of that change to nobody.\<close>

theorem oc_config_early_exits:
  "(ds = None \<or> xp = None \<longrightarrow> oc_interfaces_config_cb E ds xp event junk tr = (Returned SR_ERR_INVAL_ARG, tr)) \<and>
   (event \<noteq> SR_EV_VERIFY \<longrightarrow>
      oc_interfaces_config_cb E (Some session) (Some xpath) event junk tr = (Returned SR_ERR_OK, tr)) \<and>
   (changes_rc E tr xpath \<noteq> SR_ERR_OK \<longrightarrow>
      oc_interfaces_config_cb E (Some session) (Some xpath) SR_EV_VERIFY junk tr = (Returned SR_ERR_OK, tr @ [Free_iter])) \<and>
   (changes_rc E tr xpath = SR_ERR_OK \<and> s_changes session xpath = c # cs \<and> ch_new c = Some v \<and>
    key_value E (v_xpath v) ''interface'' ''name'' = Some [] \<longrightarrow>
      oc_interfaces_config_cb E (Some session) (Some xpath) SR_EV_VERIFY junk tr =
        (Returned SR_ERR_INVAL_ARG, tr @ [Set_error oc_no_name_msg (v_xpath v)]))"
  by (auto simp: oc_interfaces_config_cb_def arg_check2_def oc_body_def ocb_emit_def ocb_init_def flow_simps)

theorem oc_config_early_exits_witness:
  "oc_interfaces_config_cb sample_env
     (Some (sample_session [sample_created (sample_leaf [] ''name'') (String_val [])])) (Some ''/x'')
     SR_EV_VERIFY no_junk [] =
   (Returned SR_ERR_INVAL_ARG, [Set_error oc_no_name_msg (sample_leaf [] ''name'')])"
proof -
  let ?c = "sample_created (sample_leaf [] ''name'') (String_val [])"
  have v: "ch_new ?c = Some (sample_val (sample_leaf [] ''name'') (String_val []))"
    "v_xpath (sample_val (sample_leaf [] ''name'') (String_val [])) = sample_leaf [] ''name''"
    by (simp_all add: sample_created_def sample_val_def)
  have k: "sample_key_value (sample_leaf [] ''name'') ''interface'' ''name'' = Some []"
    by (simp add: sample_leaf_def sample_key_value_def)
  from oc_config_early_exits [of None None sample_env SR_EV_VERIFY no_junk "[]" "sample_session [?c]" "''/x''" ?c "[]"
      "sample_val (sample_leaf [] ''name'') (String_val [])"]
    v k show ?thesis
    by simp
qed

end
