(* ===== verification/Oc_State.thy ===== *)
theory Oc_State
  imports Ietf_State
begin

unbundle bit_operations_syntax

text \<open>
  \<^verbatim>\<open>plugins/openconfig/openconfig_interfaces.cpp\<close>, the operational data of one
  interface: \<open>oc_interfaces_state_cb\<close>.
\<close>

definition xpath_size :: nat where
  "xpath_size = 2000"

text \<open>The xpath of the reply, printed into a buffer of \<open>XPATH_SIZE\<close> bytes.\<close>

definition oc_xpath_root :: "string \<Rightarrow> string" where
  "oc_xpath_root intf_name =
     snprintf xpath_size
       (''/openconfig-interfaces:interfaces/interface[name='' @ [CHR 39] @ intf_name @ [CHR 39] @ '']/state'')"

definition oc_state_values :: "env \<Rightarrow> string \<Rightarrow> itf_details \<Rightarrow> sr_val list" where
  "oc_state_values E root d =
     [\<lparr>v_xpath = root @ ''/name'', v_type = SR_STRING_T, v_data = String_val (d_name d)\<rparr>,
      \<lparr>v_xpath = root @ ''/type'', v_type = SR_IDENTITYREF_T, v_data = String_val ''ianaift:ethernetCsmacd''\<rparr>,
      \<lparr>v_xpath = root @ ''/mtu'', v_type = SR_UINT16_T, v_data = Uint16_val (d_link_mtu d)\<rparr>,
      \<lparr>v_xpath = root @ ''/enabled'', v_type = SR_BOOL_T, v_data = Bool_val (d_flags d \<noteq> 0)\<rparr>,
      \<lparr>v_xpath = root @ ''/ifindex'', v_type = SR_UINT32_T, v_data = Uint32_val (d_sw_if_index d)\<rparr>,
      \<lparr>v_xpath = root @ ''/admin-status'', v_type = SR_ENUM_T,
       v_data = String_val (if d_flags d = flag_admin_up E then ''UP'' else ''DOWN'')\<rparr>,
      \<lparr>v_xpath = root @ ''/oper-status'', v_type = SR_ENUM_T,
       v_data = String_val (if d_flags d = flag_link_up E then ''UP'' else ''DOWN'')\<rparr>]"

text \<open>
  The callback; its arguments \<open>values\<close> and \<open>values_cnt\<close> only matter as far as they
  may be null.
\<close>

definition oc_interfaces_state_cb ::
    "env \<Rightarrow> string option \<Rightarrow> unit option \<Rightarrow> unit option \<Rightarrow> trace \<Rightarrow> sr_err result \<times> out_values \<times> trace" where
  "oc_interfaces_state_cb E xpath values values_cnt tr =
     (if arg_check3 xpath values values_cnt then (Returned SR_ERR_INVAL_ARG, Untouched, tr)
      else
        (case key_value E (the xpath) ''interface'' ''name'' of
           None \<Rightarrow> (Crashed Null_string, Untouched, tr)
         | Some intf_name \<Rightarrow>
             if intf_name = [] then (Returned SR_ERR_INVAL_ARG, Untouched, tr)
             else
               let xpath_root = oc_xpath_root intf_name;
                   vc = 7;
                   rc = new_values_rc E tr vc
               in if rc \<noteq> SR_ERR_OK then (Returned rc, Untouched, tr)
                  else
                    (case issue E (interface_dump_one intf_name) tr of
                       (Crashed f, dump, tr) \<Rightarrow> (Crashed f, Untouched, tr)
                     | (Raised e, dump, tr) \<Rightarrow> (Raised e, Untouched, tr)
                     | (Returned r, [], tr) \<Rightarrow> (Crashed End_deref, Untouched, tr)
                     | (Returned r, d # dump, tr) \<Rightarrow>
                         leave_reply (put_values (oc_state_values E xpath_root d) (new_values vc)) tr)))"

lemma length_oc_state_values [simp]: "length (oc_state_values E root d) = 7"
  by (simp add: oc_state_values_def)

text \<open>C19: The state of one interface, for a name that fits the message: the callback asks VPP for that
  interface and fills exactly the seven cells it allocated from the first answer, whatever
  interface that answer is about; when VPP knows no such interface there is no answer and the
  callback reads past the end of an empty list.\<close>

theorem oc_state_reply:
  assumes "key_value E xpath ''interface'' ''name'' = Some n" and "n \<noteq> []"
    and "unat (q_length (new_request E tr)) \<le> length (q_buf (new_request E tr))"
    and "length n \<le> length (q_buf (new_request E tr))"
    and "q = named_request n (new_request E tr)"
  shows "oc_interfaces_state_cb E (Some xpath) (Some ()) (Some ()) tr =
    (if new_values_rc E tr 7 \<noteq> SR_ERR_OK then (Returned (new_values_rc E tr 7), Untouched, tr)
     else
       (case itf_dump E tr q of
          [] \<Rightarrow> (Crashed End_deref, Untouched, tr @ [Hw_dump q])
        | d # _ \<Rightarrow>
            (Returned SR_ERR_OK,
             Values \<lparr>r_vals = map Some (oc_state_values E (oc_xpath_root n) d), r_cnt = 7\<rparr>,
             tr @ [Hw_dump q])))"
proof -
  have "put_values (oc_state_values E root d) (new_values 7) =
      Next \<lparr>r_vals = map Some (oc_state_values E root d), r_cnt = 7\<rparr>" for root d
    using put_values_fit [of "[]" "oc_state_values E root d" 7]
    by (simp add: new_values_reply) (simp add: reply_of_def)
  with assms show ?thesis
    by (simp add: oc_interfaces_state_cb_def arg_check3_def issue_def fill_request_named Let_def flow_simps
        split: list.splits)
qed

theorem oc_state_reply_witness:
  "fst (oc_interfaces_state_cb sample_known_env (Some (sample_leaf ''eth0'' ''state'')) (Some ()) (Some ()) []) =
     Crashed End_deref"
proof -
  have env: "new_request sample_known_env t = new_request sample_env t" "itf_dump sample_known_env t q = []"
    "new_values_rc sample_known_env t k = SR_ERR_OK" for t q k
    by (simp_all add: sample_known_env_def)
  have "key_value sample_known_env (sample_leaf ''eth0'' ''state'') ''interface'' ''name'' = Some ''eth0''"
    by (simp add: sample_leaf_def sample_key_value_def)
  from oc_state_reply [OF this _ _ _ refl, of "[]"] show ?thesis
    by (simp add: env)
qed

text \<open>The text of a leaf in a list of values, and its truth value.\<close>

definition text_of :: "sr_val list \<Rightarrow> string \<Rightarrow> string option" where
  "text_of vs xp = Option.bind (find (\<lambda>v. v_xpath v = xp) vs) (\<lambda>v. string_val (v_data v))"

definition bool_of :: "sr_val list \<Rightarrow> string \<Rightarrow> bool option" where
  "bool_of vs xp = Option.bind (find (\<lambda>v. v_xpath v = xp) vs) (\<lambda>v. bool_val (v_data v))"

text \<open>The leaves of one reply contradict each other: an interface that is administratively up and
  running is reported enabled, with both its administrative and its operational status
  down.\<close>

theorem oc_state_up_reported_down:
  assumes "d_flags d = (flag_admin_up E OR flag_link_up E)"
    and "flag_admin_up E AND flag_link_up E = 0" and "flag_admin_up E \<noteq> 0" and "flag_link_up E \<noteq> 0"
    and "vs = oc_state_values E root d"
  shows "bool_of vs (root @ ''/enabled'') = Some True \<and>
    text_of vs (root @ ''/admin-status'') = Some ''DOWN'' \<and> text_of vs (root @ ''/oper-status'') = Some ''DOWN''"
proof -
  let ?a = "flag_admin_up E" and ?l = "flag_link_up E"
  have "?l AND (?a OR ?l) = ?l" "?a AND (?a OR ?l) = ?a" by (simp_all add: ac_simps)
  moreover have "?l AND ?a = 0" using assms(2) by (simp only: and.commute)
  ultimately have "?a OR ?l \<noteq> ?a" "?a OR ?l \<noteq> ?l" "?a OR ?l \<noteq> 0"
    using assms(2-4) by (metis, metis, metis and_zero_eq)
  then show ?thesis
    by (simp add: assms(1,5) bool_of_def text_of_def oc_state_values_def)
qed

theorem oc_state_up_reported_down_witness:
  "text_of (oc_state_values (sample_dump_env 3) ''/r'' (sample_details 3)) ''/r/admin-status'' = Some ''DOWN''"
  using oc_state_up_reported_down [of "sample_details 3" "sample_dump_env 3" _ "''/r''", OF _ _ _ _ refl]
  by (simp add: sample_details_def)

end
