(* ===== verification/Ietf_Nat.thy ===== *)
theory Ietf_Nat
  imports Change_Loop Reply_Values
begin

text \<open>
  \<^verbatim>\<open>plugins/ietf/ietf_nat.cpp\<close>: the table of static mappings, the class
  \<open>nat_static_builder\<close>, the configuration callback \<open>nat_mapping_table_config_cb\<close>, the
  one that only intercepts the creation of instances, and the capabilities.
\<close>

section \<open>The table and the builder\<close>

type_synonym nat_pair = "ip_address \<times> ip_address"
type_synonym nat_table = "u32 \<rightharpoonup> nat_pair"

record nat_static_builder =
  nb_type :: string
  nb_internal_src :: prefix
  nb_external_src :: prefix
  nb_internal_dest :: prefix
  nb_external_dest :: prefix
  nb_inside :: ip_address
  nb_outside :: ip_address

text \<open>The default constructor; the lengths of the four prefixes are not initialised.\<close>

definition nat_static_builder_new :: "u16 \<times> u16 \<times> u16 \<times> u16 \<Rightarrow> nat_static_builder" where
  "nat_static_builder_new j =
     (case j of (a, b, c, d) \<Rightarrow>
       \<lparr>nb_type = [], nb_internal_src = prefix_default a, nb_external_src = prefix_default b,
        nb_internal_dest = prefix_default c, nb_external_dest = prefix_default d,
        nb_inside = ip_default, nb_outside = ip_default\<rparr>)"

definition nat_build :: "env \<Rightarrow> nat_static_builder \<Rightarrow> obj option \<times> nat_static_builder" where
  "nat_build E b =
     (if nb_type b \<noteq> ''static'' then (None, b)
      else if \<not> prefix_empty E (nb_internal_src b) \<and> \<not> prefix_empty E (nb_external_src b) then
        let b' = b\<lparr>nb_inside := prefix_address (nb_internal_src b),
                   nb_outside := prefix_address (nb_external_src b)\<rparr>
        in (Some (Obj_nat (nb_inside b') (nb_outside b')), b')
      else if \<not> prefix_empty E (nb_internal_dest b) \<and> \<not> prefix_empty E (nb_external_dest b) then
        let b' = b\<lparr>nb_inside := prefix_address (nb_internal_dest b),
                   nb_outside := prefix_address (nb_external_dest b)\<rparr>
        in (Some (Obj_nat (nb_inside b') (nb_outside b')), b')
      else (None, b))"

definition nat_inside :: "nat_static_builder \<Rightarrow> ip_address" where
  "nat_inside b = nb_inside b"

definition nat_outside :: "nat_static_builder \<Rightarrow> ip_address" where
  "nat_outside b = nb_outside b"

definition nat_set_type :: "string \<Rightarrow> nat_static_builder \<Rightarrow> nat_static_builder" where
  "nat_set_type t b = b\<lparr>nb_type := t\<rparr>"

text \<open>The setters of the prefixes; the exceptions of the parser pass through them.\<close>

definition nat_set_internal_src :: "env \<Rightarrow> string \<Rightarrow> nat_static_builder \<Rightarrow> exn + nat_static_builder" where
  "nat_set_internal_src E p b =
     (case make_prefix E p of Inl e \<Rightarrow> Inl e | Inr q \<Rightarrow> Inr (b\<lparr>nb_internal_src := q\<rparr>))"

definition nat_set_external_src :: "env \<Rightarrow> string \<Rightarrow> nat_static_builder \<Rightarrow> exn + nat_static_builder" where
  "nat_set_external_src E p b =
     (case make_prefix E p of Inl e \<Rightarrow> Inl e | Inr q \<Rightarrow> Inr (b\<lparr>nb_external_src := q\<rparr>))"

definition nat_set_internal_dest :: "env \<Rightarrow> string \<Rightarrow> nat_static_builder \<Rightarrow> exn + nat_static_builder" where
  "nat_set_internal_dest E p b =
     (case make_prefix E p of Inl e \<Rightarrow> Inl e | Inr q \<Rightarrow> Inr (b\<lparr>nb_internal_dest := q\<rparr>))"

definition nat_set_external_dest :: "env \<Rightarrow> string \<Rightarrow> nat_static_builder \<Rightarrow> exn + nat_static_builder" where
  "nat_set_external_dest E p b =
     (case make_prefix E p of Inl e \<Rightarrow> Inl e | Inr q \<Rightarrow> Inr (b\<lparr>nb_external_dest := q\<rparr>))"

lemma nat_build_eq:
  "nat_build E b =
     (if nb_type b = ''static'' then
        (Some (Obj_nat (prefix_address (nb_internal_src b)) (prefix_address (nb_external_src b))),
         b\<lparr>nb_inside := prefix_address (nb_internal_src b), nb_outside := prefix_address (nb_external_src b)\<rparr>)
      else (None, b))"
  by (simp add: nat_build_def)

text \<open>The builder of a mapping, for every content of the builder: a static mapping is always built,
  and always from the pair of source addresses, because a prefix never counts as empty; the
  pair of destination addresses is never used, and a source address that was not given is
  the address 0.0.0.0 of a default constructed prefix.\<close>

theorem nat_build_source_pair:
  "nat_build E b =
     (if nb_type b = ''static'' then
        (Some (Obj_nat (prefix_address (nb_internal_src b)) (prefix_address (nb_external_src b))),
         b\<lparr>nb_inside := prefix_address (nb_internal_src b), nb_outside := prefix_address (nb_external_src b)\<rparr>)
      else (None, b))
   \<and> prefix_address (nb_internal_src (nat_static_builder_new j)) = Ip_v4 0
   \<and> prefix_address (nb_external_src (nat_static_builder_new j)) = Ip_v4 0"
  by (simp add: nat_build_eq nat_static_builder_new_def prefix_default_def prefix_address_def ip_default_def
      split: prod.splits)

section \<open>The callback\<close>

text \<open>
  What the uninitialised variables hold: \<open>create\<close>, \<open>remove\<close>, \<open>xindex\<close> and the
  lengths of the prefixes.
\<close>

record nat_junk =
  nj_create :: bool
  nj_remove :: bool
  nj_xindex :: u32
  nj_lens :: "u16 \<times> u16 \<times> u16 \<times> u16"

text \<open>The local variables, and the table, which is static.\<close>

record ncb =
  n_builder :: nat_static_builder
  n_xindex :: u32
  n_create :: bool
  n_remove :: bool
  n_rc :: sr_err
  n_vals :: "nat option"
  n_trace :: trace
  n_table :: nat_table

definition ncb_init :: "nat_junk \<Rightarrow> nat_table \<Rightarrow> trace \<Rightarrow> ncb" where
  "ncb_init j table tr =
     \<lparr>n_builder = nat_static_builder_new (nj_lens j), n_xindex = nj_xindex j,
      n_create = nj_create j, n_remove = nj_remove j, n_rc = SR_ERR_OK, n_vals = None,
      n_trace = tr, n_table = table\<rparr>"

definition ncb_emit :: "effect list \<Rightarrow> ncb \<Rightarrow> ncb" where
  "ncb_emit es s = s\<lparr>n_trace := n_trace s @ es\<rparr>"

text \<open>A setter of a prefix, applied to the text of the value.\<close>

definition set_prefix ::
    "(string \<Rightarrow> nat_static_builder \<Rightarrow> exn + nat_static_builder) \<Rightarrow> sr_val \<Rightarrow> ncb \<Rightarrow> (sr_err, ncb) flow" where
  "set_prefix setter ne s =
     need Bad_union (string_val (v_data ne)) s (\<lambda>p.
       attempt (setter p (n_builder s)) s (\<lambda>b. Next (s\<lparr>n_builder := b\<rparr>)))"

definition nat_created :: "env \<Rightarrow> change \<Rightarrow> ncb \<Rightarrow> (sr_err, ncb) flow" where
  "nat_created E c s =
     need Null_deref (ch_new c) s (\<lambda>ne.
       if node_name_eq E (v_xpath ne) ''index'' then
         need Bad_union (uint32_val (v_data ne)) s (\<lambda>x.
           Next (s\<lparr>n_xindex := x, n_create := True\<rparr>))
       else if node_name_eq E (v_xpath ne) ''type'' then
         need Bad_union (string_val (v_data ne)) s (\<lambda>t.
           Next (s\<lparr>n_builder := nat_set_type t (n_builder s)\<rparr>))
       else if node_name_eq E (v_xpath ne) ''internal-src-address'' then
         set_prefix (nat_set_internal_src E) ne s
       else if node_name_eq E (v_xpath ne) ''external-src-address'' then
         set_prefix (nat_set_external_src E) ne s
       else if node_name_eq E (v_xpath ne) ''internal-dst-address'' then
         set_prefix (nat_set_internal_dest E) ne s
       else if node_name_eq E (v_xpath ne) ''external-dst-address'' then
         set_prefix (nat_set_external_dest E) ne s
       else Next s)"

definition nat_deleted :: "env \<Rightarrow> change \<Rightarrow> ncb \<Rightarrow> (sr_err, ncb) flow" where
  "nat_deleted E c s =
     need Null_deref (ch_old c) s (\<lambda>ol.
       if node_name_eq E (v_xpath ol) ''index'' then
         need Bad_union (uint32_val (v_data ol)) s (\<lambda>x.
           Next (s\<lparr>n_xindex := x, n_remove := True\<rparr>))
       else Next s)"

definition nat_switch :: "env \<Rightarrow> change \<Rightarrow> ncb \<Rightarrow> (sr_err, ncb) flow" where
  "nat_switch E c s =
     (case ch_op c of
        SR_OP_CREATED \<Rightarrow> nat_created E c s
      | SR_OP_DELETED \<Rightarrow> nat_deleted E c s
      | SR_OP_MODIFIED \<Rightarrow> Goto (s\<lparr>n_rc := SR_ERR_UNSUPPORTED\<rparr>)
      | SR_OP_MOVED \<Rightarrow> Goto (s\<lparr>n_rc := SR_ERR_UNSUPPORTED\<rparr>))"

definition nat_body :: "env \<Rightarrow> nat \<Rightarrow> change \<Rightarrow> ncb \<Rightarrow> (sr_err, ncb) flow" where
  "nat_body E i c s0 =
     then_flow (nat_switch E c (s0\<lparr>n_vals := Some i\<rparr>)) (\<lambda>s. Next (ncb_emit (free_vals (n_vals s)) s))"

text \<open>The key of an entry in VOM: its index in decimal.\<close>

definition nat_key :: "u32 \<Rightarrow> string" where
  "nat_key xindex = dec (unat xindex)"

text \<open>What follows the loop; the iterator is given back first.\<close>

definition nat_write :: "env \<Rightarrow> ncb \<Rightarrow> (sr_err, ncb) flow" where
  "nat_write E s =
     (case nat_build E (n_builder s) of
        (None, b) \<Rightarrow> Goto (s\<lparr>n_builder := b, n_rc := SR_ERR_INVAL_ARG\<rparr>)
      | (Some ns, b) \<Rightarrow>
          let (r, tr) = call_om_write E (n_trace s) (nat_key (n_xindex s)) ns;
              s' = s\<lparr>n_builder := b, n_trace := tr\<rparr>
          in attempt r s' (\<lambda>rc.
               if rc \<noteq> RC_OK then Goto (s'\<lparr>n_rc := SR_ERR_OPERATION_FAILED\<rparr>)
               else Next (s'\<lparr>n_table := (n_table s')(n_xindex s' \<mapsto> (nat_inside b, nat_outside b))\<rparr>)))"

definition nat_erase :: "env \<Rightarrow> ncb \<Rightarrow> (sr_err, ncb) flow" where
  "nat_erase E s =
     (let (r, tr) = call_om_remove E (n_trace s) (nat_key (n_xindex s));
          s' = s\<lparr>n_trace := tr\<rparr>
      in (case r of
            Some e \<Rightarrow> Throws e s'
          | None \<Rightarrow> Next (s'\<lparr>n_table := (n_table s')(n_xindex s' := None)\<rparr>)))"

definition nat_finish :: "env \<Rightarrow> ncb \<Rightarrow> (sr_err, ncb) flow" where
  "nat_finish E s0 =
     (let s = ncb_emit [Free_iter] s0 in
      then_flow
        (if n_create s then nat_write E s else if n_remove s then nat_erase E s else Next s)
        (Ret SR_ERR_OK))"

definition nat_cleanup :: "ncb \<Rightarrow> sr_err \<times> effect list" where
  "nat_cleanup s = (n_rc s, free_vals (n_vals s) @ [Free_iter])"

definition nat_run :: "env \<Rightarrow> change list \<Rightarrow> ncb \<Rightarrow> (sr_err, ncb) flow" where
  "nat_run E cs s =
     then_flow (foreach_change SR_EV_VERIFY (nat_body E) 0 cs s)
       (\<lambda>s. nat_finish E (s\<lparr>n_vals := vals_after_loop E SR_EV_VERIFY (n_vals s)\<rparr>))"

text \<open>
  The callback: result, trace and the table it leaves.  When no iterator is given the cleanup
  frees a pointer that was never initialised, unless the library has cleared it.
\<close>

definition nat_mapping_table_config_cb ::
    "env \<Rightarrow> sr_session option \<Rightarrow> string option \<Rightarrow> sr_event \<Rightarrow> nat_junk \<Rightarrow> nat_table \<Rightarrow> trace \<Rightarrow>
     sr_err result \<times> trace \<times> nat_table" where
  "nat_mapping_table_config_cb E ds xpath event junk table tr =
     (if arg_check2 ds xpath then (Returned SR_ERR_INVAL_ARG, tr, table)
      else if event \<noteq> SR_EV_VERIFY then (Returned SR_ERR_OK, tr, table)
      else
        let rc = changes_rc E tr (the xpath) in
        if rc \<noteq> SR_ERR_OK then
          (if failed_iter_nulls E then (Returned rc, tr @ [Free_iter], table) else (Crashed Wild_free, tr, table))
        else
          let m = nat_run E (s_changes (the ds) (the xpath)) (ncb_init junk table tr);
              (r, tr') = leave_callback n_trace nat_cleanup m
          in (r, tr', n_table (flow_state m)))"

definition nat_instance_config_cb :: "sr_session option \<Rightarrow> string option \<Rightarrow> sr_event \<Rightarrow> trace \<Rightarrow> sr_err result \<times> trace" where
  "nat_instance_config_cb ds xpath event tr = (Returned SR_ERR_OK, tr)"

definition nat_cap_state_cb :: "env \<Rightarrow> string \<Rightarrow> trace \<Rightarrow> sr_err result \<times> out_values \<times> trace" where
  "nat_cap_state_cb E xpath tr =
     (let vc = 1;
          rc = new_values_rc E tr vc
      in if rc \<noteq> SR_ERR_OK then (Returned SR_ERR_NOMEM, Null_values, tr)
         else leave_reply
           (put_value \<lparr>v_xpath = xpath @ ''/static-mapping'', v_type = SR_BOOL_T, v_data = Bool_val True\<rparr>
             (new_values vc)) tr)"

section \<open>What a change asks for\<close>

datatype nat_field = Internal_src | External_src | Internal_dst | External_dst

datatype nat_action =
  Nat_index u32 | Nat_type string | Nat_addr nat_field prefix | Nat_drop u32 | Nat_skip

definition addr_action :: "env \<Rightarrow> nat_field \<Rightarrow> sr_val \<Rightarrow> nat_action option" where
  "addr_action E f v =
     Option.bind (string_val (v_data v)) (\<lambda>p.
       case make_prefix E p of Inl e \<Rightarrow> None | Inr q \<Rightarrow> Some (Nat_addr f q))"

text \<open>
  \<open>None\<close> for a change without the values its operation promises, with an address that
  does not parse, or of an operation that is not supported.
\<close>

definition nat_action_of :: "env \<Rightarrow> change \<Rightarrow> nat_action option" where
  "nat_action_of E c =
     (case ch_op c of
        SR_OP_CREATED \<Rightarrow>
          Option.bind (ch_new c) (\<lambda>v.
            if node_name_eq E (v_xpath v) ''index'' then map_option Nat_index (uint32_val (v_data v))
            else if node_name_eq E (v_xpath v) ''type'' then map_option Nat_type (string_val (v_data v))
            else if node_name_eq E (v_xpath v) ''internal-src-address'' then addr_action E Internal_src v
            else if node_name_eq E (v_xpath v) ''external-src-address'' then addr_action E External_src v
            else if node_name_eq E (v_xpath v) ''internal-dst-address'' then addr_action E Internal_dst v
            else if node_name_eq E (v_xpath v) ''external-dst-address'' then addr_action E External_dst v
            else Some Nat_skip)
      | SR_OP_DELETED \<Rightarrow>
          Option.bind (ch_old c) (\<lambda>v.
            if node_name_eq E (v_xpath v) ''index'' then map_option Nat_drop (uint32_val (v_data v))
            else Some Nat_skip)
      | _ \<Rightarrow> None)"

fun nat_apply :: "nat_action \<Rightarrow> ncb \<Rightarrow> ncb" where
  "nat_apply (Nat_index x) s = s\<lparr>n_xindex := x, n_create := True\<rparr>"
| "nat_apply (Nat_type t) s = s\<lparr>n_builder := nat_set_type t (n_builder s)\<rparr>"
| "nat_apply (Nat_addr Internal_src q) s = s\<lparr>n_builder := (n_builder s)\<lparr>nb_internal_src := q\<rparr>\<rparr>"
| "nat_apply (Nat_addr External_src q) s = s\<lparr>n_builder := (n_builder s)\<lparr>nb_external_src := q\<rparr>\<rparr>"
| "nat_apply (Nat_addr Internal_dst q) s = s\<lparr>n_builder := (n_builder s)\<lparr>nb_internal_dest := q\<rparr>\<rparr>"
| "nat_apply (Nat_addr External_dst q) s = s\<lparr>n_builder := (n_builder s)\<lparr>nb_external_dest := q\<rparr>\<rparr>"
| "nat_apply (Nat_drop x) s = s\<lparr>n_xindex := x, n_remove := True\<rparr>"
| "nat_apply Nat_skip s = s"

fun nat_index_of :: "nat_action \<Rightarrow> u32 option" where
  "nat_index_of (Nat_index x) = Some x"
| "nat_index_of (Nat_drop x) = Some x"
| "nat_index_of _ = None"

fun nat_type_of :: "nat_action \<Rightarrow> string option" where
  "nat_type_of (Nat_type t) = Some t"
| "nat_type_of _ = None"

fun nat_addr_of :: "nat_field \<Rightarrow> nat_action \<Rightarrow> ip_address option" where
  "nat_addr_of f (Nat_addr g q) = (if f = g then Some (prefix_address q) else None)"
| "nat_addr_of f _ = None"

definition nat_actions :: "env \<Rightarrow> change list \<Rightarrow> nat_action list" where
  "nat_actions E cs = map (\<lambda>c. the (nat_action_of E c)) cs"

lemmas nat_body_defs =
  nat_body_def nat_switch_def nat_created_def nat_deleted_def set_prefix_def ncb_emit_def free_vals_def
  nat_set_internal_src_def nat_set_external_src_def nat_set_internal_dest_def nat_set_external_dest_def

lemma nat_apply_frame [simp]:
  "n_trace (nat_apply a s) = n_trace s"
  "n_vals (nat_apply a s) = n_vals s"
  "n_table (nat_apply a s) = n_table s"
  "n_rc (nat_apply a s) = n_rc s"
  "nat_apply a (s\<lparr>n_vals := v\<rparr>) = (nat_apply a s)\<lparr>n_vals := v\<rparr>"
  "nat_apply a (s\<lparr>n_trace := t\<rparr>) = (nat_apply a s)\<lparr>n_trace := t\<rparr>"
  by (cases "(a, s)" rule: nat_apply.cases; simp)+

lemma fold_nat_apply_frame [simp]:
  "n_trace (fold nat_apply as s) = n_trace s"
  "n_vals (fold nat_apply as s) = n_vals s"
  "n_table (fold nat_apply as s) = n_table s"
  "n_rc (fold nat_apply as s) = n_rc s"
  by (induction as arbitrary: s) simp_all

lemma fold_nat_apply_commute [simp]:
  "fold nat_apply as (s\<lparr>n_vals := v\<rparr>) = (fold nat_apply as s)\<lparr>n_vals := v\<rparr>"
  "fold nat_apply as (s\<lparr>n_trace := t\<rparr>) = (fold nat_apply as s)\<lparr>n_trace := t\<rparr>"
  by (induction as arbitrary: s) simp_all

lemma nat_switch_action:
  assumes "nat_action_of E c = Some a"
  shows "nat_switch E c s = Next (nat_apply a s)"
  using assms
  by (cases "ch_op c")
    (auto simp: nat_action_of_def addr_action_def nat_switch_def nat_created_def nat_deleted_def set_prefix_def
      nat_set_internal_src_def nat_set_external_src_def nat_set_internal_dest_def nat_set_external_dest_def
      flow_simps split: bind_splits if_splits sum.splits)

lemma nat_loop_actions:
  assumes "\<forall>c \<in> set cs. nat_action_of E c \<noteq> None"
  shows "foreach_change SR_EV_VERIFY (nat_body E) i cs s =
    Next ((fold nat_apply (nat_actions E cs) s)
      \<lparr>n_vals := (if cs = [] then n_vals s else Some (i + length cs - 1)),
       n_trace := n_trace s @ map Free_vals [i..<i + length cs]\<rparr>)"
  using assms
proof (induction cs arbitrary: i s)
  case Nil
  then show ?case by (simp add: nat_actions_def)
next
  case (Cons c cs)
  then obtain a where a: "nat_action_of E c = Some a" by auto
  have "map Free_vals [i..<i + length (c # cs)] = Free_vals i # map Free_vals [Suc i..<Suc i + length cs]"
    by (simp add: upt_conv_Cons del: upt_Suc)
  with Cons a show ?case
    by (simp add: nat_body_def nat_switch_action [OF a] ncb_emit_def free_vals_def flow_simps nat_actions_def
        del: upt_Suc)
qed

text \<open>The variables after a batch.\<close>

lemma fold_nat_apply_builder:
  "nb_type (n_builder (fold nat_apply as s)) = last (nb_type (n_builder s) # List.map_filter nat_type_of as)"
  "prefix_address (nb_internal_src (n_builder (fold nat_apply as s))) =
     last (prefix_address (nb_internal_src (n_builder s)) # List.map_filter (nat_addr_of Internal_src) as)"
  "prefix_address (nb_external_src (n_builder (fold nat_apply as s))) =
     last (prefix_address (nb_external_src (n_builder s)) # List.map_filter (nat_addr_of External_src) as)"
  "n_xindex (fold nat_apply as s) = last (n_xindex s # List.map_filter nat_index_of as)"
proof (induction as arbitrary: s)
  case (Cons a as)
  {
    case 1 from Cons.IH(1) show ?case by (cases "(a, s)" rule: nat_apply.cases) (auto simp: nat_set_type_def)
  next
    case 2 from Cons.IH(2) show ?case by (cases "(a, s)" rule: nat_apply.cases) (auto simp: nat_set_type_def)
  next
    case 3 from Cons.IH(3) show ?case by (cases "(a, s)" rule: nat_apply.cases) (auto simp: nat_set_type_def)
  next
    case 4 from Cons.IH(4) show ?case by (cases "(a, s)" rule: nat_apply.cases) auto
  }
qed simp_all

lemma fold_nat_apply_flags:
  "n_create (fold nat_apply as s) = (n_create s \<or> (\<exists>x. Nat_index x \<in> set as))"
  "n_remove (fold nat_apply as s) = (n_remove s \<or> (\<exists>x. Nat_drop x \<in> set as))"
proof (induction as arbitrary: s)
  case (Cons a as)
  {
    case 1 from Cons.IH(1) show ?case by (cases "(a, s)" rule: nat_apply.cases) auto
  next
    case 2 from Cons.IH(2) show ?case by (cases "(a, s)" rule: nat_apply.cases) auto
  }
qed simp_all

lemmas fold_nat_apply_simps = fold_nat_apply_builder fold_nat_apply_flags

section \<open>Creation and deletion\<close>

definition nat_indices :: "nat_action list \<Rightarrow> u32 list" where
  "nat_indices as = List.map_filter nat_index_of as"

definition nat_requested :: "nat_field \<Rightarrow> nat_action list \<Rightarrow> ip_address" where
  "nat_requested f as = last (ip_default # List.map_filter (nat_addr_of f) as)"

lemma ncb_init_fields [simp]:
  "nb_type (n_builder (ncb_init j table tr)) = []"
  "prefix_address (nb_internal_src (n_builder (ncb_init j table tr))) = ip_default"
  "prefix_address (nb_external_src (n_builder (ncb_init j table tr))) = ip_default"
  "n_xindex (ncb_init j table tr) = nj_xindex j"
  "n_create (ncb_init j table tr) = nj_create j"
  "n_remove (ncb_init j table tr) = nj_remove j"
  "n_table (ncb_init j table tr) = table"
  "n_vals (ncb_init j table tr) = None"
  "n_trace (ncb_init j table tr) = tr"
  by (simp_all add: ncb_init_def nat_static_builder_new_def prefix_default_def prefix_address_def split: prod.splits)

lemma nat_cb_local:
  assumes "changes_rc E tr xpath = SR_ERR_OK"
    and "cs = s_changes session xpath" and "n = length cs"
    and "\<forall>c \<in> set cs. nat_action_of E c \<noteq> None"
    and "s = (fold nat_apply (nat_actions E cs) (ncb_init junk table tr))
        \<lparr>n_trace := loop_trace n tr,
         n_vals := vals_after_loop E SR_EV_VERIFY (if n = 0 then None else Some (n - 1))\<rparr>"
  shows "nat_mapping_table_config_cb E (Some session) (Some xpath) SR_EV_VERIFY junk table tr =
    (let (r, tr') = leave_callback n_trace nat_cleanup (nat_finish E s)
     in (r, tr', n_table (flow_state (nat_finish E s))))"
proof -
  have "nat_run E cs (ncb_init junk table tr) = nat_finish E s"
    unfolding nat_run_def nat_loop_actions [OF assms(4)] assms(3,5)
    by (simp add: flow_simps loop_trace_def)
  with assms(1,2) show ?thesis
    by (simp add: nat_mapping_table_config_cb_def arg_check2_def Let_def)
qed

text \<open>C6: A batch that creates entries, on every branch: one mapping is written, of the last addresses
  of the batch and 0.0.0.0 for one it does not give, under the last index the batch gives,
  created or deleted; the table is updated exactly when VOM accepts it.  The prefix lengths
  and the destination addresses play no part.  On both error branches the iterator, already
  given back after the loop, is given back a second time.\<close>

theorem nat_create_batch:
  assumes "changes_rc E tr xpath = SR_ERR_OK"
    and "cs = s_changes session xpath" and "n = length cs"
    and "\<forall>c \<in> set cs. nat_action_of E c \<noteq> None"
    and "as = nat_actions E cs" and "Nat_index y \<in> set as"
    and "x = last (nat_indices as)" and "t = loop_trace n tr @ [Free_iter]"
    and "inside = nat_requested Internal_src as" and "outside = nat_requested External_src as"
  shows "nat_mapping_table_config_cb E (Some session) (Some xpath) SR_EV_VERIFY junk table tr =
    (if last ([] # List.map_filter nat_type_of as) \<noteq> ''static''
     then (Returned SR_ERR_INVAL_ARG, t @ cleanup_after E n, table)
     else
       (let r = om_write E t (dec (unat x)) (Obj_nat inside outside);
            t' = t @ [Om_write (dec (unat x)) (Obj_nat inside outside) r]
        in case r of
             Inl e \<Rightarrow> (Raised e, t', table)
           | Inr RC_OK \<Rightarrow> (Returned SR_ERR_OK, t', table(x \<mapsto> (inside, outside)))
           | Inr RC_OTHER \<Rightarrow> (Returned SR_ERR_OPERATION_FAILED, t' @ cleanup_after E n, table)))"
proof -
  have ne: "List.map_filter nat_index_of as \<noteq> []"
    using assms(6) by (force simp: List.map_filter_def filter_empty_conv)
  let ?s = "(fold nat_apply as (ncb_init junk table tr))
        \<lparr>n_trace := loop_trace n tr,
         n_vals := vals_after_loop E SR_EV_VERIFY (if n = 0 then None else Some (n - 1))\<rparr>"
  have vars: "n_create ?s" "n_xindex ?s = x" "n_table ?s = table"
    "prefix_address (nb_internal_src (n_builder ?s)) = inside"
    "prefix_address (nb_external_src (n_builder ?s)) = outside"
    "nb_type (n_builder ?s) = last ([] # List.map_filter nat_type_of as)"
    using assms(6,7,9,10) ne
    by (auto simp: fold_nat_apply_simps nat_indices_def nat_requested_def)
  have fin: "nat_finish E ?s = then_flow (nat_write E (ncb_emit [Free_iter] ?s)) (Ret SR_ERR_OK)"
    using vars(1) by (simp add: nat_finish_def ncb_emit_def)
  have build: "nat_build E (n_builder ?s) =
      (if last ([] # List.map_filter nat_type_of as) = ''static''
       then (Some (Obj_nat inside outside), (n_builder ?s)\<lparr>nb_inside := inside, nb_outside := outside\<rparr>)
       else (None, n_builder ?s))"
    unfolding vars(4-6) [symmetric] by (simp add: nat_build_def)
  have emit: "n_builder (ncb_emit [Free_iter] ?s) = n_builder ?s" "n_xindex (ncb_emit [Free_iter] ?s) = x"
    "n_table (ncb_emit [Free_iter] ?s) = table" "n_trace (ncb_emit [Free_iter] ?s) = t"
    "n_vals (ncb_emit [Free_iter] ?s) = vals_after_loop E SR_EV_VERIFY (if n = 0 then None else Some (n - 1))"
    using vars assms(8) by (simp_all add: ncb_emit_def)
  show ?thesis
    unfolding nat_cb_local [OF assms(1-4) refl] assms(5) [symmetric] fin
    using emit build
    by (auto simp: nat_write_def nat_key_def call_om_write_def Let_def flow_simps nat_cleanup_def cleanup_after_def
        nat_inside_def nat_outside_def split: sum.splits rc_t.splits)
qed

text \<open>Changes as a commit of a mapping entry of the repository's samples produces them.\<close>

definition sample_entry_leaf :: "string \<Rightarrow> string" where
  "sample_entry_leaf l = ''/ietf-nat:nat/instances/instance[id='' @ [CHR 39, CHR ''0'', CHR 39] @ '']/mapping-table/mapping-entry/'' @ l"

definition sample_nat_changes :: "change list" where
  "sample_nat_changes =
     [sample_created (sample_entry_leaf ''index'') (Uint32_val 7),
      sample_created (sample_entry_leaf ''type'') (String_val ''static''),
      sample_created (sample_entry_leaf ''internal-src-address'') (String_val ''10.0.0.2/32'')]"

definition sample_nat_junk :: nat_junk where
  "sample_nat_junk = \<lparr>nj_create = False, nj_remove = False, nj_xindex = 0, nj_lens = (0, 0, 0, 0)\<rparr>"

lemma sample_make_prefix:
  "make_prefix sample_env ''10.0.0.2/32'' = Inr \<lparr>m_address = Ip_v4 0x0A000002, m_prefix_len = 32\<rparr>"
proof -
  have f: "find_last_of (CHR ''/'') ''10.0.0.2/32'' = Some 8" by code_simp
  have a: "sample_addr_from_string ''10.0.0.2'' = Some (Ip_v4 0x0A000002)" by code_simp
  have n: "stoi ''32'' = Inr 32" by code_simp
  show ?thesis
    by (simp add: make_prefix_eq prefix_of_string_def f a n)
qed

lemma sample_nat_actions:
  "nat_actions sample_env sample_nat_changes =
     [Nat_index 7, Nat_type ''static'',
      Nat_addr Internal_src \<lparr>m_address = Ip_v4 0x0A000002, m_prefix_len = 32\<rparr>]"
  "\<forall>c \<in> set sample_nat_changes. nat_action_of sample_env c \<noteq> None"
  by (simp_all add: nat_actions_def nat_action_of_def addr_action_def sample_nat_changes_def sample_entry_leaf_def
      sample_simps sample_make_prefix)

theorem nat_create_batch_witness:
  "nat_mapping_table_config_cb sample_env (Some (sample_session sample_nat_changes)) (Some ''/x'') SR_EV_VERIFY
     sample_nat_junk Map.empty [] =
   (Returned SR_ERR_OK,
    [Free_vals 0, Free_vals 1, Free_vals 2, Free_iter,
     Om_write ''7'' (Obj_nat (Ip_v4 0x0A000002) (Ip_v4 0)) (Inr RC_OK)],
    [7 \<mapsto> (Ip_v4 0x0A000002, Ip_v4 0)])"
proof -
  have idx: "Nat_index 7 \<in> set (nat_actions sample_env sample_nat_changes)" by (simp add: sample_nat_actions)
  have k: "dec 7 = ''7''" by code_simp
  have all: "\<forall>c \<in> set (s_changes (sample_session sample_nat_changes) ''/x''). nat_action_of sample_env c \<noteq> None"
    using sample_nat_actions(2) by simp
  from nat_create_batch [OF _ refl refl all refl _ refl refl refl refl, of "[]" 7 sample_nat_junk Map.empty] idx
  show ?thesis
    by (simp add: sample_nat_actions nat_indices_def nat_requested_def prefix_address_def ip_default_def
        loop_trace_def k) (simp add: sample_nat_changes_def)
qed

fun is_nat_removal :: "nat_action option \<Rightarrow> bool" where
  "is_nat_removal (Some (Nat_drop x)) = True"
| "is_nat_removal (Some Nat_skip) = True"
| "is_nat_removal _ = False"

lemma is_nat_removal_action:
  "is_nat_removal (nat_action_of E c) \<Longrightarrow>
     \<exists>a. nat_action_of E c = Some a \<and> (\<forall>y. a \<noteq> Nat_index y) \<and> nat_type_of a = None"
  by (cases "nat_action_of E c" rule: is_nat_removal.cases) auto

text \<open>C7: A batch of deletions, on every branch and for every content of the uninitialised flags: the
  entry with the last index of the batch is removed from VOM and from the table, and from
  neither when VOM throws.  When \<open>create\<close> happens to be set on entry nothing is removed
  and the iterator is given back twice.\<close>

theorem nat_delete_batch:
  assumes "changes_rc E tr xpath = SR_ERR_OK"
    and "cs = s_changes session xpath" and "n = length cs"
    and "\<forall>c \<in> set cs. is_nat_removal (nat_action_of E c)"
    and "as = nat_actions E cs" and "Nat_drop y \<in> set as"
    and "x = last (nat_indices as)" and "t = loop_trace n tr @ [Free_iter]"
  shows "nat_mapping_table_config_cb E (Some session) (Some xpath) SR_EV_VERIFY junk table tr =
    (if nj_create junk then (Returned SR_ERR_INVAL_ARG, t @ cleanup_after E n, table)
     else
       (let r = om_remove E t (dec (unat x));
            t' = t @ [Om_remove (dec (unat x)) r]
        in case r of
             Some e \<Rightarrow> (Raised e, t', table)
           | None \<Rightarrow> (Returned SR_ERR_OK, t', table(x := None))))"
proof -
  have ne: "List.map_filter nat_index_of as \<noteq> []"
    using assms(6) by (force simp: List.map_filter_def filter_empty_conv)
  have all: "\<forall>c \<in> set cs. nat_action_of E c \<noteq> None"
    using assms(4) is_nat_removal_action by fastforce
  have "\<forall>a \<in> set as. nat_type_of a = None \<and> (\<forall>z. a \<noteq> Nat_index z)"
    using assms(4,5) is_nat_removal_action by (fastforce simp: nat_actions_def)
  then have no_create: "Nat_index z \<notin> set as" "List.map_filter nat_type_of as = []" for z
    by (auto simp: List.map_filter_def filter_empty_conv)
  let ?s = "(fold nat_apply as (ncb_init junk table tr))
        \<lparr>n_trace := loop_trace n tr,
         n_vals := vals_after_loop E SR_EV_VERIFY (if n = 0 then None else Some (n - 1))\<rparr>"
  have vars: "n_create ?s = nj_create junk" "n_remove ?s" "n_xindex ?s = x" "n_table ?s = table"
    "nb_type (n_builder ?s) = []"
    using assms(6,7) ne no_create by (auto simp: fold_nat_apply_simps nat_indices_def)
  have fin: "nat_finish E ?s = then_flow
      (if nj_create junk then nat_write E (ncb_emit [Free_iter] ?s) else nat_erase E (ncb_emit [Free_iter] ?s))
      (Ret SR_ERR_OK)"
    using vars(1,2) by (simp add: nat_finish_def ncb_emit_def)
  have build: "nat_build E (n_builder ?s) = (None, n_builder ?s)"
    using vars(5) by (simp add: nat_build_def)
  have emit: "n_builder (ncb_emit [Free_iter] ?s) = n_builder ?s" "n_xindex (ncb_emit [Free_iter] ?s) = x"
    "n_table (ncb_emit [Free_iter] ?s) = table" "n_trace (ncb_emit [Free_iter] ?s) = t"
    "n_vals (ncb_emit [Free_iter] ?s) = vals_after_loop E SR_EV_VERIFY (if n = 0 then None else Some (n - 1))"
    using vars assms(8) by (simp_all add: ncb_emit_def)
  show ?thesis
    unfolding nat_cb_local [OF assms(1-3) all refl] assms(5) [symmetric] fin
    using emit build
    by (auto simp: nat_write_def nat_erase_def nat_key_def call_om_remove_def Let_def flow_simps nat_cleanup_def
        cleanup_after_def split: option.splits)
qed

theorem nat_delete_batch_witness:
  "nat_mapping_table_config_cb sample_env
     (Some (sample_session [sample_deleted (sample_entry_leaf ''index'') (Uint32_val 7)])) (Some ''/x'') SR_EV_VERIFY
     sample_nat_junk [7 \<mapsto> (Ip_v4 1, Ip_v4 2)] [] =
   (Returned SR_ERR_OK, [Free_vals 0, Free_iter, Om_remove ''7'' None], Map.empty) \<and>
   nat_mapping_table_config_cb sample_env
     (Some (sample_session [sample_deleted (sample_entry_leaf ''index'') (Uint32_val 7)])) (Some ''/x'') SR_EV_VERIFY
     (sample_nat_junk\<lparr>nj_create := True\<rparr>) [7 \<mapsto> (Ip_v4 1, Ip_v4 2)] [] =
   (Returned SR_ERR_INVAL_ARG, [Free_vals 0, Free_iter, Free_iter], [7 \<mapsto> (Ip_v4 1, Ip_v4 2)])"
proof -
  let ?cs = "[sample_deleted (sample_entry_leaf ''index'') (Uint32_val 7)]"
  have acts: "nat_actions sample_env ?cs = [Nat_drop 7]"
    and rem: "\<forall>c \<in> set (s_changes (sample_session ?cs) ''/x''). is_nat_removal (nat_action_of sample_env c)"
    by (simp_all add: nat_actions_def nat_action_of_def sample_entry_leaf_def sample_simps)
  have k: "dec 7 = ''7''" by code_simp
  note del = nat_delete_batch [OF _ refl refl rem refl _ refl refl, of "[]" 7]
  from del [of sample_nat_junk] del [of "sample_nat_junk\<lparr>nj_create := True\<rparr>"] show ?thesis
    by (simp add: acts nat_indices_def loop_trace_def k sample_nat_junk_def cleanup_after_def vals_after_loop_def
        free_vals_def)
qed

section \<open>Every run\<close>

text \<open>The loop makes no call of VOM and leaves the table alone.\<close>

fun frees_vals :: "effect \<Rightarrow> bool" where
  "frees_vals (Free_vals i) = True"
| "frees_vals _ = False"

lemma nat_switch_frame:
  "n_trace (flow_state (nat_switch E c s)) = n_trace s \<and> n_vals (flow_state (nat_switch E c s)) = n_vals s \<and>
   n_table (flow_state (nat_switch E c s)) = n_table s \<and> (\<forall>r t. nat_switch E c s \<noteq> Ret r t)"
  by (cases "ch_op c")
    (auto simp: nat_switch_def nat_created_def nat_deleted_def set_prefix_def flow_simps
      split: option.splits flow_splits)

lemma nat_body_frame:
  "n_table (flow_state (nat_body E i c s)) = n_table s"
  "nat_body E i c s \<noteq> Ret r t"
  using nat_switch_frame [of E c "s\<lparr>n_vals := Some i\<rparr>"]
  by (cases "nat_switch E c (s\<lparr>n_vals := Some i\<rparr>)"; auto simp: nat_body_def ncb_emit_def flow_simps)+

interpretation nat_loop: change_body "nat_body E" n_trace n_vals frees_vals for E
proof
  fix i c s
  show "\<exists>es. n_trace (flow_state (nat_body E i c s)) = n_trace s @ es \<and> list_all frees_vals es"
    using nat_switch_frame [of E c "s\<lparr>n_vals := Some i\<rparr>"]
    by (cases "nat_switch E c (s\<lparr>n_vals := Some i\<rparr>)")
      (auto simp: nat_body_def ncb_emit_def free_vals_def flow_simps)
next
  fix i c s t
  assume "nat_body E i c s = Next t"
  then show "n_vals t = Some i \<and> freed_vals (n_trace t) = freed_vals (n_trace s) @ [i] \<and>
      iter_frees (n_trace t) = iter_frees (n_trace s)"
    using nat_switch_frame [of E c "s\<lparr>n_vals := Some i\<rparr>"]
    by (cases "nat_switch E c (s\<lparr>n_vals := Some i\<rparr>)")
      (auto simp: nat_body_def ncb_emit_def free_vals_def flow_simps trace_simps)
next
  fix i c s t
  assume "nat_body E i c s = Goto t"
  then show "n_vals t = Some i \<and> freed_vals (n_trace t) = freed_vals (n_trace s) \<and>
      iter_frees (n_trace t) = iter_frees (n_trace s)"
    using nat_switch_frame [of E c "s\<lparr>n_vals := Some i\<rparr>"]
    by (cases "nat_switch E c (s\<lparr>n_vals := Some i\<rparr>)") (auto simp: nat_body_def flow_simps)
qed

lemma nat_loop_table: "n_table (flow_state (foreach_change ev (nat_body E) i cs s)) = n_table s"
proof (induction cs arbitrary: i s)
  case (Cons c cs)
  from nat_body_frame(1) [of E i c s] Cons.IH show ?case
    by (cases "nat_body E i c s") (auto simp: flow_simps)
qed (simp add: flow_simps)

lemma nat_body_Goto: "nat_body E i c s = Goto t \<Longrightarrow> n_rc t = SR_ERR_UNSUPPORTED"
  by (cases "ch_op c")
    (auto simp: nat_body_def nat_switch_def nat_created_def nat_deleted_def set_prefix_def flow_simps ncb_emit_def
      split: option.splits flow_splits if_splits)

lemma nat_body_supported: "nat_body E i c s = Next t \<Longrightarrow> ch_op c = SR_OP_CREATED \<or> ch_op c = SR_OP_DELETED"
  by (cases "ch_op c") (auto simp: nat_body_def nat_switch_def flow_simps)

lemma frees_vals_no_config: "list_all frees_vals es \<Longrightarrow> config_ops es = []"
proof (induction es)
  case (Cons e es)
  then show ?case by (cases e) (auto simp: trace_simps)
qed (simp add: trace_simps)

text \<open>C24: An entry cannot be changed: a batch in which an entry, or a leaf of one, is modified or moved
  never succeeds, whatever else it holds; nothing is written to VOM and the table stays as it
  was.\<close>

theorem nat_modification_rejected:
  assumes "changes_rc E tr xpath = SR_ERR_OK" and "c \<in> set (s_changes session xpath)"
    and "ch_op c = SR_OP_MODIFIED \<or> ch_op c = SR_OP_MOVED"
    and "nat_mapping_table_config_cb E (Some session) (Some xpath) SR_EV_VERIFY junk table tr = (r, t, table')"
  shows "r \<noteq> Returned SR_ERR_OK \<and> config_ops t = config_ops tr \<and> table' = table \<and>
    (\<forall>e. r = Returned e \<longrightarrow> e = SR_ERR_UNSUPPORTED)"
proof -
  let ?cs = "s_changes session xpath" and ?s = "ncb_init junk table tr"
  let ?l = "foreach_change SR_EV_VERIFY (nat_body E) 0 ?cs ?s"
  have no_next: "?l \<noteq> Next u" for u
  proof
    assume "?l = Next u"
    then have "\<forall>c \<in> set ?cs. ch_op c = SR_OP_CREATED \<or> ch_op c = SR_OP_DELETED"
      by (rule foreach_change_Next) (use nat_body_supported in \<open>simp, blast\<close>)
    with assms(2,3) show False by auto
  qed
  have no_ret: "?l \<noteq> Ret q u" for q u
    using foreach_change_Ret [of SR_EV_VERIFY "nat_body E" 0 ?cs ?s q u "\<lambda>_ _. False"] nat_body_frame(2) by blast
  have goto: "?l = Goto u \<Longrightarrow> n_rc u = SR_ERR_UNSUPPORTED" for u
    by (rule foreach_change_Goto [where P = "\<lambda>t. n_rc t = SR_ERR_UNSUPPORTED"]) (use nat_body_Goto in blast)+
  from nat_loop.loop_extends [where ev = SR_EV_VERIFY and E = E and i = 0 and cs = ?cs and s = ?s]
  obtain es where es: "n_trace (flow_state ?l) = tr @ es" "list_all frees_vals es" by auto
  have table: "n_table (flow_state ?l) = table" using nat_loop_table by simp
  have clean: "config_ops (free_vals v @ [Free_iter]) = []" for v
    by (simp add: trace_simps)
  have run: "nat_run E ?cs ?s = ?l"
    using no_next by (cases ?l) (auto simp: nat_run_def flow_simps)
  from assms(1,4) have "leave_callback n_trace nat_cleanup ?l = (r, t)" "table' = n_table (flow_state ?l)"
    by (simp_all add: nat_mapping_table_config_cb_def arg_check2_def Let_def run split: prod.splits)
  moreover have "config_ops (n_trace (flow_state ?l)) = config_ops tr"
    using frees_vals_no_config [OF es(2)] by (simp add: es(1) trace_simps)
  ultimately show ?thesis
    using no_next no_ret goto table clean
    by (cases ?l) (auto simp: flow_simps nat_cleanup_def trace_simps)
qed

theorem nat_modification_rejected_witness:
  "nat_mapping_table_config_cb sample_env
     (Some (sample_session [sample_modified (sample_entry_leaf ''index'') (Uint32_val 7) (Uint32_val 8)])) (Some ''/x'')
     SR_EV_VERIFY sample_nat_junk [7 \<mapsto> (Ip_v4 1, Ip_v4 2)] [] =
   (Returned SR_ERR_UNSUPPORTED, [Free_vals 0, Free_iter], [7 \<mapsto> (Ip_v4 1, Ip_v4 2)])"
proof -
  let ?c = "sample_modified (sample_entry_leaf ''index'') (Uint32_val 7) (Uint32_val 8)"
  have run: "nat_mapping_table_config_cb sample_env (Some (sample_session [?c])) (Some ''/x'')
     SR_EV_VERIFY sample_nat_junk [7 \<mapsto> (Ip_v4 1, Ip_v4 2)] [] =
     (Returned SR_ERR_UNSUPPORTED, [Free_vals 0, Free_iter], n_table (ncb_init sample_nat_junk [7 \<mapsto> (Ip_v4 1, Ip_v4 2)] []))"
    by (simp add: nat_mapping_table_config_cb_def arg_check2_def nat_run_def nat_body_def nat_switch_def
        sample_modified_def flow_simps nat_cleanup_def free_vals_def Let_def)
  have "?c \<in> set (s_changes (sample_session [?c]) ''/x'')" "ch_op ?c = SR_OP_MODIFIED \<or> ch_op ?c = SR_OP_MOVED"
    by (simp_all add: sample_modified_def)
  from nat_modification_rejected [OF _ this run] run show ?thesis by simp
qed

text \<open>C25: A text that is not a prefix: the exception of the parser leaves the callback, which runs under
  a C library; the changes before it have been given back, the values of this one and the
  iterator never are, and neither VOM nor the table is touched.\<close>

theorem nat_malformed_prefix_raises:
  assumes "changes_rc E tr xpath = SR_ERR_OK" and "s_changes session xpath = pre @ c # post"
    and "\<forall>c \<in> set pre. nat_action_of E c \<noteq> None"
    and "ch_op c = SR_OP_CREATED" and "ch_new c = Some v" and "v_data v = String_val p"
    and "node_name_eq E (v_xpath v) leaf"
    and "leaf \<in> {''internal-src-address'', ''external-src-address'', ''internal-dst-address'', ''external-dst-address''}"
    and "\<not> node_name_eq E (v_xpath v) ''index''" and "\<not> node_name_eq E (v_xpath v) ''type''"
    and "make_prefix E p = Inl e"
  shows "nat_mapping_table_config_cb E (Some session) (Some xpath) SR_EV_VERIFY junk table tr =
    (Raised e, loop_trace (length pre) tr, table)"
proof -
  let ?s = "ncb_init junk table tr"
  let ?u = "(fold nat_apply (nat_actions E pre) ?s)
      \<lparr>n_vals := (if pre = [] then n_vals ?s else Some (0 + length pre - 1)),
       n_trace := n_trace ?s @ map Free_vals [0..<0 + length pre]\<rparr>"
  have "nat_switch E c s = Throws e s" for s
    using assms(4-11)
    by (auto simp: nat_switch_def nat_created_def set_prefix_def flow_simps nat_set_internal_src_def
        nat_set_external_src_def nat_set_internal_dest_def nat_set_external_dest_def)
  then have c: "nat_body E (length pre) c ?u = Throws e (?u\<lparr>n_vals := Some (length pre)\<rparr>)"
    by (simp add: nat_body_def flow_simps)
  have "nat_run E (pre @ c # post) ?s = Throws e (?u\<lparr>n_vals := Some (length pre)\<rparr>)"
    using c nat_loop_actions [OF assms(3), of 0 ?s]
    by (simp add: nat_run_def foreach_change_append flow_simps)
  with assms(1,2) show ?thesis
    by (simp add: nat_mapping_table_config_cb_def arg_check2_def Let_def flow_simps loop_trace_def)
qed

theorem nat_malformed_prefix_raises_witness:
  "nat_mapping_table_config_cb sample_env
     (Some (sample_session [sample_created (sample_entry_leaf ''internal-src-address'') (String_val ''10'')])) (Some ''/x'')
     SR_EV_VERIFY sample_nat_junk Map.empty [] =
   (Raised (Runtime_error (''missing '' @ [CHR 39, CHR ''/'', CHR 39] @ '' in 10'')), [], Map.empty)"
proof -
  let ?v = "sample_val (sample_entry_leaf ''internal-src-address'') (String_val ''10'')"
  let ?c = "sample_created (sample_entry_leaf ''internal-src-address'') (String_val ''10'')"
  have p: "make_prefix sample_env ''10'' = Inl (Runtime_error (''missing '' @ [CHR 39, CHR ''/'', CHR 39] @ '' in 10''))"
  proof -
    have "find_last_of (CHR ''/'') ''10'' = None" by code_simp
    then show ?thesis by (simp add: make_prefix_eq prefix_of_string_def)
  qed
  have c: "ch_op ?c = SR_OP_CREATED" "ch_new ?c = Some ?v" "v_data ?v = String_val ''10''"
    "node_name_eq sample_env (v_xpath ?v) ''internal-src-address''"
    "\<not> node_name_eq sample_env (v_xpath ?v) ''index''" "\<not> node_name_eq sample_env (v_xpath ?v) ''type''"
    by (simp_all add: sample_created_def sample_val_def sample_entry_leaf_def sample_node_name_eq_def)
  have s: "s_changes (sample_session [?c]) ''/x'' = [] @ ?c # []" by simp
  from nat_malformed_prefix_raises [OF _ s _ c(1-4) _ c(5,6) p, of "[]" sample_nat_junk Map.empty] show ?thesis
    by (simp add: loop_trace_def)
qed

end
