(* ===== verification/Nat_Table.thy ===== *)
theory Nat_Table
  imports Ietf_Nat
begin

text \<open>
  The static table of \<^verbatim>\<open>plugins/ietf/ietf_nat.cpp\<close> as an abstraction of what
  has been written to VOM: the entries are the mappings that VOM has accepted under the key of
  their index and that have not been removed since.  The callback keeps the two in step on
  every path.
\<close>

text \<open>What one call says about the entry under a key; \<open>None\<close> for a call that says nothing.\<close>

definition nat_claim :: "effect \<Rightarrow> (string \<times> nat_pair option) option" where
  "nat_claim e =
     (case e of
        Om_write k x r \<Rightarrow>
          (case x of
             Obj_nat ins ou \<Rightarrow> if r = Inr RC_OK then Some (k, Some (ins, ou)) else None
           | _ \<Rightarrow> None)
      | Om_remove k r \<Rightarrow> if r = None then Some (k, None) else None
      | _ \<Rightarrow> None)"

definition nat_step :: "u32 \<Rightarrow> effect \<Rightarrow> nat_pair option \<Rightarrow> nat_pair option" where
  "nat_step x e v =
     (case nat_claim e of None \<Rightarrow> v | Some (k, w) \<Rightarrow> if k = nat_key x then w else v)"

definition nat_view :: "trace \<Rightarrow> nat_table" where
  "nat_view tr = (\<lambda>x. fold (nat_step x) tr None)"

lemma nat_key_inj: "nat_key x = nat_key y \<longleftrightarrow> x = y"
  by (simp add: nat_key_def dec_inj word_unat_eq_iff)

text \<open>Calls that concern no entry.\<close>

definition nat_neutral :: "effect \<Rightarrow> bool" where
  "nat_neutral e \<longleftrightarrow> nat_claim e = None"

lemma nat_claim_simps [simp]:
  "nat_claim (Om_write k (Obj_nat ins ou) r) = (if r = Inr RC_OK then Some (k, Some (ins, ou)) else None)"
  "nat_claim (Om_remove k q) = (if q = None then Some (k, None) else None)"
  "nat_neutral Free_iter" "nat_neutral (Free_vals i)" "nat_neutral (Om_write k (Obj_itf intf) r)"
  "nat_neutral (Om_write k (Obj_l3 intf p) r)" "nat_neutral (Itf_set n a)" "nat_neutral (Set_error m y)"
  "nat_neutral (Hw_dump d)"
  by (simp_all add: nat_claim_def nat_neutral_def)

lemma nat_step_neutral: "nat_neutral e \<Longrightarrow> nat_step x e v = v"
  by (simp add: nat_step_def nat_neutral_def)

lemma nat_view_neutral: "list_all nat_neutral es \<Longrightarrow> nat_view (tr @ es) = nat_view tr"
proof (induction es arbitrary: tr)
  case (Cons e es)
  from Cons.IH [of "tr @ [e]"] Cons.prems show ?case
    by (simp add: nat_view_def nat_step_neutral)
qed simp

lemma nat_view_write:
  "nat_view (tr @ [Om_write (nat_key x) (Obj_nat ins ou) (Inr RC_OK)]) = (nat_view tr)(x \<mapsto> (ins, ou))"
  by (rule ext) (simp add: nat_view_def nat_step_def nat_key_inj)

lemma nat_view_remove: "nat_view (tr @ [Om_remove (nat_key x) None]) = (nat_view tr)(x := None)"
  by (rule ext) (simp add: nat_view_def nat_step_def nat_key_inj)

lemma frees_vals_neutral: "list_all frees_vals es \<Longrightarrow> list_all nat_neutral es"
proof (induction es)
  case (Cons e es)
  then show ?case by (cases e) (auto simp: nat_neutral_def nat_claim_def)
qed simp

lemma flow_state_Ret [simp]: "flow_state (then_flow m (Ret r)) = flow_state m"
  by (cases m) (auto simp: flow_simps)

text \<open>
  An invariant between the table and the trace that neutral calls keep, and that an accepted
  write and an accepted removal keep together with the change of the table that goes with
  them, is kept by the whole callback.
\<close>

locale nat_invariant =
  fixes inv :: "nat_table \<Rightarrow> trace \<Rightarrow> bool"
  assumes neutral: "inv table tr \<Longrightarrow> nat_neutral e \<Longrightarrow> inv table (tr @ [e])"
    and accepted_write: "inv table tr \<Longrightarrow>
      inv (table(x \<mapsto> (ins, ou))) (tr @ [Om_write (nat_key x) (Obj_nat ins ou) (Inr RC_OK)])"
    and accepted_remove: "inv table tr \<Longrightarrow> inv (table(x := None)) (tr @ [Om_remove (nat_key x) None])"
begin

lemma neutral_list: "list_all nat_neutral es \<Longrightarrow> inv table tr \<Longrightarrow> inv table (tr @ es)"
proof (induction es arbitrary: tr)
  case (Cons e es)
  from Cons.IH [of "tr @ [e]"] Cons.prems neutral show ?case by simp
qed simp

lemma write_keeps: "inv (n_table s) (n_trace s) \<Longrightarrow>
    inv (n_table (flow_state (nat_write E s))) (n_trace (flow_state (nat_write E s)))"
proof (cases "nb_type (n_builder s) = ''static''")
  case True
  assume inv: "inv (n_table s) (n_trace s)"
  let ?x = "n_xindex s" and ?ob = "the (fst (nat_build E (n_builder s)))"
  show ?thesis
  proof (cases "om_write E (n_trace s) (nat_key ?x) ?ob = Inr RC_OK")
    case ok: True
    with True accepted_write [OF inv] show ?thesis
      by (simp add: nat_write_def nat_build_eq call_om_write_def Let_def flow_simps nat_inside_def nat_outside_def)
  next
    case False
    then have "nat_neutral (Om_write k (Obj_nat ins ou) (om_write E (n_trace s) (nat_key ?x) ?ob))" for k ins ou
      by (simp add: nat_neutral_def)
    with False True neutral [OF inv] show ?thesis
      by (cases "om_write E (n_trace s) (nat_key ?x) ?ob")
        (auto simp: nat_write_def nat_build_eq call_om_write_def Let_def flow_simps)
  qed
qed (simp add: nat_write_def nat_build_eq flow_simps)

lemma erase_keeps: "inv (n_table s) (n_trace s) \<Longrightarrow>
    inv (n_table (flow_state (nat_erase E s))) (n_trace (flow_state (nat_erase E s)))"
proof (cases "om_remove E (n_trace s) (nat_key (n_xindex s))")
  case None
  assume inv: "inv (n_table s) (n_trace s)"
  from None accepted_remove [OF inv] show ?thesis
    by (simp add: nat_erase_def call_om_remove_def Let_def flow_simps)
next
  case (Some e)
  assume inv: "inv (n_table s) (n_trace s)"
  have "nat_neutral (Om_remove k (Some e))" for k by (simp add: nat_neutral_def)
  with Some neutral [OF inv] show ?thesis
    by (simp add: nat_erase_def call_om_remove_def Let_def flow_simps)
qed

lemma finish_keeps: "inv (n_table s) (n_trace s) \<Longrightarrow>
    inv (n_table (flow_state (nat_finish E s))) (n_trace (flow_state (nat_finish E s)))"
proof -
  assume "inv (n_table s) (n_trace s)"
  then have "inv (n_table (ncb_emit [Free_iter] s)) (n_trace (ncb_emit [Free_iter] s))"
    by (simp add: ncb_emit_def neutral)
  then show ?thesis
    by (auto simp: nat_finish_def Let_def flow_simps intro!: write_keeps erase_keeps)
qed

lemma loop_keeps: "inv (n_table s) (n_trace s) \<Longrightarrow>
    inv (n_table (flow_state (foreach_change ev (nat_body E) i cs s)))
      (n_trace (flow_state (foreach_change ev (nat_body E) i cs s)))"
proof -
  assume inv: "inv (n_table s) (n_trace s)"
  from nat_loop.loop_extends [where ev = ev and E = E and i = i and cs = cs and s = s]
  obtain es where "n_trace (flow_state (foreach_change ev (nat_body E) i cs s)) = n_trace s @ es"
    "list_all frees_vals es" by auto
  with inv frees_vals_neutral neutral_list show ?thesis
    by (simp add: nat_loop_table)
qed

lemma run_keeps: "inv (n_table s) (n_trace s) \<Longrightarrow>
    inv (n_table (flow_state (nat_run E cs s))) (n_trace (flow_state (nat_run E cs s)))"
proof (cases "foreach_change SR_EV_VERIFY (nat_body E) 0 cs s")
  case (Next t)
  assume "inv (n_table s) (n_trace s)"
  with loop_keeps [of s SR_EV_VERIFY E 0 cs] Next have "inv (n_table t) (n_trace t)" by (simp add: flow_simps)
  with finish_keeps [of "t\<lparr>n_vals := vals_after_loop E SR_EV_VERIFY (n_vals t)\<rparr>" E] Next show ?thesis
    by (simp add: nat_run_def flow_simps)
qed (use loop_keeps [of s SR_EV_VERIFY E 0 cs] in \<open>auto simp: nat_run_def flow_simps\<close>)

lemma callback_keeps:
  assumes "inv table tr"
    and "nat_mapping_table_config_cb E ds xpath event junk table tr = (r, t, table')"
  shows "inv table' t"
proof (cases "arg_check2 ds xpath \<or> event \<noteq> SR_EV_VERIFY \<or> changes_rc E tr (the xpath) \<noteq> SR_ERR_OK")
  case True
  with assms neutral [OF assms(1), of Free_iter] show ?thesis
    by (auto simp: nat_mapping_table_config_cb_def Let_def split: if_splits)
next
  case False
  let ?m = "nat_run E (s_changes (the ds) (the xpath)) (ncb_init junk table tr)"
  from False assms(2) have run: "leave_callback n_trace nat_cleanup ?m = (r, t)" "table' = n_table (flow_state ?m)"
    by (simp_all add: nat_mapping_table_config_cb_def Let_def split: prod.splits)
  have "inv (n_table (flow_state ?m)) (n_trace (flow_state ?m))"
    by (rule run_keeps) (simp add: assms(1))
  moreover have "list_all nat_neutral (free_vals v @ [Free_iter])" for v
    by (simp add: free_vals_def split: option.splits)
  then have "\<exists>es. t = n_trace (flow_state ?m) @ es \<and> list_all nat_neutral es"
    using run(1) by (cases ?m) (auto simp: flow_simps nat_cleanup_def)
  ultimately show ?thesis using run(2) neutral_list by auto
qed

end

interpretation exact: nat_invariant "\<lambda>table tr. table = nat_view tr"
  by unfold_locales (simp_all add: nat_view_neutral nat_view_write nat_view_remove)

text \<open>C9: The table is exact: if before a notification it holds the mappings that VOM has accepted and
  not removed since, it does so after it, on every path, errors, exceptions and undefined
  behaviour included.\<close>

theorem nat_table_synced:
  assumes "table = nat_view tr"
    and "nat_mapping_table_config_cb E ds xpath event junk table tr = (r, t, table')"
  shows "table' = nat_view t"
  using assms by (rule exact.callback_keeps)

theorem nat_table_synced_witness:
  "snd (snd (nat_mapping_table_config_cb sample_env (Some (sample_session sample_nat_changes)) (Some ''/x'')
      SR_EV_VERIFY sample_nat_junk Map.empty [])) =
   nat_view (fst (snd (nat_mapping_table_config_cb sample_env (Some (sample_session sample_nat_changes)) (Some ''/x'')
      SR_EV_VERIFY sample_nat_junk Map.empty [])))"
proof -
  have "Map.empty = nat_view []" by (simp add: nat_view_def)
  note sync = nat_table_synced [OF this]
  obtain r t table' where run: "nat_mapping_table_config_cb sample_env (Some (sample_session sample_nat_changes))
      (Some ''/x'') SR_EV_VERIFY sample_nat_junk Map.empty [] = (r, t, table')"
    by (rule prod_cases3)
  from sync [OF run] show ?thesis by (simp add: run)
qed

text \<open>
  The iterator at the end of the callback: it is given back before the mapping is built, and
  once more by the cleanup.
\<close>

definition ends_with_frees :: "nat \<Rightarrow> (sr_err, ncb) flow \<Rightarrow> bool" where
  "ends_with_frees k m \<longleftrightarrow>
     (case m of
        Next u \<Rightarrow> iter_frees (n_trace u) = k
      | Goto u \<Rightarrow> (n_rc u = SR_ERR_INVAL_ARG \<or> n_rc u = SR_ERR_OPERATION_FAILED) \<and> iter_frees (n_trace u) = k
      | Ret q u \<Rightarrow> False
      | _ \<Rightarrow> True)"

lemma nat_write_ends: "ends_with_frees (iter_frees (n_trace s)) (nat_write E s)"
proof (cases "nb_type (n_builder s) = ''static''")
  case True
  then show ?thesis
    by (cases "om_write E (n_trace s) (nat_key (n_xindex s)) (the (fst (nat_build E (n_builder s))))")
      (simp_all add: ends_with_frees_def nat_write_def nat_build_eq call_om_write_def Let_def flow_simps trace_simps)
qed (simp add: ends_with_frees_def nat_write_def nat_build_eq)

lemma nat_erase_ends: "ends_with_frees (iter_frees (n_trace s)) (nat_erase E s)"
  by (cases "om_remove E (n_trace s) (nat_key (n_xindex s))")
    (simp_all add: ends_with_frees_def nat_erase_def call_om_remove_def Let_def trace_simps)

lemma nat_finish_frees:
  "case nat_finish E s of
     Next u \<Rightarrow> False
   | Goto u \<Rightarrow> (n_rc u = SR_ERR_INVAL_ARG \<or> n_rc u = SR_ERR_OPERATION_FAILED) \<and>
       iter_frees (n_trace u) = Suc (iter_frees (n_trace s))
   | Ret q u \<Rightarrow> q = SR_ERR_OK \<and> iter_frees (n_trace u) = Suc (iter_frees (n_trace s))
   | _ \<Rightarrow> True"
proof -
  have it: "iter_frees (n_trace (ncb_emit [Free_iter] s)) = Suc (iter_frees (n_trace s))"
    by (simp add: ncb_emit_def trace_simps)
  have "ends_with_frees (iter_frees (n_trace u))
      (if n_create u then nat_write E u else if n_remove u then nat_erase E u else Next u)" for u
    using nat_write_ends [of u E] nat_erase_ends [of u E] by (simp add: ends_with_frees_def)
  note ends = this [of "ncb_emit [Free_iter] s", unfolded it]
  then show ?thesis
    unfolding nat_finish_def Let_def
    by (cases "if n_create (ncb_emit [Free_iter] s) then nat_write E (ncb_emit [Free_iter] s)
        else if n_remove (ncb_emit [Free_iter] s) then nat_erase E (ncb_emit [Free_iter] s)
        else Next (ncb_emit [Free_iter] s)") (simp_all only: ends_with_frees_def flow_simps flow.case simp_thms)
qed

text \<open>C21: The iterator of a notification is given back once by every run that returns success or
  \<open>SR_ERR_UNSUPPORTED\<close>, and twice by every run that fails after the loop, when the
  mapping cannot be built or VOM rejects it.\<close>

theorem nat_iterator_frees:
  assumes "nat_mapping_table_config_cb E (Some session) (Some xpath) SR_EV_VERIFY junk table tr = (Returned e, t, table')"
    and "changes_rc E tr xpath = SR_ERR_OK"
  shows "e \<in> {SR_ERR_OK, SR_ERR_UNSUPPORTED, SR_ERR_INVAL_ARG, SR_ERR_OPERATION_FAILED} \<and>
    iter_frees t = iter_frees tr + (if e = SR_ERR_INVAL_ARG \<or> e = SR_ERR_OPERATION_FAILED then 2 else 1)"
proof -
  let ?cs = "s_changes session xpath" and ?s = "ncb_init junk table tr"
  let ?l = "foreach_change SR_EV_VERIFY (nat_body E) 0 ?cs ?s"
  from assms have run: "leave_callback n_trace nat_cleanup (nat_run E ?cs ?s) = (Returned e, t)"
    by (simp add: nat_mapping_table_config_cb_def arg_check2_def Let_def split: prod.splits)
  have no_ret: "?l \<noteq> Ret q u" for q u
    using foreach_change_Ret [of SR_EV_VERIFY "nat_body E" 0 ?cs ?s q u "\<lambda>_ _. False"] nat_body_frame(2) by blast
  have ev: "SR_EV_VERIFY \<noteq> SR_EV_ABORT" by simp
  show ?thesis
  proof (cases ?l)
    case (Next u)
    from nat_loop.loop_Next [OF Next ev] have fr: "iter_frees (n_trace u) = iter_frees tr" by simp
    let ?u = "u\<lparr>n_vals := vals_after_loop E SR_EV_VERIFY (n_vals u)\<rparr>"
    have "nat_run E ?cs ?s = nat_finish E ?u" using Next by (simp add: nat_run_def flow_simps)
    with run fr nat_finish_frees [where E = E and s = ?u] show ?thesis
      by (cases "nat_finish E ?u") (auto simp: flow_simps nat_cleanup_def trace_simps)
  next
    case (Goto u)
    then have "n_rc u = SR_ERR_UNSUPPORTED"
      by (rule foreach_change_Goto [where P = "\<lambda>t. n_rc t = SR_ERR_UNSUPPORTED"]) (use nat_body_Goto in blast)
    moreover from nat_loop.loop_Goto [OF Goto ev] have "iter_frees (n_trace u) = iter_frees tr" by auto
    ultimately show ?thesis
      using run Goto by (auto simp: nat_run_def flow_simps nat_cleanup_def trace_simps)
  qed (use run no_ret in \<open>auto simp: nat_run_def flow_simps\<close>)
qed

theorem nat_iterator_frees_witness:
  "\<exists>t. nat_mapping_table_config_cb sample_env
     (Some (sample_session [sample_created (sample_entry_leaf ''index'') (Uint32_val 7)])) (Some ''/x'') SR_EV_VERIFY
     sample_nat_junk Map.empty [] = (Returned SR_ERR_INVAL_ARG, t, Map.empty) \<and> iter_frees t = 2"
proof -
  let ?c = "sample_created (sample_entry_leaf ''index'') (Uint32_val 7)"
  have a: "nat_actions sample_env [?c] = [Nat_index 7]" "nat_action_of sample_env ?c = Some (Nat_index 7)"
    by (simp_all add: nat_actions_def nat_action_of_def sample_entry_leaf_def sample_simps)
  have run: "nat_mapping_table_config_cb sample_env (Some (sample_session [?c])) (Some ''/x'') SR_EV_VERIFY
      sample_nat_junk Map.empty [] = (Returned SR_ERR_INVAL_ARG, [Free_vals 0, Free_iter, Free_iter], Map.empty)"
  proof -
    have all: "\<forall>c \<in> set [?c]. nat_action_of sample_env c \<noteq> None" using a(2) by simp
    have ch: "[?c] = s_changes (sample_session [?c]) ''/x''" by simp
    have rc: "changes_rc sample_env [] ''/x'' = SR_ERR_OK" by simp
    show ?thesis
      unfolding nat_cb_local [OF rc ch refl all refl] a(1)
      by (simp add: nat_finish_def ncb_emit_def nat_write_def nat_build_def loop_trace_def flow_simps nat_cleanup_def
          vals_after_loop_def Let_def free_vals_def)
  qed
  from nat_iterator_frees [OF run] run show ?thesis by (simp add: trace_simps)
qed

text \<open>The two callbacks around the table: a notification about an instance is accepted whatever it
  asks for, and does nothing; the capabilities are answered by one value, static mapping,
  which fills the one cell allocated, or by \<open>SR_ERR_NOMEM\<close> for any error of the
  allocation.\<close>

theorem nat_instance_and_capabilities:
  "nat_instance_config_cb ds xp event tr = (Returned SR_ERR_OK, tr) \<and>
   nat_cap_state_cb E xpath tr =
     (if new_values_rc E tr 1 \<noteq> SR_ERR_OK then (Returned SR_ERR_NOMEM, Null_values, tr)
      else (Returned SR_ERR_OK,
        Values \<lparr>r_vals = [Some \<lparr>v_xpath = xpath @ ''/static-mapping'', v_type = SR_BOOL_T, v_data = Bool_val True\<rparr>],
                r_cnt = 1\<rparr>, tr))"
  by (simp add: nat_instance_config_cb_def nat_cap_state_cb_def put_value_def new_values_def flow_simps)

end
