(* ===== verification/Ietf_Ipv46.thy ===== *)
theory Ietf_Ipv46
  imports Change_Loop
begin

text \<open>
  \<^verbatim>\<open>plugins/ietf/ietf_interface.cpp\<close>, the addresses of interfaces:
  \<open>ipv46_config_add_remove\<close>, \<open>parse_interface_ipv46_address\<close> and
  \<open>ietf_interface_ipv46_address_change_cb\<close>, the callback for changes under the ipv4 and
  ipv6 addresses of an interface.
\<close>

section \<open>ipv46_config_add_remove\<close>

text \<open>The key under which VOM keeps a binding, the macro \<open>KEY\<close>.\<close>

definition l3_key :: "env \<Rightarrow> itf \<Rightarrow> string \<Rightarrow> u8 \<Rightarrow> string" where
  "l3_key E intf addr len = ''l3_'' @ itf_name intf @ ''_'' @ prefix_str E addr len"

text \<open>Every exception in the \<open>try\<close> block becomes a result.\<close>

definition ipv46_config_add_remove ::
    "env \<Rightarrow> string \<Rightarrow> string \<Rightarrow> u8 \<Rightarrow> bool \<Rightarrow> trace \<Rightarrow> sr_err \<times> trace" where
  "ipv46_config_add_remove E if_name addr prefix add tr =
     (case itf_find E tr if_name of
        None \<Rightarrow> (SR_ERR_INVAL_ARG, tr)
      | Some intf \<Rightarrow>
          (case prefix_exn E addr prefix of
             Some e \<Rightarrow> (SR_ERR_OPERATION_FAILED, tr)
           | None \<Rightarrow>
               if add then
                 (case call_om_write E tr (l3_key E intf addr prefix) (Obj_l3 intf (addr, prefix)) of
                    (Inl e, tr') \<Rightarrow> (SR_ERR_OPERATION_FAILED, tr')
                  | (Inr rc, tr') \<Rightarrow>
                      if rc \<noteq> RC_OK then (SR_ERR_OPERATION_FAILED, tr') else (SR_ERR_OK, tr'))
               else
                 (case call_om_remove E tr (l3_key E intf addr prefix) of
                    (Some e, tr') \<Rightarrow> (SR_ERR_OPERATION_FAILED, tr')
                  | (None, tr') \<Rightarrow> (SR_ERR_OK, tr'))))"

section \<open>parse_interface_ipv46_address\<close>

definition parse_interface_ipv46_address ::
    "env \<Rightarrow> sr_val option \<Rightarrow> string \<times> u8 \<Rightarrow> (string \<times> u8) result" where
  "parse_interface_ipv46_address E val ap =
     (case val of
        None \<Rightarrow> Raised (Runtime_error ''Null pointer'')
      | Some v \<Rightarrow>
          if v_type v = SR_LIST_T then Returned ([], snd ap)
          else if node_name_eq E (v_xpath v) ''ip'' then
            (case string_val (v_data v) of
               None \<Rightarrow> Crashed Bad_union
             | Some s \<Rightarrow> Returned (s, snd ap))
          else if node_name_eq E (v_xpath v) ''prefix-length'' then
            (case uint8_val (v_data v) of
               None \<Rightarrow> Crashed Bad_union
             | Some p \<Rightarrow> Returned (fst ap, p))
          else if node_name_eq E (v_xpath v) ''netmask'' then
            (case string_val (v_data v) of
               None \<Rightarrow> Crashed Bad_union
             | Some s \<Rightarrow>
                 (case addr_from_string E s of
                    None \<Rightarrow> Raised Boost_error
                  | Some a \<Rightarrow>
                      (case netmask_to_plen E a of
                         Returned p \<Rightarrow> Returned (fst ap, p)
                       | Raised e \<Rightarrow> Raised e
                       | Crashed f \<Rightarrow> Crashed f)))
          else Returned ap)"

section \<open>The callback\<close>

record acb =
  a_new :: "string \<times> u8"     \<comment> \<open>new_addr, new_prefix\<close>
  a_old :: "string \<times> u8"     \<comment> \<open>old_addr, old_prefix\<close>
  a_if_name :: string
  a_create :: bool
  a_del :: bool
  a_rc :: sr_err
  a_op_rc :: sr_err
  a_vals :: "nat option"
  a_trace :: trace

definition acb_init :: "trace \<Rightarrow> acb" where
  "acb_init tr =
     \<lparr>a_new = ([], 0), a_old = ([], 0), a_if_name = [], a_create = False, a_del = False,
      a_rc = SR_ERR_OK, a_op_rc = SR_ERR_OK, a_vals = None, a_trace = tr\<rparr>"

definition parse_new :: "env \<Rightarrow> change \<Rightarrow> acb \<Rightarrow> (sr_err, acb) flow" where
  "parse_new E c s =
     (case parse_interface_ipv46_address E (ch_new c) (a_new s) of
        Returned ap \<Rightarrow> Next (s\<lparr>a_new := ap\<rparr>) | Raised e \<Rightarrow> Throws e s | Crashed f \<Rightarrow> Faults f s)"

definition parse_old :: "env \<Rightarrow> change \<Rightarrow> acb \<Rightarrow> (sr_err, acb) flow" where
  "parse_old E c s =
     (case parse_interface_ipv46_address E (ch_old c) (a_old s) of
        Returned ap \<Rightarrow> Next (s\<lparr>a_old := ap\<rparr>) | Raised e \<Rightarrow> Throws e s | Crashed f \<Rightarrow> Faults f s)"

text \<open>The switch inside the \<open>try\<close> block.\<close>

definition address_switch :: "env \<Rightarrow> change \<Rightarrow> acb \<Rightarrow> (sr_err, acb) flow" where
  "address_switch E c s =
     (case ch_op c of
        SR_OP_CREATED \<Rightarrow> parse_new E c (s\<lparr>a_create := True\<rparr>)
      | SR_OP_MODIFIED \<Rightarrow> then_flow (parse_old E c (s\<lparr>a_create := True, a_del := True\<rparr>)) (parse_new E c)
      | SR_OP_DELETED \<Rightarrow> parse_old E c (s\<lparr>a_del := True\<rparr>)
      | SR_OP_MOVED \<Rightarrow> Next s)"

text \<open>The two calls at the end of an iteration; the result of the later one stays.\<close>

definition address_remove :: "env \<Rightarrow> acb \<Rightarrow> acb" where
  "address_remove E s =
     (if a_del s \<and> fst (a_old s) \<noteq> [] then
        let (r, t) = ipv46_config_add_remove E (a_if_name s) (fst (a_old s)) (snd (a_old s)) False (a_trace s)
        in s\<lparr>a_op_rc := r, a_trace := t\<rparr>
      else s)"

definition address_add :: "env \<Rightarrow> acb \<Rightarrow> acb" where
  "address_add E s =
     (if a_create s \<and> fst (a_new s) \<noteq> [] then
        let (r, t) = ipv46_config_add_remove E (a_if_name s) (fst (a_new s)) (snd (a_new s)) True (a_trace s)
        in s\<lparr>a_op_rc := r, a_trace := t\<rparr>
      else s)"

definition address_body :: "env \<Rightarrow> nat \<Rightarrow> change \<Rightarrow> acb \<Rightarrow> (sr_err, acb) flow" where
  "address_body E i c s0 =
     (let s = s0\<lparr>a_vals := Some i\<rparr> in
      need Null_deref (case ch_new c of Some v \<Rightarrow> Some (v_xpath v) | None \<Rightarrow> map_option v_xpath (ch_old c)) s (\<lambda>xp.
      need Null_string (key_value E xp ''interface'' ''name'') s (\<lambda>n.
        let s = s\<lparr>a_if_name := n\<rparr> in
        if n = [] then Goto (s\<lparr>a_rc := SR_ERR_OPERATION_FAILED\<rparr>)
        else then_flow (catch_flow (address_switch E c s)) (\<lambda>s.
          Next (address_add E (address_remove E (s\<lparr>a_trace := a_trace s @ free_vals (a_vals s)\<rparr>)))))))"

definition address_finish :: "acb \<Rightarrow> (sr_err, acb) flow" where
  "address_finish s = Ret (a_op_rc s) (s\<lparr>a_trace := a_trace s @ [Free_iter]\<rparr>)"

definition address_cleanup :: "acb \<Rightarrow> sr_err \<times> effect list" where
  "address_cleanup s = (a_rc s, free_vals (a_vals s) @ [Free_iter])"

definition ietf_interface_ipv46_address_change_cb ::
    "env \<Rightarrow> sr_session \<Rightarrow> string \<Rightarrow> sr_event \<Rightarrow> trace \<Rightarrow> sr_err result \<times> trace" where
  "ietf_interface_ipv46_address_change_cb E session xpath event tr =
     (if event = SR_EV_APPLY then (Returned SR_ERR_OK, tr)
      else if changes_rc E tr xpath \<noteq> SR_ERR_OK then (Returned (changes_rc E tr xpath), tr @ [Free_iter])
      else leave_callback a_trace address_cleanup
        (then_flow (foreach_change event (address_body E) 0 (s_changes session xpath) (acb_init tr))
          (\<lambda>s. address_finish (s\<lparr>a_vals := vals_after_loop E event (a_vals s)\<rparr>))))"

lemmas address_defs =
  address_body_def address_switch_def parse_new_def parse_old_def free_vals_def

section \<open>Single calls\<close>

lemma config_add_remove_extends:
  "\<exists>es. snd (ipv46_config_add_remove E n a p add tr) = tr @ es \<and> freed_vals es = [] \<and> iter_frees es = 0"
  by (auto simp: ipv46_config_add_remove_def call_om_write_def call_om_remove_def Let_def trace_simps
      split: option.splits sum.splits)

lemma config_add_remove_frees [simp]:
  "freed_vals (snd (ipv46_config_add_remove E n a p add tr)) = freed_vals tr"
  "iter_frees (snd (ipv46_config_add_remove E n a p add tr)) = iter_frees tr"
  using config_add_remove_extends [of E n a p add tr] by (auto simp: trace_simps)

lemma ipv46_config_eq:
  "ipv46_config_add_remove E n a p add tr =
     (case (itf_find E tr n, prefix_exn E a p) of
        (None, _) \<Rightarrow> (SR_ERR_INVAL_ARG, tr)
      | (Some i, Some e) \<Rightarrow> (SR_ERR_OPERATION_FAILED, tr)
      | (Some i, None) \<Rightarrow>
          if add then
            (if om_write E tr (l3_key E i a p) (Obj_l3 i (a, p)) = Inr RC_OK then SR_ERR_OK else SR_ERR_OPERATION_FAILED,
             tr @ [Om_write (l3_key E i a p) (Obj_l3 i (a, p)) (om_write E tr (l3_key E i a p) (Obj_l3 i (a, p)))])
          else
            (if om_remove E tr (l3_key E i a p) = None then SR_ERR_OK else SR_ERR_OPERATION_FAILED,
             tr @ [Om_remove (l3_key E i a p) (om_remove E tr (l3_key E i a p))]))"
  by (auto simp: ipv46_config_add_remove_def call_om_write_def call_om_remove_def Let_def
      split: option.splits sum.splits)

text \<open>One binding: for an interface and a prefix that VOM accepts there is exactly one call, the
  write or the removal of the binding under its key, and the result is \<open>SR_ERR_OK\<close> just
  when that call succeeds; in every other case VOM is not called and the result is an error.\<close>

theorem ipv46_config_outcome:
  "ipv46_config_add_remove E n a p add tr =
     (case (itf_find E tr n, prefix_exn E a p) of
        (None, _) \<Rightarrow> (SR_ERR_INVAL_ARG, tr)
      | (Some i, Some e) \<Rightarrow> (SR_ERR_OPERATION_FAILED, tr)
      | (Some i, None) \<Rightarrow>
          if add then
            (if om_write E tr (l3_key E i a p) (Obj_l3 i (a, p)) = Inr RC_OK then SR_ERR_OK else SR_ERR_OPERATION_FAILED,
             tr @ [Om_write (l3_key E i a p) (Obj_l3 i (a, p)) (om_write E tr (l3_key E i a p) (Obj_l3 i (a, p)))])
          else
            (if om_remove E tr (l3_key E i a p) = None then SR_ERR_OK else SR_ERR_OPERATION_FAILED,
             tr @ [Om_remove (l3_key E i a p) (om_remove E tr (l3_key E i a p))]))"
  by (rule ipv46_config_eq)

text \<open>Keys: two bindings have the same key only if they are on the same interface and print the
  same prefix, since the printed prefix of an address has no underscore.\<close>

theorem l3_key_inj:
  assumes "CHR ''_'' \<notin> set (prefix_str E a p)" and "CHR ''_'' \<notin> set (prefix_str E b q)"
  shows "l3_key E i a p = l3_key E j b q \<longleftrightarrow>
    itf_name i = itf_name j \<and> prefix_str E a p = prefix_str E b q"
proof
  assume "l3_key E i a p = l3_key E j b q"
  then have eq: "itf_name i @ CHR ''_'' # prefix_str E a p = itf_name j @ CHR ''_'' # prefix_str E b q"
    by (simp add: l3_key_def)
  have "find_last_of (CHR ''_'') (itf_name i @ CHR ''_'' # prefix_str E a p) = Some (length (itf_name i))"
    "find_last_of (CHR ''_'') (itf_name j @ CHR ''_'' # prefix_str E b q) = Some (length (itf_name j))"
    using assms by (simp_all add: find_last_of_append)
  with eq have "length (itf_name i) = length (itf_name j)" by simp
  with eq show "itf_name i = itf_name j \<and> prefix_str E a p = prefix_str E b q" by simp
qed (simp add: l3_key_def)

theorem l3_key_inj_witness:
  "l3_key sample_env \<lparr>itf_name = ''a_b'', itf_type = Type_from_string [], itf_admin = Admin_from_int True\<rparr> ''10.0.0.1'' 24 \<noteq>
   l3_key sample_env \<lparr>itf_name = ''a'', itf_type = Type_from_string [], itf_admin = Admin_from_int True\<rparr> ''10.0.0.1'' 24"
proof -
  have "CHR ''_'' \<notin> set (prefix_str sample_env ''10.0.0.1'' 24)"
    using dec_digits is_digit_not_sign by fastforce
  from l3_key_inj [OF this this] show ?thesis by simp
qed

section \<open>The memory of the notification\<close>

fun binds_or_frees :: "effect \<Rightarrow> bool" where
  "binds_or_frees (Om_write k (Obj_l3 i ap) r) = True"
| "binds_or_frees (Om_remove k r) = True"
| "binds_or_frees (Free_vals i) = True"
| "binds_or_frees _ = False"

lemma config_add_remove_emits:
  "\<exists>es. snd (ipv46_config_add_remove E n a p add tr) = tr @ es \<and> list_all binds_or_frees es"
  by (auto simp: ipv46_config_eq split: option.splits)

lemma address_remove_facts:
  "\<exists>es. a_trace (address_remove E s) = a_trace s @ es \<and> list_all binds_or_frees es"
  "freed_vals (a_trace (address_remove E s)) = freed_vals (a_trace s)"
  "iter_frees (a_trace (address_remove E s)) = iter_frees (a_trace s)"
  "a_vals (address_remove E s) = a_vals s"
  using config_add_remove_emits config_add_remove_frees
  by (auto simp: address_remove_def split_beta Let_def)

lemma address_add_facts:
  "\<exists>es. a_trace (address_add E s) = a_trace s @ es \<and> list_all binds_or_frees es"
  "freed_vals (a_trace (address_add E s)) = freed_vals (a_trace s)"
  "iter_frees (a_trace (address_add E s)) = iter_frees (a_trace s)"
  "a_vals (address_add E s) = a_vals s"
  using config_add_remove_emits config_add_remove_frees
  by (auto simp: address_add_def split_beta Let_def)

lemma address_switch_frame:
  "a_trace (flow_state (catch_flow (address_switch E c s))) = a_trace s"
  "a_vals (flow_state (catch_flow (address_switch E c s))) = a_vals s"
  "catch_flow (address_switch E c s) \<noteq> Goto t" "catch_flow (address_switch E c s) \<noteq> Ret r t"
  "catch_flow (address_switch E c s) \<noteq> Throws e t"
  by (cases "ch_op c"; auto simp: address_switch_def parse_new_def parse_old_def flow_simps split: result.splits)+

text \<open>
  A change whose interface has an empty name.  The name is read from the xpath of the new
  value, or of the old one when there is no new one.
\<close>

definition change_itf :: "env \<Rightarrow> change \<Rightarrow> string option" where
  "change_itf E c =
     Option.bind (case ch_new c of Some v \<Rightarrow> Some v | None \<Rightarrow> ch_old c)
       (\<lambda>v. key_value E (v_xpath v) ''interface'' ''name'')"

definition unnamed :: "env \<Rightarrow> change \<Rightarrow> bool" where
  "unnamed E c \<longleftrightarrow> change_itf E c = Some []"

lemma address_body_cases:
  obtains
    (fault) f where "address_body E i c s = Faults f (s\<lparr>a_vals := Some i\<rparr>)"
  | (fault') n f t where "address_body E i c s = Faults f t" "a_trace t = a_trace s"
  | (no_name) t where "address_body E i c s = Goto t" "a_trace t = a_trace s" "a_vals t = Some i"
      "unnamed E c" "a_rc t = SR_ERR_OPERATION_FAILED"
  | (go_on) t where "address_body E i c s = Next (address_add E (address_remove E t))"
      "a_trace t = a_trace s @ [Free_vals i]" "a_vals t = Some i" "\<not> unnamed E c"
proof -
  let ?xp = "case ch_new c of Some v \<Rightarrow> Some (v_xpath v) | None \<Rightarrow> map_option v_xpath (ch_old c)"
  show thesis
  proof (cases ?xp)
    case None
    then show thesis by (intro fault) (simp add: address_body_def)
  next
    case (Some xp)
    show thesis
    proof (cases "key_value E xp ''interface'' ''name''")
      case None
      with Some show thesis by (intro fault) (simp add: address_body_def)
    next
      case name: (Some n)
      with Some have unnamed: "unnamed E c \<longleftrightarrow> n = []"
        by (auto simp: unnamed_def change_itf_def split: option.splits)
      let ?s = "s\<lparr>a_vals := Some i, a_if_name := n\<rparr>"
      note frame = address_switch_frame [of E c ?s]
      show thesis
      proof (cases "n = []")
        case True
        with Some name show thesis
          by (intro no_name [of "?s\<lparr>a_rc := SR_ERR_OPERATION_FAILED\<rparr>"]) (simp_all add: address_body_def unnamed)
      next
        case False
        show thesis
        proof (cases "catch_flow (address_switch E c ?s)")
          case (Next t)
          with Some name False frame(1,2) show thesis
            by (intro go_on [of "t\<lparr>a_trace := a_trace t @ free_vals (a_vals t)\<rparr>"])
              (simp_all add: address_body_def flow_simps free_vals_def unnamed)
        next
          case (Faults f t)
          with Some name False frame(1) show thesis
            by (intro fault' [of f t]) (simp_all add: address_body_def flow_simps)
        qed (use frame in auto)
      qed
    qed
  qed
qed

interpretation address_callback: config_callback
  "address_body E" a_trace a_vals binds_or_frees "\<lambda>v s. s\<lparr>a_vals := v\<rparr>" address_finish address_cleanup for E
proof
  show "\<exists>es. a_trace (flow_state (address_body E i c s)) = a_trace s @ es \<and> list_all binds_or_frees es" for i c s
  proof (cases rule: address_body_cases [of E i c s])
    case (go_on t)
    obtain es where "a_trace (address_remove E t) = a_trace t @ es" "list_all binds_or_frees es"
      using address_remove_facts(1) by blast
    moreover obtain es' where "a_trace (address_add E (address_remove E t)) = a_trace (address_remove E t) @ es'"
      "list_all binds_or_frees es'" using address_add_facts(1) by blast
    ultimately show ?thesis using go_on by (simp add: flow_simps)
  qed (auto simp: flow_simps)
  show "a_vals t = Some i \<and> freed_vals (a_trace t) = freed_vals (a_trace s) @ [i] \<and>
      iter_frees (a_trace t) = iter_frees (a_trace s)" if "address_body E i c s = Next t" for i c s t
    using that
    by (cases rule: address_body_cases [of E i c s])
      (auto simp: address_add_facts(2-4) address_remove_facts(2-4) trace_simps)
  show "a_vals t = Some i \<and> freed_vals (a_trace t) = freed_vals (a_trace s) \<and>
      iter_frees (a_trace t) = iter_frees (a_trace s)" if "address_body E i c s = Goto t" for i c s t
    using that by (cases rule: address_body_cases [of E i c s]) auto
  show "address_body E i c s \<noteq> Ret r t" for i c s r t
    by (cases rule: address_body_cases [of E i c s]) auto
qed (auto simp: address_cleanup_def address_finish_def trace_simps)

text \<open>
  A change that can be read: it has a value whose xpath names the key of an interface, and the
  values its operation parses hold the members of the union that their leaves promise.
\<close>

definition parses :: "env \<Rightarrow> sr_val option \<Rightarrow> bool" where
  "parses E v \<longleftrightarrow>
     (case parse_interface_ipv46_address E v ([], 0) of Crashed f \<Rightarrow> False | Raised e \<Rightarrow> True | Returned ap \<Rightarrow> True)"

definition readable :: "env \<Rightarrow> change \<Rightarrow> bool" where
  "readable E c \<longleftrightarrow> change_itf E c \<noteq> None \<and>
     (case ch_op c of
        SR_OP_CREATED \<Rightarrow> parses E (ch_new c)
      | SR_OP_MODIFIED \<Rightarrow> parses E (ch_old c) \<and> parses E (ch_new c)
      | SR_OP_DELETED \<Rightarrow> parses E (ch_old c)
      | SR_OP_MOVED \<Rightarrow> True)"

lemma catch_flow_Faults_iff: "catch_flow m = Faults f t \<longleftrightarrow> m = Faults f t"
  by (cases m) (simp_all add: flow_simps)

lemma parses_no_crash: "parses E v \<Longrightarrow> parse_interface_ipv46_address E v ap \<noteq> Crashed f"
  by (auto simp: parses_def parse_interface_ipv46_address_def split: option.splits if_splits result.splits)

lemma parse_flows:
  "parses E (ch_new c) \<Longrightarrow> parse_new E c s \<noteq> Faults f t"
  "parses E (ch_old c) \<Longrightarrow> parse_old E c s \<noteq> Faults f t"
  using parses_no_crash by (auto simp: parse_new_def parse_old_def split: result.splits)

lemma address_switch_readable:
  assumes "readable E c"
  shows "catch_flow (address_switch E c s) \<noteq> Faults f t"
proof (cases "ch_op c")
  case SR_OP_MODIFIED
  with assms have "parses E (ch_old c)" "parses E (ch_new c)" by (simp_all add: readable_def)
  then show ?thesis
    using SR_OP_MODIFIED parse_flows
    by (cases "parse_old E c (s\<lparr>a_create := True, a_del := True\<rparr>)")
      (auto simp: address_switch_def flow_simps catch_flow_Faults_iff)
qed (use assms parse_flows in \<open>auto simp: readable_def address_switch_def flow_simps catch_flow_Faults_iff\<close>)

lemma address_body_readable:
  assumes "readable E c"
  shows "address_body E i c s \<noteq> Faults f t"
proof -
  let ?xp = "case ch_new c of Some v \<Rightarrow> Some (v_xpath v) | None \<Rightarrow> map_option v_xpath (ch_old c)"
  from assms obtain xp n where xp: "?xp = Some xp" "key_value E xp ''interface'' ''name'' = Some n"
    by (auto simp: readable_def change_itf_def split: option.splits bind_splits)
  let ?s = "s\<lparr>a_vals := Some i, a_if_name := n\<rparr>"
  from address_switch_readable [OF assms, of ?s] show ?thesis
    by (cases "catch_flow (address_switch E c ?s)") (simp_all add: address_body_def xp Let_def flow_simps)
qed

text \<open>How many changes the callback looks at: those up to and with the first one without a name.\<close>

definition looked_at :: "env \<Rightarrow> change list \<Rightarrow> nat" where
  "looked_at E cs = min (length cs) (Suc (length (takeWhile (\<lambda>c. \<not> unnamed E c) cs)))"

lemma address_body_unnamed:
  "address_body E i c s = Goto t \<Longrightarrow> unnamed E c \<and> a_rc t = SR_ERR_OPERATION_FAILED"
  "address_body E i c s = Next t \<Longrightarrow> \<not> unnamed E c"
  "address_body E i c s \<noteq> Throws e t"
  by (cases rule: address_body_cases [of E i c s]; auto)+

lemma address_loop_looked_at:
  assumes "ev \<noteq> SR_EV_ABORT"
  shows "foreach_change ev (address_body E) i cs s = Next t \<Longrightarrow> \<forall>c \<in> set cs. \<not> unnamed E c"
    and "foreach_change ev (address_body E) i cs s = Goto t \<Longrightarrow>
      (\<exists>c \<in> set cs. unnamed E c) \<and> a_rc t = SR_ERR_OPERATION_FAILED \<and> a_vals t = Some (i + looked_at E cs - 1)"
    and "foreach_change ev (address_body E) i cs s \<noteq> Throws e t"
    and "foreach_change ev (address_body E) i cs s = Faults f t \<Longrightarrow> \<exists>c \<in> set cs. \<not> readable E c"
proof (induction cs arbitrary: i s)
  case (Cons c cs)
  have step: "looked_at E (c # cs) = (if unnamed E c then 1 else Suc (looked_at E cs))"
    by (simp add: looked_at_def)
  {
    case 1
    then obtain u where u: "address_body E i c s = Next u"
      "foreach_change ev (address_body E) (Suc i) cs u = Next t"
      using assms by (auto simp: then_flow_Next_iff)
    with address_body_unnamed(2) [OF u(1)] Cons.IH(1) [of "Suc i" u] show ?case by simp
  next
    case 2
    show ?case
    proof (cases "address_body E i c s")
      case (Next u)
      with 2 assms have "foreach_change ev (address_body E) (Suc i) cs u = Goto t" by (simp add: flow_simps)
      from Cons.IH(2) [OF this] address_body_unnamed(2) [OF Next] show ?thesis by (simp add: step)
    next
      case (Goto u)
      with 2 assms have "u = t" by (simp add: flow_simps)
      with address_body_unnamed(1) [OF Goto] address_callback.body_Goto [OF Goto] show ?thesis
        by (simp add: step)
    qed (use 2 assms in \<open>auto simp: flow_simps\<close>)
  next
    case 3
    show ?case
    proof (cases "address_body E i c s")
      case (Next u)
      with Cons.IH(3) [of "Suc i" u] assms show ?thesis by (simp add: flow_simps)
    qed (use assms address_body_unnamed(3) in \<open>auto simp: flow_simps\<close>)
  next
    case 4
    show ?case
    proof (cases "readable E c")
      case True
      show ?thesis
      proof (cases "address_body E i c s")
        case (Next u)
        with 4 assms have "foreach_change ev (address_body E) (Suc i) cs u = Faults f t" by (simp add: flow_simps)
        from Cons.IH(4) [OF this] show ?thesis by simp
      qed (use 4 assms address_body_readable [OF True] in \<open>auto simp: flow_simps\<close>)
    qed simp
  }
qed simp_all

text \<open>C23: Memory and exceptions: no exception leaves the callback, and whenever it returns from
  anything but an apply or abort event it has given back the iterator once and the values of
  every change it looked at exactly once, in order: of all changes, or, when the xpath of one of
  them gives an interface without a name, of those up to and with the first such change, and
  then it answers \<open>SR_ERR_OPERATION_FAILED\<close>.  It only crashes on a batch with a change that
  cannot be read.\<close>

theorem ipv46_address_frees:
  assumes "event \<noteq> SR_EV_APPLY" and "event \<noteq> SR_EV_ABORT" and "changes_rc E tr xpath = SR_ERR_OK"
    and "cs = s_changes session xpath"
  shows "case ietf_interface_ipv46_address_change_cb E session xpath event tr of
      (Raised e, t) \<Rightarrow> False
    | (Crashed f, t) \<Rightarrow> (\<exists>c \<in> set cs. \<not> readable E c)
    | (Returned r, t) \<Rightarrow> iter_frees t = Suc (iter_frees tr) \<and>
        freed_vals t = freed_vals tr @ [0..<looked_at E cs] \<and>
        ((\<exists>c \<in> set cs. unnamed E c) \<longrightarrow> r = SR_ERR_OPERATION_FAILED)"
proof -
  let ?l = "foreach_change event (address_body E) 0 cs (acb_init tr)"
  have init: "a_trace (acb_init tr) = tr" by (simp add: acb_init_def)
  have run: "ietf_interface_ipv46_address_change_cb E session xpath event tr =
      leave_callback a_trace address_cleanup
        (then_flow ?l (\<lambda>s. address_finish (s\<lparr>a_vals := vals_after_loop E event (a_vals s)\<rparr>)))"
    using assms by (simp add: ietf_interface_ipv46_address_change_cb_def)
  show ?thesis
  proof (cases ?l)
    case (Next s)
    note named = address_loop_looked_at(1) [OF assms(2) Next]
    then have "takeWhile (\<lambda>c. \<not> unnamed E c) cs = cs" by simp
    then have "looked_at E cs = length cs" by (simp add: looked_at_def del: takeWhile_eq_all_conv)
    with address_callback.loop_Next [OF Next assms(2)] named show ?thesis
      by (simp add: run Next flow_simps address_finish_def trace_simps init)
  next
    case (Goto s)
    note stop = address_loop_looked_at(2) [OF assms(2) Goto]
    then have pos: "0 < looked_at E cs" by (cases cs) (simp_all add: looked_at_def)
    from address_callback.loop_Goto [OF Goto assms(2)] stop pos
    have frees: "freed_vals (a_trace s) = freed_vals tr @ [0..<looked_at E cs - 1]" "iter_frees (a_trace s) = iter_frees tr"
      by (auto simp: init)
    have "[0..<looked_at E cs] = [0..<looked_at E cs - 1] @ [looked_at E cs - 1]"
      using pos by (cases "looked_at E cs") simp_all
    with stop frees show ?thesis
      by (simp add: run Goto flow_simps address_cleanup_def free_vals_def trace_simps)
  next
    case (Ret r s)
    with address_callback.loop_no_Ret show ?thesis by blast
  next
    case (Throws e s)
    with address_loop_looked_at(3) [OF assms(2)] show ?thesis by blast
  next
    case (Faults f s)
    with address_loop_looked_at(4) [OF assms(2) Faults] show ?thesis by (simp add: run flow_simps)
  qed
qed

text \<open>A batch that is stopped by its second change of three.\<close>

theorem ipv46_address_frees_witness:
  "case ietf_interface_ipv46_address_change_cb sample_env
      (sample_session
        [sample_created (sample_leaf ''eth0'' ''ip'') (String_val ''10.0.0.1''),
         sample_created (sample_leaf [] ''ip'') (String_val ''10.0.0.2''),
         sample_created (sample_leaf ''eth0'' ''ip'') (String_val ''10.0.0.3'')]) ''/x'' SR_EV_VERIFY [] of
      (Raised e, t) \<Rightarrow> False
    | (Crashed f, t) \<Rightarrow> False
    | (Returned r, t) \<Rightarrow> r = SR_ERR_OPERATION_FAILED \<and> iter_frees t = 1 \<and> freed_vals t = [0, 1]"
proof -
  let ?cs = "[sample_created (sample_leaf ''eth0'' ''ip'') (String_val ''10.0.0.1''),
    sample_created (sample_leaf [] ''ip'') (String_val ''10.0.0.2''),
    sample_created (sample_leaf ''eth0'' ''ip'') (String_val ''10.0.0.3'')]"
  let ?r = "ietf_interface_ipv46_address_change_cb sample_env (sample_session ?cs) ''/x'' SR_EV_VERIFY []"
  have "\<exists>r t. ?r = (Returned r, t)"
    by (simp add: ietf_interface_ipv46_address_change_cb_def address_defs flow_simps sample_simps acb_init_def
        parse_interface_ipv46_address_def address_add_def address_remove_def address_cleanup_def
        ipv46_config_add_remove_def sample_find_def Let_def)
  then obtain r t where r: "?r = (Returned r, t)" by blast
  have "unnamed sample_env (?cs ! 1)" "looked_at sample_env ?cs = 2"
    by (simp_all add: unnamed_def looked_at_def change_itf_def sample_simps)
  with ipv46_address_frees [of SR_EV_VERIFY sample_env "[]" "''/x''" ?cs "sample_session ?cs"]
  show ?thesis by (simp add: r trace_simps numeral_2_eq_2)
qed

section \<open>What the values of a change say\<close>

datatype addr_action = Addr_list | Addr_ip string | Addr_len u8 | Addr_skip

definition addr_action_of :: "env \<Rightarrow> sr_val \<Rightarrow> addr_action option" where
  "addr_action_of E v =
     (if v_type v = SR_LIST_T then Some Addr_list
      else if node_name_eq E (v_xpath v) ''ip'' then map_option Addr_ip (string_val (v_data v))
      else if node_name_eq E (v_xpath v) ''prefix-length'' then map_option Addr_len (uint8_val (v_data v))
      else if node_name_eq E (v_xpath v) ''netmask'' then
        Option.bind (Option.bind (string_val (v_data v)) (addr_from_string E))
          (\<lambda>a. case netmask_to_plen E a of Returned p \<Rightarrow> Some (Addr_len p) | _ \<Rightarrow> None)
      else Some Addr_skip)"

fun addr_apply :: "addr_action \<Rightarrow> string \<times> u8 \<Rightarrow> string \<times> u8" where
  "addr_apply Addr_list ap = ([], snd ap)"
| "addr_apply (Addr_ip a) ap = (a, snd ap)"
| "addr_apply (Addr_len p) ap = (fst ap, p)"
| "addr_apply Addr_skip ap = ap"

lemma parse_action:
  "addr_action_of E v = Some x \<Longrightarrow> parse_interface_ipv46_address E (Some v) ap = Returned (addr_apply x ap)"
  by (auto simp: addr_action_of_def parse_interface_ipv46_address_def
      split: if_splits bind_splits result.splits)

text \<open>A change that creates or deletes a value under the interface \<open>n\<close>, and what it says.\<close>

definition says :: "env \<Rightarrow> bool \<Rightarrow> string \<Rightarrow> change \<Rightarrow> addr_action \<Rightarrow> bool" where
  "says E add n c x \<longleftrightarrow>
     (\<exists>v. (if add then ch_op c = SR_OP_CREATED \<and> ch_new c = Some v
           else ch_op c = SR_OP_DELETED \<and> ch_new c = None \<and> ch_old c = Some v) \<and>
       key_value E (v_xpath v) ''interface'' ''name'' = Some n \<and> addr_action_of E v = Some x)"

section \<open>Batches of whole addresses\<close>

text \<open>
  The calls that the changes of a list of addresses lead to, change by change, each address
  being the change of the list entry, that of the ip and that of the prefix length; and what
  becomes of them.
\<close>

fun entry_actions :: "(string \<times> u8) list \<Rightarrow> addr_action list" where
  "entry_actions [] = []"
| "entry_actions ((a, p) # es) = [Addr_list, Addr_ip a, Addr_len p] @ entry_actions es"

fun entry_calls :: "u8 \<Rightarrow> (string \<times> u8) list \<Rightarrow> (string \<times> u8) list list" where
  "entry_calls prev [] = []"
| "entry_calls prev ((a, p) # es) = [[], [(a, prev)], [(a, p)]] @ entry_calls p es"

fun run_calls :: "env \<Rightarrow> bool \<Rightarrow> string \<Rightarrow> nat \<Rightarrow> (string \<times> u8) list list \<Rightarrow> sr_err \<times> trace \<Rightarrow> sr_err \<times> trace" where
  "run_calls E add n i [] rt = rt"
| "run_calls E add n i (calls # rest) rt =
     run_calls E add n (Suc i) rest
       (fold (\<lambda>(a, p) (r, t). ipv46_config_add_remove E n a p add t) calls (fst rt, snd rt @ [Free_vals i]))"

text \<open>One change of such a batch, from a state in which the other operation has not been seen.\<close>

definition one_sided :: "bool \<Rightarrow> acb \<Rightarrow> bool" where
  "one_sided add s \<longleftrightarrow> (if add then \<not> a_del s else \<not> a_create s)"

definition side :: "bool \<Rightarrow> acb \<Rightarrow> string \<times> u8" where
  "side add s = (if add then a_new s else a_old s)"

lemma address_body_says:
  assumes "says E add n c x" and "n \<noteq> []" and "one_sided add s"
  shows "\<exists>t. address_body E i c s = Next t \<and> one_sided add t \<and> side add t = addr_apply x (side add s) \<and>
    (a_op_rc t, a_trace t) =
      fold (\<lambda>(a, p) (r, t). ipv46_config_add_remove E n a p add t)
        (if fst (addr_apply x (side add s)) = [] then [] else [addr_apply x (side add s)])
        (a_op_rc s, a_trace s @ [Free_vals i])"
proof -
  from assms(1) obtain v where v: "addr_action_of E v = Some x"
    and key: "key_value E (v_xpath v) ''interface'' ''name'' = Some n"
    and c: "if add then ch_op c = SR_OP_CREATED \<and> ch_new c = Some v
           else ch_op c = SR_OP_DELETED \<and> ch_new c = None \<and> ch_old c = Some v"
    by (auto simp: says_def)
  show ?thesis
  proof (cases add)
    case True
    with c key assms(2,3) show ?thesis
      by (auto simp: address_defs parse_action [OF v] flow_simps Let_def address_add_def
          address_remove_def one_sided_def side_def split_beta)
  next
    case False
    with c key assms(2,3) show ?thesis
      by (auto simp: address_defs parse_action [OF v] flow_simps Let_def address_add_def
          address_remove_def one_sided_def side_def split_beta)
  qed
qed

lemma address_loop_entries:
  assumes "list_all2 (says E add n) cs (entry_actions es)" and "n \<noteq> []" and "\<forall>(a, p) \<in> set es. a \<noteq> []"
    and "one_sided add s" and "ev \<noteq> SR_EV_ABORT"
  shows "\<exists>t. foreach_change ev (address_body E) i cs s = Next t \<and>
    (a_op_rc t, a_trace t) = run_calls E add n i (entry_calls (snd (side add s)) es) (a_op_rc s, a_trace s)"
  using assms(1,3,4)
proof (induction es arbitrary: i s cs)
  case Nil
  then show ?case by simp
next
  case (Cons e es)
  obtain a p where e: "e = (a, p)" by (cases e)
  with Cons.prems(2) have a: "a \<noteq> []" by simp
  from Cons.prems(1) e obtain c1 c2 c3 cs' where cs: "cs = c1 # c2 # c3 # cs'"
    and says: "says E add n c1 Addr_list" "says E add n c2 (Addr_ip a)" "says E add n c3 (Addr_len p)"
    and rest: "list_all2 (says E add n) cs' (entry_actions es)"
    by (auto simp: list_all2_Cons2)
  from address_body_says [OF says(1) assms(2) Cons.prems(3), of i] obtain s1 where
    s1: "address_body E i c1 s = Next s1" "one_sided add s1" "side add s1 = ([], snd (side add s))"
      "a_op_rc s1 = a_op_rc s" "a_trace s1 = a_trace s @ [Free_vals i]" by auto
  from address_body_says [OF says(2) assms(2) s1(2), of "Suc i"] a s1(3) obtain s2 where
    s2: "address_body E (Suc i) c2 s1 = Next s2" "one_sided add s2" "side add s2 = (a, snd (side add s))"
      "(a_op_rc s2, a_trace s2) =
         ipv46_config_add_remove E n a (snd (side add s)) add (a_trace s1 @ [Free_vals (Suc i)])" by auto
  from address_body_says [OF says(3) assms(2) s2(2), of "Suc (Suc i)"] a s2(3) obtain s3 where
    s3: "address_body E (Suc (Suc i)) c3 s2 = Next s3" "one_sided add s3" "side add s3 = (a, p)"
      "(a_op_rc s3, a_trace s3) =
         ipv46_config_add_remove E n a p add (a_trace s2 @ [Free_vals (Suc (Suc i))])" by auto
  from Cons.prems(2) have "\<forall>(a, p) \<in> set es. a \<noteq> []" by simp
  from Cons.IH [OF rest this s3(2), of "Suc (Suc (Suc i))"] obtain t where
    t: "foreach_change ev (address_body E) (Suc (Suc (Suc i))) cs' s3 = Next t"
      "(a_op_rc t, a_trace t) =
         run_calls E add n (Suc (Suc (Suc i))) (entry_calls (snd (side add s3)) es) (a_op_rc s3, a_trace s3)"
    by blast
  have "snd (ipv46_config_add_remove E n a (snd (side add s)) add (a_trace s1 @ [Free_vals (Suc i)])) = a_trace s2"
    using s2(4) by (metis snd_conv)
  with t s1 s2 s3 assms(5) e cs show ?case
    by (intro exI [of _ t]) (simp add: flow_simps)
qed

text \<open>C5: A batch that creates, or one that deletes, whole addresses of an interface, each as the
  change of its list entry, of its ip and of its prefix length.  The callback binds, or
  unbinds, each address twice: when the ip arrives, with the prefix length of the address
  before it, 0 for the first one, and again when the prefix length arrives; and it returns
  the result of the very last of these calls, whatever the others gave.\<close>

theorem ipv46_address_batch:
  assumes "event \<noteq> SR_EV_APPLY" and "event \<noteq> SR_EV_ABORT" and "changes_rc E tr xpath = SR_ERR_OK"
    and "list_all2 (says E add n) (s_changes session xpath) (entry_actions es)"
    and "n \<noteq> []" and "\<forall>(a, p) \<in> set es. a \<noteq> []"
  shows "ietf_interface_ipv46_address_change_cb E session xpath event tr =
    (let (r, t) = run_calls E add n 0 (entry_calls 0 es) (SR_ERR_OK, tr)
     in (Returned r, t @ [Free_iter]))"
proof -
  have "one_sided add (acb_init tr)" "snd (side add (acb_init tr)) = 0"
    "a_op_rc (acb_init tr) = SR_ERR_OK" "a_trace (acb_init tr) = tr"
    by (simp_all add: one_sided_def side_def acb_init_def)
  with address_loop_entries [OF assms(4,5,6) _ assms(2), of "acb_init tr" 0] obtain t where
    "foreach_change event (address_body E) 0 (s_changes session xpath) (acb_init tr) = Next t"
    "(a_op_rc t, a_trace t) = run_calls E add n 0 (entry_calls 0 es) (SR_ERR_OK, tr)" by auto
  with assms(1,3) show ?thesis
    by (auto simp: ietf_interface_ipv46_address_change_cb_def flow_simps address_finish_def split_beta)
      (metis fst_conv snd_conv)+
qed

text \<open>The two addresses of the repository's own test, 192.168.0.1/24 and 142.168.0.1/14.\<close>

definition sample_addr_leaf :: "string \<Rightarrow> string" where
  "sample_addr_leaf l = sample_leaf ''host-vpp1'' (''ietf-ip:ipv4/address/'' @ l)"

definition sample_create_addr :: "string \<Rightarrow> u8 \<Rightarrow> change list" where
  "sample_create_addr a p =
     [\<lparr>ch_op = SR_OP_CREATED, ch_old = None,
       ch_new = Some \<lparr>v_xpath = sample_addr_leaf [], v_type = SR_LIST_T, v_data = No_data\<rparr>\<rparr>,
      sample_created (sample_addr_leaf ''ip'') (String_val a),
      sample_created (sample_addr_leaf ''prefix-length'') (Uint8_val p)]"

lemma sample_create_addr_says:
  "list_all2 (says sample_known_env True ''host-vpp1'') (sample_create_addr a p) [Addr_list, Addr_ip a, Addr_len p]"
  by (simp add: sample_create_addr_def says_def addr_action_of_def sample_addr_leaf_def sample_simps)

theorem ipv46_address_batch_witness:
  "\<exists>t. ietf_interface_ipv46_address_change_cb sample_known_env
     (sample_session (sample_create_addr ''192.168.0.1'' 24 @ sample_create_addr ''142.168.0.1'' 14))
     ''/x'' SR_EV_VERIFY [] = (Returned SR_ERR_OK, t) \<and>
   map (\<lambda>e. case e of Om_write k x r \<Rightarrow> k | _ \<Rightarrow> []) (config_ops t) =
     [''l3_host-vpp1_192.168.0.1/0'', ''l3_host-vpp1_192.168.0.1/24'',
      ''l3_host-vpp1_142.168.0.1/24'', ''l3_host-vpp1_142.168.0.1/14'']"
proof -
  let ?s = "sample_session (sample_create_addr ''192.168.0.1'' 24 @ sample_create_addr ''142.168.0.1'' 14)"
  have says: "list_all2 (says sample_known_env True ''host-vpp1'') (s_changes ?s ''/x'')
      (entry_actions [(''192.168.0.1'', 24), (''142.168.0.1'', 14)])"
    using sample_create_addr_says [of "''192.168.0.1''" 24] sample_create_addr_says [of "''142.168.0.1''" 14]
    by (simp only: sample_session_changes entry_actions.simps append_Nil2 list_all2_appendI)
  have decs: "dec 0 = ''0''" "dec 24 = ''24''" "dec 14 = ''14''" by code_simp+
  from ipv46_address_batch [OF _ _ _ says, of SR_EV_VERIFY "[]"] show ?thesis
    by (simp add: ipv46_config_eq l3_key_def decs trace_simps)
qed

section \<open>Batches without an ip\<close>

text \<open>Every value present says something, and none of them is an ip.\<close>

definition says_no_ip :: "env \<Rightarrow> change \<Rightarrow> bool" where
  "says_no_ip E c \<longleftrightarrow>
     (\<exists>v. (case ch_new c of Some v \<Rightarrow> Some v | None \<Rightarrow> ch_old c) = Some v \<and>
        (\<exists>n. n \<noteq> [] \<and> key_value E (v_xpath v) ''interface'' ''name'' = Some n)) \<and>
     (\<forall>v. ch_new c = Some v \<or> ch_old c = Some v \<longrightarrow>
        (\<exists>x. addr_action_of E v = Some x \<and> (\<forall>a. x \<noteq> Addr_ip a)))"

lemma addr_apply_no_ip: "\<forall>a. x \<noteq> Addr_ip a \<Longrightarrow> fst ap = [] \<Longrightarrow> fst (addr_apply x ap) = []"
  by (cases x) auto

lemma parse_no_ip:
  assumes "\<forall>v. val = Some v \<longrightarrow> (\<exists>x. addr_action_of E v = Some x \<and> (\<forall>a. x \<noteq> Addr_ip a))" and "fst ap = []"
  shows "(\<exists>bp. parse_interface_ipv46_address E val ap = Returned bp \<and> fst bp = []) \<or>
    (\<exists>e. parse_interface_ipv46_address E val ap = Raised e)"
proof (cases val)
  case None
  then show ?thesis by (simp add: parse_interface_ipv46_address_def)
next
  case (Some v)
  with assms(1) obtain x where x: "addr_action_of E v = Some x" "\<forall>a. x \<noteq> Addr_ip a" by blast
  with Some assms(2) show ?thesis by (auto simp: parse_action addr_apply_no_ip)
qed

lemma address_body_no_ip:
  assumes "says_no_ip E c" and "fst (a_new s) = []" and "fst (a_old s) = []"
  shows "\<exists>t. address_body E i c s = Next t \<and> fst (a_new t) = [] \<and> fst (a_old t) = [] \<and>
    a_op_rc t = a_op_rc s \<and> a_trace t = a_trace s @ [Free_vals i]"
proof -
  from assms(1) have new: "\<forall>v. ch_new c = Some v \<longrightarrow> (\<exists>x. addr_action_of E v = Some x \<and> (\<forall>a. x \<noteq> Addr_ip a))"
    and old: "\<forall>v. ch_old c = Some v \<longrightarrow> (\<exists>x. addr_action_of E v = Some x \<and> (\<forall>a. x \<noteq> Addr_ip a))"
    by (auto simp: says_no_ip_def)
  note parses = parse_no_ip [OF new assms(2)] parse_no_ip [OF old assms(3)]
  from assms(1) obtain v n where v: "(case ch_new c of Some v \<Rightarrow> Some v | None \<Rightarrow> ch_old c) = Some v"
    and n: "n \<noteq> []" "key_value E (v_xpath v) ''interface'' ''name'' = Some n"
    by (auto simp: says_no_ip_def)
  then have xp: "(case ch_new c of Some v \<Rightarrow> Some (v_xpath v) | None \<Rightarrow> map_option v_xpath (ch_old c)) = Some (v_xpath v)"
    by (auto split: option.splits)
  let ?s = "s\<lparr>a_vals := Some i, a_if_name := n\<rparr>"
  have "\<exists>t. catch_flow (address_switch E c ?s) = Next t \<and> fst (a_new t) = [] \<and> fst (a_old t) = [] \<and>
      a_op_rc t = a_op_rc s \<and> a_trace t = a_trace s \<and> a_vals t = Some i"
    using parses assms(2,3)
    by (cases "ch_op c") (auto simp: address_switch_def parse_new_def parse_old_def flow_simps)
  then obtain t where "catch_flow (address_switch E c ?s) = Next t" "fst (a_new t) = []" "fst (a_old t) = []"
      "a_op_rc t = a_op_rc s" "a_trace t = a_trace s" "a_vals t = Some i" by blast
  with xp n show ?thesis
    by (simp add: address_body_def flow_simps address_add_def address_remove_def free_vals_def)
qed

text \<open>C20: A batch in which no ip is created, modified or deleted changes nothing and succeeds: the
  new prefix length of an address that stays, which sysrepo reports as the modification of
  that leaf alone, never reaches VPP.\<close>

theorem ipv46_prefix_length_ignored:
  assumes "event \<noteq> SR_EV_APPLY" and "event \<noteq> SR_EV_ABORT" and "changes_rc E tr xpath = SR_ERR_OK"
    and "\<forall>c \<in> set (s_changes session xpath). says_no_ip E c"
    and "n = length (s_changes session xpath)"
  shows "ietf_interface_ipv46_address_change_cb E session xpath event tr =
    (Returned SR_ERR_OK, tr @ map Free_vals [0..<n] @ [Free_iter])"
proof -
  have loop: "\<exists>t. foreach_change event (address_body E) i cs s = Next t \<and> a_op_rc t = a_op_rc s \<and>
      a_trace t = a_trace s @ map Free_vals [i..<i + length cs]"
    if "\<forall>c \<in> set cs. says_no_ip E c" "fst (a_new s) = []" "fst (a_old s) = []" for i cs s
    using that
  proof (induction cs arbitrary: i s)
    case (Cons c cs)
    from Cons.prems address_body_no_ip [of E c s i] obtain u where
      u: "address_body E i c s = Next u" "fst (a_new u) = []" "fst (a_old u) = []"
        "a_op_rc u = a_op_rc s" "a_trace u = a_trace s @ [Free_vals i]" by auto
    from Cons.IH [OF _ u(2,3), of "Suc i"] Cons.prems(1) obtain t where
      "foreach_change event (address_body E) (Suc i) cs u = Next t" "a_op_rc t = a_op_rc u"
      "a_trace t = a_trace u @ map Free_vals [Suc i..<Suc i + length cs]" by auto
    with u assms(2) show ?case by (simp add: flow_simps upt_conv_Cons del: upt_Suc)
  qed simp
  from loop [OF assms(4), of "acb_init tr" 0] obtain t where
    "foreach_change event (address_body E) 0 (s_changes session xpath) (acb_init tr) = Next t"
    "a_op_rc t = SR_ERR_OK" "a_trace t = tr @ map Free_vals [0..<n]"
    using assms(5) by (auto simp: acb_init_def)
  with assms(1,3) show ?thesis
    by (simp add: ietf_interface_ipv46_address_change_cb_def flow_simps address_finish_def)
qed

theorem ipv46_prefix_length_ignored_witness:
  "ietf_interface_ipv46_address_change_cb sample_known_env
     (sample_session [sample_modified (sample_addr_leaf ''prefix-length'') (Uint8_val 24) (Uint8_val 16)])
     ''/x'' SR_EV_VERIFY [] = (Returned SR_ERR_OK, [Free_vals 0, Free_iter])"
proof -
  let ?c = "sample_modified (sample_addr_leaf ''prefix-length'') (Uint8_val 24) (Uint8_val 16)"
  have "says_no_ip sample_known_env ?c"
    by (auto simp: says_no_ip_def addr_action_of_def sample_addr_leaf_def sample_simps)
  then have "\<forall>c \<in> set (s_changes (sample_session [?c]) ''/x''). says_no_ip sample_known_env c" by simp
  from ipv46_prefix_length_ignored [OF _ _ _ this refl, of SR_EV_VERIFY "[]"] show ?thesis
    by simp
qed

end
