(* ===== verification/Itf_Store.thy ===== *)
theory Itf_Store
  imports Ietf_Interface
begin

text \<open>
  What \<open>ietf_interface_create_cb\<close> is for: a store of interfaces by name, in which
  interfaces are created, deleted and enabled or disabled.  The store is an abstraction of the
  trace; as long as every notification is about one interface, as a commit of one element of
  the list is, and VOM does what it is told, the callback refines the operations of the store.
\<close>

section \<open>The store and its operations\<close>

type_synonym itf_store = "string \<Rightarrow> itf option"

datatype itf_request = Create_itf string bool | Delete_itf string | Enable_itf string bool

text \<open>An operation answers as the callback does, and gives the next store.\<close>

fun store_apply :: "itf_request \<Rightarrow> itf_store \<Rightarrow> sr_err \<times> itf_store" where
  "store_apply (Create_itf n b) db =
     (SR_ERR_OK, db(n \<mapsto> \<lparr>itf_name = n, itf_type = Type_from_string ''ETHERNET'', itf_admin = Admin_from_int b\<rparr>))"
| "store_apply (Delete_itf n) db = (SR_ERR_OK, db(n := None))"
| "store_apply (Enable_itf n b) db =
     (case db n of
        None \<Rightarrow> (SR_ERR_OPERATION_FAILED, db)
      | Some i \<Rightarrow> (SR_ERR_OK, db(n \<mapsto> i\<lparr>itf_admin := Admin_from_int b\<rparr>)))"

fun store_run :: "itf_request list \<Rightarrow> itf_store \<Rightarrow> sr_err list \<times> itf_store" where
  "store_run [] db = ([], db)"
| "store_run (q # qs) db =
     (let (r, db') = store_apply q db; (rs, db'') = store_run qs db' in (r # rs, db''))"

text \<open>Every interface is under its own name.\<close>

definition store_wf :: "itf_store \<Rightarrow> bool" where
  "store_wf db \<longleftrightarrow> (\<forall>n i. db n = Some i \<longrightarrow> itf_name i = n)"

lemma store_wf_empty [simp]: "store_wf (\<lambda>_. None)"
  by (simp add: store_wf_def)

lemma store_wf_apply: "store_wf db \<Longrightarrow> store_wf (snd (store_apply q db))"
  by (cases q) (auto simp: store_wf_def split: option.splits)

section \<open>The store that a trace has built\<close>

text \<open>
  What VOM holds after a trace: an accepted write puts the interface under the key, a removal
  takes it away, and the object that \<open>find\<close> gives is the one in the store, so that
  setting its state changes the store.
\<close>

fun view_step :: "effect \<Rightarrow> itf_store \<Rightarrow> itf_store" where
  "view_step (Om_write k (Obj_itf i) (Inr RC_OK)) db = db(k \<mapsto> i)"
| "view_step (Om_remove k None) db = db(k := None)"
| "view_step (Itf_set n a) db = db(n := map_option (itf_admin_update (\<lambda>_. a)) (db n))"
| "view_step _ db = db"

definition itf_view :: "trace \<Rightarrow> itf_store" where
  "itf_view tr = fold view_step tr (\<lambda>_. None)"

lemma itf_view_append [trace_simps]: "itf_view (xs @ ys) = fold view_step ys (itf_view xs)"
  by (simp add: itf_view_def)

lemma view_frees [simp]: "fold view_step (map Free_vals is) db = db"
  by (induction "is") simp_all

lemma view_cleanup [simp]: "fold view_step (cleanup_after E n) db = db"
  by (simp add: cleanup_after_def free_vals_def split: option.split)

text \<open>
  VOM does what it is told: the changes can be read, an interface has its name as its key, is
  written and removed without an error, and is found exactly when the store has it.
\<close>

definition vom_works :: "env \<Rightarrow> bool" where
  "vom_works E \<longleftrightarrow>
     (\<forall>t x. changes_rc E t x = SR_ERR_OK) \<and> (\<forall>i. itf_key E i = itf_name i) \<and>
     (\<forall>t k i. om_write E t k (Obj_itf i) = Inr RC_OK) \<and> (\<forall>t k. om_remove E t k = None) \<and>
     (\<forall>t n. itf_find E t n = itf_view t n)"

lemma vom_worksD:
  assumes "vom_works E"
  shows "changes_rc E t x = SR_ERR_OK" "itf_key E i = itf_name i"
    "om_write E t k (Obj_itf i) = Inr RC_OK" "om_remove E t k = None" "itf_find E t n = itf_view t n"
  using assms by (simp_all add: vom_works_def)

section \<open>The request of a notification\<close>

text \<open>
  The actions of the changes, without those the callback skips.  A notification creates an
  interface when it gives its name, the Ethernet type and its state, in any order; it deletes
  one when it deletes the name; it enables or disables one by a change of one leaf.
\<close>

definition asked_actions :: "env \<Rightarrow> change list \<Rightarrow> itf_action list" where
  "asked_actions E cs = filter (\<lambda>a. a \<noteq> Act_skip) (actions E cs)"

fun request_actions :: "itf_request \<Rightarrow> itf_action set" where
  "request_actions (Create_itf n b) = {Act_name n, Act_type ''iana-if-type:ethernetCsmacd'', Act_enabled b}"
| "request_actions (Delete_itf n) = {Act_delete n}"
| "request_actions (Enable_itf n b) = {Act_set n b}"

fun request_name :: "itf_request \<Rightarrow> string" where
  "request_name (Create_itf n b) = n"
| "request_name (Delete_itf n) = n"
| "request_name (Enable_itf n b) = n"

definition asks :: "env \<Rightarrow> change list \<Rightarrow> itf_request \<Rightarrow> bool" where
  "asks E cs q \<longleftrightarrow>
     (\<forall>c \<in> set cs. itf_action_of E c \<noteq> None) \<and> distinct (asked_actions E cs) \<and>
     set (asked_actions E cs) = request_actions q \<and> request_name q \<noteq> []"

lemma asks_action:
  assumes "asks E cs q" and "c \<in> set cs"
  shows "\<exists>a. itf_action_of E c = Some a \<and> (a = Act_skip \<or> a \<in> request_actions q)"
proof -
  from assms obtain a where a: "itf_action_of E c = Some a" by (auto simp: asks_def)
  with assms(2) have "a \<in> set (actions E cs)" by (rule actions_set)
  with assms(1) have "a = Act_skip \<or> a \<in> request_actions q"
    by (auto simp: asks_def asked_actions_def)
  with a show ?thesis by simp
qed

lemma asks_actions_set: "asks E cs q \<Longrightarrow> a \<noteq> Act_skip \<Longrightarrow> a \<in> set (actions E cs) \<longleftrightarrow> a \<in> request_actions q"
  by (auto simp: asks_def asked_actions_def)

lemma set_map_filter: "set (List.map_filter f xs) = {y. \<exists>x \<in> set xs. f x = Some y}"
  by (induction xs) (auto split: option.splits)

lemma distinct_singleton: "distinct xs \<Longrightarrow> set xs = {x} \<Longrightarrow> xs = [x]"
  by (cases xs) (auto dest: subset_singletonD)

lemma last_all_equal:
  assumes "set xs = {x}"
  shows "last (y # xs) = x" and "last xs = x"
proof -
  from assms have "xs \<noteq> []" by auto
  with last_in_set [of xs] assms show "last (y # xs) = x" and "last xs = x" by auto
qed

lemma act_names_iff: "act_names a = Some n \<longleftrightarrow> a = Act_name n \<or> a = Act_delete n"
  by (cases a) auto

lemma act_enables_iff: "act_enables a = Some b \<longleftrightarrow> a = Act_enabled b"
  by (cases a) auto

lemma in_act_names:
  "n \<in> set (List.map_filter act_names as) \<longleftrightarrow> Act_name n \<in> set as \<or> Act_delete n \<in> set as"
  by (auto simp: set_map_filter act_names_iff)

lemma asks_names:
  assumes "asks E cs q" and "\<forall>n b. q \<noteq> Enable_itf n b"
  shows "set (List.map_filter act_names (actions E cs)) = {request_name q}"
  using assms by (cases q) (auto simp: in_act_names asks_actions_set)

lemma asks_create_itf:
  assumes "asks E cs (Create_itf n b)"
  shows "requested_itf E j cs =
    Some \<lparr>itf_name = n, itf_type = Type_from_string ''ETHERNET'', itf_admin = Admin_from_int b\<rparr>"
proof -
  from assms have "set (List.map_filter act_enables (actions E cs)) = {b}"
    by (auto simp: set_map_filter act_enables_iff asks_actions_set)
  note enables = last_all_equal [OF this]
  from asks_names [OF assms] have "set (List.map_filter act_names (actions E cs)) = {n}" by simp
  note names = last_all_equal [OF this]
  from assms have "n \<noteq> []" "Act_type ''iana-if-type:ethernetCsmacd'' \<in> set (actions E cs)"
    by (simp_all add: asks_actions_set) (simp add: asks_def)
  then show ?thesis by (simp add: requested_itf_def Let_def names enables del: last.simps)
qed

text \<open>A notification that sets one leaf, between changes that ask for nothing.\<close>

lemma asks_enable_split:
  assumes "asks E cs (Enable_itf n b)"
  obtains pre c post where "cs = pre @ c # post" "itf_action_of E c = Some (Act_set n b)"
    "\<forall>c \<in> set pre. itf_action_of E c = Some Act_skip" "\<forall>c \<in> set post. itf_action_of E c = Some Act_skip"
proof -
  let ?P = "\<lambda>c. the (itf_action_of E c) \<noteq> Act_skip"
  from assms have "asked_actions E cs = [Act_set n b]"
    by (auto simp: asks_def intro: distinct_singleton)
  then obtain c where c: "filter ?P cs = [c]" "the (itf_action_of E c) = Act_set n b"
    by (auto simp: asked_actions_def actions_def filter_map comp_def)
  from c(1) obtain pre post where
    cs: "cs = pre @ c # post" "\<forall>c \<in> set pre. \<not> ?P c" "\<forall>c \<in> set post. \<not> ?P c"
    by (auto simp: filter_eq_Cons_iff filter_empty_conv empty_filter_conv)
  from assms have some: "\<forall>c \<in> set cs. itf_action_of E c \<noteq> None" by (simp add: asks_def)
  then have skip: "itf_action_of E d = Some Act_skip" if "d \<in> set cs" "\<not> ?P d" for d
    using that by (cases "itf_action_of E d") auto
  show ?thesis
  proof (rule that [OF cs(1)])
    show "itf_action_of E c = Some (Act_set n b)" using some c(2) cs(1) by auto
    show "\<forall>c \<in> set pre. itf_action_of E c = Some Act_skip" using skip cs by auto
    show "\<forall>c \<in> set post. itf_action_of E c = Some Act_skip" using skip cs by auto
  qed
qed

section \<open>One notification\<close>

text \<open>
  The callback does to the store what the request says, and answers as it does.  The flags
  that the code leaves uninitialised are assumed to be clear; the state in the builder is not.
\<close>

lemma create_refines:
  assumes "vom_works E" and "asks E (s_changes session xpath) (Create_itf n b)"
  shows "\<exists>t. ietf_interface_create_cb E session xpath SR_EV_VERIFY junk tr =
      (Returned SR_ERR_OK, t) \<and> itf_view t = snd (store_apply (Create_itf n b) (itf_view tr))"
proof -
  let ?cs = "s_changes session xpath"
  note vom = vom_worksD [OF assms(1)]
  have "is_creation (itf_action_of E c)" if "c \<in> set ?cs" for c
    using asks_action [OF assms(2) that] by auto
  moreover have "\<exists>m. Act_name m \<in> set (actions E ?cs)"
    using assms(2) by (auto simp: asks_actions_set)
  ultimately show ?thesis
    using create_batch_run [OF vom(1) refl refl, where tr = tr and xpath = xpath and session = session and junk = junk]
    by (auto simp: asks_create_itf [OF assms(2)] vom trace_simps loop_trace_def)
qed

lemma delete_refines:
  assumes "vom_works E" and "asks E (s_changes session xpath) (Delete_itf n)"
    and "\<not> junk_create junk" and "\<not> junk_modify junk"
  shows "\<exists>t. ietf_interface_create_cb E session xpath SR_EV_VERIFY junk tr =
      (Returned SR_ERR_OK, t) \<and> itf_view t = snd (store_apply (Delete_itf n) (itf_view tr))"
proof -
  let ?cs = "s_changes session xpath"
  note vom = vom_worksD [OF assms(1)]
  have "is_deletion (itf_action_of E c)" if "c \<in> set ?cs" for c
    using asks_action [OF assms(2) that] by auto
  moreover have "\<exists>m. Act_delete m \<in> set (actions E ?cs)"
    using assms(2) by (auto simp: asks_actions_set)
  moreover from asks_names [OF assms(2)]
  have "set (List.map_filter act_names (actions E ?cs)) = {n}" by simp
  note last_all_equal(2) [OF this]
  ultimately show ?thesis
    using delete_batch_run [OF vom(1) refl refl, where tr = tr and xpath = xpath and session = session and junk = junk] assms(3,4)
    by (auto simp: vom trace_simps loop_trace_def)
qed

lemma skips_are_modifications:
  assumes "\<forall>c \<in> set cs. itf_action_of E c = Some Act_skip"
  shows "\<forall>c \<in> set cs. is_modification (itf_action_of E c)"
    and "set (actions E cs) \<subseteq> {Act_skip}"
    and "fold view_step (mod_effects i (actions E cs)) db = db"
proof -
  show "fold view_step (mod_effects i (actions E cs)) db = db"
    using assms by (induction cs arbitrary: i) (simp_all add: actions_def)
qed (use assms in \<open>auto simp: actions_def\<close>)

lemma enable_refines:
  assumes "vom_works E" and "asks E (s_changes session xpath) (Enable_itf n b)"
    and "\<not> junk_create junk" and "store_wf (itf_view tr)"
  shows "\<exists>t. ietf_interface_create_cb E session xpath SR_EV_VERIFY junk tr =
      (Returned (fst (store_apply (Enable_itf n b) (itf_view tr))), t) \<and>
      itf_view t = snd (store_apply (Enable_itf n b) (itf_view tr))"
proof -
  note vom = vom_worksD [OF assms(1)]
  from assms(2) obtain pre c post where
    cs: "s_changes session xpath = pre @ c # post" and c: "itf_action_of E c = Some (Act_set n b)"
    and pre: "\<forall>c \<in> set pre. itf_action_of E c = Some Act_skip"
    and post: "\<forall>c \<in> set post. itf_action_of E c = Some Act_skip"
    by (rule asks_enable_split)
  note skips = skips_are_modifications [OF pre] skips_are_modifications [OF post]
  have known: "\<forall>n b. Act_set n b \<in> set (actions E pre) \<longrightarrow> (\<forall>t. itf_find E t n \<noteq> None)"
    using skips(2) by auto
  show ?thesis
  proof (cases "itf_view tr n")
    case (Some f)
    then have find: "itf_find E (tr @ mod_effects 0 (actions E pre)) n = Some f"
      by (simp add: vom trace_simps skips)
    from Some assms(4) have name: "itf_name f = n" by (simp add: store_wf_def)
    let ?t = "tr @ mod_effects 0 (actions E (pre @ c # post))"
    have "actions E (pre @ c # post) = actions E pre @ Act_set n b # actions E post"
      by (simp add: actions_def c)
    then have view: "itf_view ?t = (itf_view tr)(n \<mapsto> f\<lparr>itf_admin := Admin_from_int b\<rparr>)"
      by (simp add: trace_simps mod_effects_append skips Some)
    show ?thesis
      using modify_batch_run [OF vom(1) cs refl skips(1) c post known find refl refl, of junk] view
      by (simp add: assms(3) vom name Some Let_def itf_view_append)
  next
    case None
    let ?s = "icb_init junk tr"
    from create_loop_modifications [OF skips(1) known, of 0 ?s] obtain u where
      loop: "foreach_change SR_EV_VERIFY (create_body E) 0 pre ?s = Next u"
      and u: "icb_trace u = tr @ mod_effects 0 (actions E pre)"
      by (auto simp: icb_init_def)
    from None have "itf_find E (icb_trace u) n = None"
      by (simp add: vom u trace_simps skips)
    from create_body_set_unknown [OF c this, of "length pre"] loop
    have "foreach_change SR_EV_VERIFY (create_body E) 0 (s_changes session xpath) ?s =
        Goto (u\<lparr>icb_vals := Some (length pre), icb_intf := None, icb_rc := SR_ERR_OPERATION_FAILED\<rparr>)"
      by (simp add: cs foreach_change_append flow_simps)
    then show ?thesis
      by (simp add: ietf_interface_create_cb_def vom flow_simps icb_cleanup_def u trace_simps skips None
          free_vals_def)
  qed
qed

lemma create_cb_refines:
  assumes "vom_works E" and "asks E (s_changes session xpath) q"
    and "\<not> junk_create junk" and "\<not> junk_modify junk" and "store_wf (itf_view tr)"
  obtains t where
    "ietf_interface_create_cb E session xpath SR_EV_VERIFY junk tr =
       (Returned (fst (store_apply q (itf_view tr))), t)"
    "itf_view t = snd (store_apply q (itf_view tr))" "store_wf (itf_view t)"
proof -
  have "\<exists>t. ietf_interface_create_cb E session xpath SR_EV_VERIFY junk tr =
       (Returned (fst (store_apply q (itf_view tr))), t) \<and> itf_view t = snd (store_apply q (itf_view tr))"
  proof (cases q)
    case (Create_itf n b)
    with create_refines [OF assms(1), of session xpath n b junk tr] assms(2) show ?thesis by simp
  next
    case (Delete_itf n)
    with delete_refines [OF assms(1) _ assms(3,4), of session xpath n tr] assms(2) show ?thesis by simp
  next
    case (Enable_itf n b)
    with enable_refines [OF assms(1) _ assms(3,5), of session xpath n b] assms(2) show ?thesis by blast
  qed
  with that store_wf_apply [OF assms(5), of q] show ?thesis by auto
qed

section \<open>A history of notifications\<close>

text \<open>
  One notification after the other: the session of each, and what the uninitialised variables
  hold when it comes.
\<close>

fun create_cb_history ::
    "env \<Rightarrow> string \<Rightarrow> (sr_session \<times> create_junk) list \<Rightarrow> trace \<Rightarrow> sr_err result list \<times> trace" where
  "create_cb_history E xpath [] tr = ([], tr)"
| "create_cb_history E xpath ((session, junk) # ns) tr =
     (let (r, tr') = ietf_interface_create_cb E session xpath SR_EV_VERIFY junk tr;
          (rs, tr'') = create_cb_history E xpath ns tr'
      in (r # rs, tr''))"

definition notifies :: "env \<Rightarrow> string \<Rightarrow> sr_session \<times> create_junk \<Rightarrow> itf_request \<Rightarrow> bool" where
  "notifies E xpath n q \<longleftrightarrow>
     asks E (s_changes (fst n) xpath) q \<and> \<not> junk_create (snd n) \<and> \<not> junk_modify (snd n)"

text \<open>C4: Refinement: over any history of notifications about one interface each, where VOM does
  what it is told and the uninitialised flags happen to be clear, the callback is the store of
  interfaces by name.  Its answers are those of the store, an error for an interface that is
  not there included, and after it VOM holds what the store holds.\<close>

theorem ietf_store_refinement:
  assumes "vom_works E" and "list_all2 (notifies E xpath) ns qs" and "store_wf (itf_view tr)"
  shows "fst (create_cb_history E xpath ns tr) = map Returned (fst (store_run qs (itf_view tr))) \<and>
    itf_view (snd (create_cb_history E xpath ns tr)) = snd (store_run qs (itf_view tr))"
  using assms(2,3)
proof (induction ns qs arbitrary: tr rule: list_all2_induct)
  case (Cons n ns q qs)
  obtain session junk where n: "n = (session, junk)" by (cases n)
  with Cons.hyps(1) have q: "asks E (s_changes session xpath) q" "\<not> junk_create junk" "\<not> junk_modify junk"
    by (simp_all add: notifies_def)
  from create_cb_refines [OF assms(1) q Cons.prems] obtain t where t:
    "ietf_interface_create_cb E session xpath SR_EV_VERIFY junk tr =
       (Returned (fst (store_apply q (itf_view tr))), t)"
    "itf_view t = snd (store_apply q (itf_view tr))" "store_wf (itf_view t)" by blast
  from Cons.IH [OF t(3)] t(1,2) show ?case
    by (simp add: n case_prod_beta)
qed simp

definition store_env :: env where
  "store_env = sample_env\<lparr>itf_find := itf_view\<rparr>"

definition enabling :: "string \<Rightarrow> bool \<Rightarrow> change list" where
  "enabling n b = [sample_modified (sample_leaf n ''enabled'') (Bool_val (\<not> b)) (Bool_val b)]"

definition deleting :: "string \<Rightarrow> change list" where
  "deleting n = [sample_deleted (sample_leaf n ''type'') (String_val ''iana-if-type:ethernetCsmacd''),
     sample_deleted (sample_leaf n ''name'') (String_val n)]"

text \<open>Two interfaces are created, one is disabled, an unknown one is not, and one is deleted.\<close>

theorem ietf_store_refinement_witness:
  "\<exists>t. create_cb_history store_env ''/x''
      (map (\<lambda>cs. (sample_session cs, no_junk))
        [sample_create_itf ''eth0'', sample_create_itf ''eth1'', enabling ''eth0'' False,
         enabling ''eth2'' True, deleting ''eth1'']) [] =
    (map Returned [SR_ERR_OK, SR_ERR_OK, SR_ERR_OK, SR_ERR_OPERATION_FAILED, SR_ERR_OK], t) \<and>
    itf_view t =
      [''eth0'' \<mapsto> \<lparr>itf_name = ''eth0'', itf_type = Type_from_string ''ETHERNET'', itf_admin = Admin_from_int False\<rparr>]"
proof -
  let ?ns = "map (\<lambda>cs. (sample_session cs, no_junk))
        [sample_create_itf ''eth0'', sample_create_itf ''eth1'', enabling ''eth0'' False,
         enabling ''eth2'' True, deleting ''eth1'']"
  let ?qs = "[Create_itf ''eth0'' True, Create_itf ''eth1'' True, Enable_itf ''eth0'' False,
    Enable_itf ''eth2'' True, Delete_itf ''eth1'']"
  have works: "vom_works store_env" by (simp add: vom_works_def store_env_def)
  have env: "node_name_eq store_env = sample_node_name_eq" "key_value store_env = sample_key_value"
    by (simp_all add: store_env_def)
  have asked: "list_all2 (notifies store_env ''/x'') ?ns ?qs"
    by (simp add: notifies_def no_junk_def asks_def asked_actions_def actions_def itf_action_of_def env
        enabling_def deleting_def sample_simps)
  have "itf_view [] = (\<lambda>_. None)" by (simp add: itf_view_def)
  with ietf_store_refinement [OF works asked, of "[]"]
  have "fst (create_cb_history store_env ''/x'' ?ns []) =
      map Returned [SR_ERR_OK, SR_ERR_OK, SR_ERR_OK, SR_ERR_OPERATION_FAILED, SR_ERR_OK] \<and>
    itf_view (snd (create_cb_history store_env ''/x'' ?ns [])) =
      [''eth0'' \<mapsto> \<lparr>itf_name = ''eth0'', itf_type = Type_from_string ''ETHERNET'', itf_admin = Admin_from_int False\<rparr>]"
    by (simp add: fun_eq_iff)
  then show ?thesis by (metis prod.collapse)
qed

text \<open>An enabling that VPP refuses is not undone: the callback answers
  \<open>SR_ERR_OPERATION_FAILED\<close>, but the state was set on the object that VOM holds before the
  write was tried, so that the store has changed although the operation failed.\<close>

theorem ietf_refused_enabling_stays:
  assumes "changes_rc E tr xpath = SR_ERR_OK" and "asks E (s_changes session xpath) (Enable_itf n b)"
    and "\<forall>t n. itf_find E t n = itf_view t n" and "\<forall>t k x. om_write E t k x = Inr RC_OTHER"
    and "itf_view tr n = Some f" and "\<not> junk_create junk"
  shows "\<exists>t. ietf_interface_create_cb E session xpath SR_EV_VERIFY junk tr =
      (Returned SR_ERR_OPERATION_FAILED, t) \<and>
      itf_view t = (itf_view tr)(n \<mapsto> f\<lparr>itf_admin := Admin_from_int b\<rparr>)"
proof -
  from assms(2) obtain pre c post where
    cs: "s_changes session xpath = pre @ c # post" and c: "itf_action_of E c = Some (Act_set n b)"
    and pre: "\<forall>c \<in> set pre. itf_action_of E c = Some Act_skip"
    and post: "\<forall>c \<in> set post. itf_action_of E c = Some Act_skip"
    by (rule asks_enable_split)
  note skips = skips_are_modifications [OF pre] skips_are_modifications [OF post]
  have known: "\<forall>n b. Act_set n b \<in> set (actions E pre) \<longrightarrow> (\<forall>t. itf_find E t n \<noteq> None)"
    using skips(2) by auto
  from assms(5) have find: "itf_find E (tr @ mod_effects 0 (actions E pre)) n = Some f"
    by (simp add: assms(3) trace_simps skips)
  have "actions E (pre @ c # post) = actions E pre @ Act_set n b # actions E post"
    by (simp add: actions_def c)
  with modify_batch_run [OF assms(1) cs refl skips(1) c post known find refl refl, of junk] show ?thesis
    by (simp add: assms Let_def itf_view_append mod_effects_append skips)
qed

theorem ietf_refused_enabling_stays_witness:
  "\<exists>t. ietf_interface_create_cb (store_env\<lparr>om_write := \<lambda>_ _ _. Inr RC_OTHER\<rparr>)
      (sample_session (enabling ''eth0'' False)) ''/x'' SR_EV_VERIFY no_junk
      [Om_write ''eth0'' (Obj_itf \<lparr>itf_name = ''eth0'', itf_type = Type_from_string ''ETHERNET'',
         itf_admin = Admin_from_int True\<rparr>) (Inr RC_OK)] =
      (Returned SR_ERR_OPERATION_FAILED, t) \<and>
    itf_view t =
      [''eth0'' \<mapsto> \<lparr>itf_name = ''eth0'', itf_type = Type_from_string ''ETHERNET'', itf_admin = Admin_from_int False\<rparr>]"
proof -
  let ?E = "store_env\<lparr>om_write := \<lambda>_ _ _. Inr RC_OTHER\<rparr>"
  let ?f = "\<lparr>itf_name = ''eth0'', itf_type = Type_from_string ''ETHERNET'', itf_admin = Admin_from_int True\<rparr>"
  let ?tr = "[Om_write ''eth0'' (Obj_itf ?f) (Inr RC_OK)]"
  let ?session = "sample_session (enabling ''eth0'' False)"
  have asked: "asks ?E (s_changes ?session ''/x'') (Enable_itf ''eth0'' False)"
    by (simp add: asks_def asked_actions_def actions_def itf_action_of_def store_env_def enabling_def sample_simps)
  have view: "itf_view ?tr = [''eth0'' \<mapsto> ?f]" by (simp add: itf_view_def)
  have env: "changes_rc ?E ?tr ''/x'' = SR_ERR_OK" "\<forall>t n. itf_find ?E t n = itf_view t n"
    "\<forall>t k x. om_write ?E t k x = Inr RC_OTHER"
    by (simp_all add: store_env_def)
  have "itf_view ?tr ''eth0'' = Some ?f" by (simp add: view)
  from ietf_refused_enabling_stays [OF env(1) asked env(2,3) this, of no_junk] show ?thesis
    by (simp add: view no_junk_def)
qed

end
