(* ===== verification/Plugin_System.thy ===== *)
theory Plugin_System
  imports Sc_Plugins Oc_Interfaces Oc_State Nat_Table Ietf_Ipv46 Itf_Store
begin

text \<open>
  The plugin as a whole: after a successful start sysrepo calls the subscribed callbacks, the
  health check and at last the cleanup, one at a time and in any order.  Each call is a step;
  the state is that of the entry points, the static table of NAT entries and whether the
  process is still alive: a callback that crashes, or throws an exception into the C code that
  called it, ends it.
\<close>

section \<open>Steps\<close>

record sys =
  y_main :: sc_plugin_main
  y_table :: nat_table
  y_running :: bool

text \<open>What sysrepo asks: a notification, operational data, a health check, a stop.\<close>

datatype request =
    Notify callback sr_session string sr_event
  | Ask callback string
  | Check
  | Stop

fun returned :: "'r result \<Rightarrow> bool" where
  "returned (Returned r) = True"
| "returned _ = False"

definition after_call :: "sr_err result \<Rightarrow> trace \<Rightarrow> sys \<Rightarrow> sys" where
  "after_call r t y = y\<lparr>y_main := (y_main y)\<lparr>out := t\<rparr>, y_running := returned r\<rparr>"

abbreviation y_trace :: "sys \<Rightarrow> trace" where
  "y_trace y \<equiv> out (y_main y)"

inductive plugin_step :: "env \<Rightarrow> sys \<Rightarrow> request \<Rightarrow> sr_err result \<Rightarrow> sys \<Rightarrow> bool" for E where
  itf_create: "y_running y \<Longrightarrow> ietf_interface_create_cb E sess xp ev junk (y_trace y) = (r, t) \<Longrightarrow>
    plugin_step E y (Notify Cb_itf_create sess xp ev) r (after_call r t y)"
| ipv46_address: "y_running y \<Longrightarrow> ietf_interface_ipv46_address_change_cb E sess xp ev (y_trace y) = (r, t) \<Longrightarrow>
    plugin_step E y (Notify Cb_ipv46_address sess xp ev) r (after_call r t y)"
| oc_config: "y_running y \<Longrightarrow> oc_interfaces_config_cb E (Some sess) (Some xp) ev junk (y_trace y) = (r, t) \<Longrightarrow>
    plugin_step E y (Notify Cb_oc_config sess xp ev) r (after_call r t y)"
| nat_instance: "y_running y \<Longrightarrow> nat_instance_config_cb (Some sess) (Some xp) ev (y_trace y) = (r, t) \<Longrightarrow>
    plugin_step E y (Notify Cb_nat_instance sess xp ev) r (after_call r t y)"
| nat_mapping: "y_running y \<Longrightarrow>
    nat_mapping_table_config_cb E (Some sess) (Some xp) ev njunk (y_table y) (y_trace y) = (r, t, table) \<Longrightarrow>
    plugin_step E y (Notify Cb_nat_mapping sess xp ev) r ((after_call r t y)\<lparr>y_table := table\<rparr>)"
| itf_state: "y_running y \<Longrightarrow> ietf_interface_state_cb E xp (y_trace y) = (r, v, t) \<Longrightarrow>
    plugin_step E y (Ask Cb_itf_state xp) r (after_call r t y)"
| itf_statistics: "y_running y \<Longrightarrow> interface_statistics_cb E xp (y_trace y) = (r, v, t) \<Longrightarrow>
    plugin_step E y (Ask Cb_itf_statistics xp) r (after_call r t y)"
| oc_state: "y_running y \<Longrightarrow> oc_interfaces_state_cb E (Some xp) (Some ()) (Some ()) (y_trace y) = (r, v, t) \<Longrightarrow>
    plugin_step E y (Ask Cb_oc_state xp) r (after_call r t y)"
| nat_cap: "y_running y \<Longrightarrow> nat_cap_state_cb E xp (y_trace y) = (r, v, t) \<Longrightarrow>
    plugin_step E y (Ask Cb_nat_cap xp) r (after_call r t y)"
| check: "y_running y \<Longrightarrow> sr_plugin_health_check_cb E proc (y_main y) = Some (e, pm) \<Longrightarrow>
    plugin_step E y Check (Returned e) (y\<lparr>y_main := pm\<rparr>)"
| stop: "y_running y \<Longrightarrow>
    plugin_step E y Stop (Returned SR_ERR_OK) (y\<lparr>y_main := sr_plugin_cleanup_cb ctx (y_main y), y_running := False\<rparr>)"

inductive_cases plugin_stepE: "plugin_step E y q r y'"

text \<open>The states after a successful start of a fresh plugin, and what follows.\<close>

inductive reachable :: "env \<Rightarrow> sys \<Rightarrow> bool" for E where
  start: "sr_plugin_init_cb E proc sess ctx pm = Some (Returns SR_ERR_OK, ctx', pm') \<Longrightarrow> out pm = [] \<Longrightarrow>
    reachable E \<lparr>y_main = pm', y_table = Map.empty, y_running = True\<rparr>"
| step: "reachable E y \<Longrightarrow> plugin_step E y q r y' \<Longrightarrow> reachable E y'"

section \<open>The connection to VPP\<close>

text \<open>
  The connection as the calls of a trace leave it: not there, just made, or in use.  VOM is
  set up while there is no connection; a connection is only made where there is none, and
  before anything else is done with it VOM either learns what VPP has or replays what VPP
  should have, once.  Only then models subscribe, interfaces are dumped and the configuration
  is changed.  \<open>None\<close> stands for a trace that does not keep to this.
\<close>

datatype vpp_link = Link_down | Link_fresh | Link_up

definition link_step :: "effect \<Rightarrow> vpp_link \<Rightarrow> vpp_link option" where
  "link_step e l =
     (case e of
        Hw_init \<Rightarrow> if l = Link_down then Some l else None
      | Om_init \<Rightarrow> if l = Link_down then Some l else None
      | Hw_connect ok \<Rightarrow> if l = Link_down then Some (if ok then Link_fresh else l) else None
      | Hw_disconnect \<Rightarrow> Some Link_down
      | Om_populate r \<Rightarrow> if l = Link_fresh then Some Link_up else None
      | Om_replay \<Rightarrow> if l = Link_fresh then Some Link_up else None
      | Om_write k x r \<Rightarrow> if l = Link_up then Some l else None
      | Om_remove k r \<Rightarrow> if l = Link_up then Some l else None
      | Itf_set n a \<Rightarrow> if l = Link_up then Some l else None
      | Hw_dump q \<Rightarrow> if l = Link_up then Some l else None
      | Subscribe_change xp cb p rc \<Rightarrow> if l = Link_up then Some l else None
      | Subscribe_items xp cb rc \<Rightarrow> if l = Link_up then Some l else None
      | Free_vals i \<Rightarrow> Some l
      | Free_iter \<Rightarrow> Some l
      | Set_error m x \<Rightarrow> Some l
      | Unsubscribe \<Rightarrow> Some l)"

definition link_run :: "trace \<Rightarrow> vpp_link option \<Rightarrow> vpp_link option" where
  "link_run tr l = fold (\<lambda>e l. Option.bind l (link_step e)) tr l"


lemma link_run_simps [simp]:
  "link_run [] l = l"
  "link_run (e # es) l = link_run es (Option.bind l (link_step e))"
  "link_run (xs @ ys) l = link_run ys (link_run xs l)"
  by (simp_all add: link_run_def)


text \<open>The calls of a plugin in service, which leave the connection as it is.\<close>

definition served :: "effect \<Rightarrow> bool" where
  "served e \<longleftrightarrow> link_step e Link_up = Some Link_up"

lemma served_simps [simp]:
  "served (Om_write k x r)" "served (Om_remove k q)" "served (Itf_set n a)" "served (Free_vals i)"
  "served Free_iter" "served (Set_error m y)" "served (Hw_dump d)" "served (Subscribe_change xp cb p rc)"
  "served (Subscribe_items xp cb rc)"
  by (simp_all add: served_def link_step_def)


lemma link_run_failures [simp]: "link_run (failures n) (Some Link_down) = Some Link_down"
  by (induction n) (simp_all add: link_step_def)

lemma emits_served:
  "sets_or_frees e \<Longrightarrow> served e" "binds_or_frees e \<Longrightarrow> served e" "oc_emits e \<Longrightarrow> served e" "frees_vals e \<Longrightarrow> served e"
  by (cases e; simp)+

lemma frees_served: "list_all served (free_vals v @ [Free_iter])"
  by (simp add: free_vals_def split: option.split)

section \<open>Every callback only adds such calls to the trace\<close>

lemma issue_serves: "issue E d tr = (r, ds, t) \<Longrightarrow> \<exists>es. t = tr @ es \<and> config_ops es = [] \<and> list_all served es"
  by (auto simp: issue_def trace_simps split: flow.splits)

lemma leave_reply_trace [simp]: "snd (snd (leave_reply m tr)) = tr"
  by (cases m) (auto simp: flow_simps)

lemma ask_serves:
  "ietf_interface_state_cb E xp tr = (r, v, t) \<Longrightarrow> \<exists>es. t = tr @ es \<and> config_ops es = [] \<and> list_all served es"
  "interface_statistics_cb E xp tr = (r, v, t) \<Longrightarrow> t = tr"
  "oc_interfaces_state_cb E x a b tr = (r, v, t) \<Longrightarrow> \<exists>es. t = tr @ es \<and> config_ops es = [] \<and> list_all served es"
  "nat_cap_state_cb E xp tr = (r, v, t) \<Longrightarrow> t = tr"
proof -
  have reply: "leave_reply m tr = (r, v, t) \<Longrightarrow> t = tr" for m tr r v t
    using leave_reply_trace [of m tr] by simp
  show "\<exists>es. t = tr @ es \<and> config_ops es = [] \<and> list_all served es" if run: "ietf_interface_state_cb E xp tr = (r, v, t)"
  proof (cases "node_name_eq E xp ''interface''")
    case True
    obtain q ds t' where i: "issue E interface_dump_all tr = (q, ds, t')" by (rule prod_cases3)
    with run True have "t = t'"
      by (cases q) (auto simp: ietf_interface_state_cb_def Let_def split: if_splits dest: reply)
    with issue_serves [OF i] show ?thesis by simp
  qed (use run in \<open>simp add: ietf_interface_state_cb_def trace_simps\<close>)
  show "t = tr" if "interface_statistics_cb E xp tr = (r, v, t)"
    using that by (auto simp: interface_statistics_cb_def Let_def split: option.splits if_splits dest: reply)
  show "t = tr" if "nat_cap_state_cb E xp tr = (r, v, t)"
    using that by (auto simp: nat_cap_state_cb_def Let_def split: if_splits dest: reply)
  show "\<exists>es. t = tr @ es \<and> config_ops es = [] \<and> list_all served es" if run: "oc_interfaces_state_cb E x a b tr = (r, v, t)"
  proof (cases "t = tr")
    case False
    with run obtain n q ds t' where i: "issue E (interface_dump_one n) tr = (q, ds, t')" and "t = t'"
      by (auto simp: oc_interfaces_state_cb_def Let_def split: option.splits if_splits prod.splits result.splits
          list.splits dest: reply)
    with issue_serves [OF i] show ?thesis by simp
  qed (simp add: trace_simps)
qed

lemma create_finish_serves:
  "\<exists>es. icb_trace (flow_state (create_finish E s)) = icb_trace s @ es \<and> list_all served es"
  by (auto simp: create_finish_def create_build_def create_commit_def call_om_write_def call_om_remove_def
      icb_emit_def flow_simps Let_def split: option.splits flow_splits)

lemma ietf_create_serves:
  "\<exists>es. snd (ietf_interface_create_cb E sess xp ev junk tr) = tr @ es \<and> list_all served es"
proof -
  have fin: "\<exists>es. icb_trace (flow_state (create_finish E (s\<lparr>icb_vals := vals_after_loop E ev (icb_vals s)\<rparr>))) =
      icb_trace s @ es \<and> list_all served es" for s
    using create_finish_serves [of E "s\<lparr>icb_vals := vals_after_loop E ev (icb_vals s)\<rparr>"] by simp
  have clean: "list_all served (snd (icb_cleanup s))" for s
    using frees_served by (simp add: icb_cleanup_def)
  from create_loop.run_emits [where P = served and clean = icb_cleanup
      and finish = "\<lambda>s. create_finish E (s\<lparr>icb_vals := vals_after_loop E ev (icb_vals s)\<rparr>)",
      OF emits_served(1) clean fin, of ev E 0 "s_changes sess xp" "icb_init junk tr"]
  show ?thesis by (auto simp: ietf_interface_create_cb_def icb_init_def)
qed

lemma ipv46_address_serves:
  "\<exists>es. snd (ietf_interface_ipv46_address_change_cb E sess xp ev tr) = tr @ es \<and> list_all served es"
proof -
  have fin: "\<exists>es. a_trace (flow_state (address_finish (s\<lparr>a_vals := vals_after_loop E ev (a_vals s)\<rparr>))) =
      a_trace s @ es \<and> list_all served es" for s
    by (simp add: address_finish_def flow_simps)
  have clean: "list_all served (snd (address_cleanup s))" for s
    using frees_served by (simp add: address_cleanup_def)
  from address_callback.run_emits [where P = served and clean = address_cleanup
      and finish = "\<lambda>s. address_finish (s\<lparr>a_vals := vals_after_loop E ev (a_vals s)\<rparr>)",
      OF emits_served(2) clean fin, of ev E 0 "s_changes sess xp" "acb_init tr"]
  show ?thesis by (auto simp: ietf_interface_ipv46_address_change_cb_def acb_init_def)
qed

lemma oc_finish_serves: "\<exists>es. o_trace (flow_state (oc_finish E s)) = o_trace s @ es \<and> list_all served es"
  by (auto simp: oc_finish_def oc_create_def oc_commit_def call_om_write_def call_om_remove_def
      ocb_emit_def flow_simps Let_def split: option.splits flow_splits)

lemma oc_config_serves:
  "\<exists>es. snd (oc_interfaces_config_cb E ds x ev junk tr) = tr @ es \<and> list_all served es"
proof -
  have fin: "\<exists>es. o_trace (flow_state (oc_finish E (s\<lparr>o_vals := vals_after_loop E ev (o_vals s)\<rparr>))) =
      o_trace s @ es \<and> list_all served es" for s
    using oc_finish_serves [of E "s\<lparr>o_vals := vals_after_loop E ev (o_vals s)\<rparr>"] by simp
  have clean: "list_all served (snd (oc_cleanup s))" for s
    using frees_served by (simp add: oc_cleanup_def)
  from oc_loop.run_emits [where P = served and clean = oc_cleanup
      and finish = "\<lambda>s. oc_finish E (s\<lparr>o_vals := vals_after_loop E ev (o_vals s)\<rparr>)",
      OF emits_served(3) clean fin, of ev E 0 "s_changes (the ds) (the x)" "ocb_init junk tr"]
  show ?thesis by (auto simp: oc_interfaces_config_cb_def ocb_init_def)
qed

lemma nat_finish_serves: "\<exists>es. n_trace (flow_state (nat_finish E s)) = n_trace s @ es \<and> list_all served es"
proof -
  have "\<exists>es. n_trace (flow_state (nat_write E u)) = n_trace u @ es \<and> list_all served es" for u
    by (cases "nb_type (n_builder u) = ''static''";
        cases "om_write E (n_trace u) (nat_key (n_xindex u)) (the (fst (nat_build E (n_builder u))))")
      (simp_all add: nat_write_def nat_build_eq call_om_write_def Let_def flow_simps)
  moreover have "\<exists>es. n_trace (flow_state (nat_erase E u)) = n_trace u @ es \<and> list_all served es" for u
    by (cases "om_remove E (n_trace u) (nat_key (n_xindex u))")
      (simp_all add: nat_erase_def call_om_remove_def Let_def flow_simps)
  ultimately have "\<exists>es. n_trace (flow_state (if n_create u then nat_write E u else if n_remove u then nat_erase E u else Next u)) =
      n_trace u @ es \<and> list_all served es" for u
    by (simp add: flow_simps)
  then obtain es where "n_trace (flow_state (nat_finish E s)) = n_trace (ncb_emit [Free_iter] s) @ es" "list_all served es"
    unfolding nat_finish_def Let_def flow_state_Ret by blast
  then show ?thesis by (simp add: ncb_emit_def)
qed

lemma nat_mapping_serves:
  assumes "nat_mapping_table_config_cb E ds x ev junk table tr = (r, t, table')"
  shows "\<exists>es. t = tr @ es \<and> list_all served es"
proof -
  have fin: "\<exists>es. n_trace (flow_state (nat_finish E (s\<lparr>n_vals := vals_after_loop E SR_EV_VERIFY (n_vals s)\<rparr>))) =
      n_trace s @ es \<and> list_all served es" for s
    using nat_finish_serves [of E "s\<lparr>n_vals := vals_after_loop E SR_EV_VERIFY (n_vals s)\<rparr>"] by simp
  have clean: "list_all served (snd (nat_cleanup s))" for s
    using frees_served by (simp add: nat_cleanup_def)
  from nat_loop.run_emits [where P = served and clean = nat_cleanup
      and finish = "\<lambda>s. nat_finish E (s\<lparr>n_vals := vals_after_loop E SR_EV_VERIFY (n_vals s)\<rparr>)",
      OF emits_served(4) clean fin, of SR_EV_VERIFY E 0 "s_changes (the ds) (the x)" "ncb_init junk table tr"]
  have "\<exists>es. snd (leave_callback n_trace nat_cleanup (nat_run E (s_changes (the ds) (the x)) (ncb_init junk table tr))) =
      tr @ es \<and> list_all served es"
    by (simp add: nat_run_def)
  with assms show ?thesis
    by (auto simp: nat_mapping_table_config_cb_def Let_def split: if_splits prod.splits)
qed

text \<open>A health check leaves the trace, or gives up the connection, makes a new one and replays.\<close>

lemma check_reconnects:
  assumes "sr_plugin_health_check_cb E proc pm = Some (e, pm')"
  obtains "out pm' = out pm"
  | n where "out pm' = out pm @ [Hw_disconnect] @ failures n @ [Hw_connect True, Om_replay]"
proof (cases "connect_loop E (out pm @ [Hw_disconnect])")
  case None
  with assms have "out pm' = out pm"
    by (auto simp: sr_plugin_health_check_cb_def Let_def split: prod.splits if_splits)
  then show thesis by (rule that)
next
  case (Some tr)
  from connect_loop_Some [OF this] obtain n where
    tr: "tr = out pm @ [Hw_disconnect] @ failures n @ [Hw_connect True]" by (auto simp: connected_def)
  from assms Some have "out pm' = out pm \<or> out pm' = tr @ [Om_replay]"
    by (auto simp: sr_plugin_health_check_cb_def Let_def split: prod.splits if_splits)
  with tr that show thesis by auto
qed

lemma after_call_simps [simp]:
  "out (y_main (after_call r t y)) = t" "y_table (after_call r t y) = y_table y"
  "y_running (after_call r t y) = returned r"
  by (simp_all add: after_call_def)

text \<open>What a step adds to the trace: calls of a plugin in service, a reconnection, or the end.\<close>

lemma plugin_step_adds:
  assumes "plugin_step E y q r y'"
  obtains (call) es where "y_trace y' = y_trace y @ es" "list_all served es"
  | (reconnect) n where "y_trace y' = y_trace y @ [Hw_disconnect] @ failures n @ [Hw_connect True, Om_replay]"
  | (stop) es where "y_trace y' = y_trace y @ es @ [Hw_disconnect]" "es = [] \<or> es = [Unsubscribe]" "\<not> y_running y'"
  using assms
proof (cases rule: plugin_step.cases)
  case (itf_create sess xp ev junk t)
  with ietf_create_serves [of E sess xp ev junk "y_trace y"] show thesis by (auto intro: call)
next
  case (ipv46_address sess xp ev t)
  with ipv46_address_serves [of E sess xp ev "y_trace y"] show thesis by (auto intro: call)
next
  case (oc_config sess xp ev junk t)
  with oc_config_serves [of E "Some sess" "Some xp" ev junk "y_trace y"] show thesis by (auto intro: call)
next
  case (nat_instance sess xp ev t)
  then show thesis by (intro call [of "[]"]) (simp_all add: nat_instance_config_cb_def)
next
  case (nat_mapping sess xp ev njunk t table)
  with nat_mapping_serves [OF nat_mapping(4)] show thesis by (auto intro: call)
next
  case (itf_state xp v t)
  with ask_serves(1) [OF itf_state(4)] show thesis by (auto intro: call)
next
  case (itf_statistics xp v t)
  with ask_serves(2) [OF itf_statistics(4)] show thesis by (intro call [of "[]"]) simp_all
next
  case (oc_state xp v t)
  with ask_serves(3) [OF oc_state(4)] show thesis by (auto intro: call)
next
  case (nat_cap xp v t)
  with ask_serves(4) [OF nat_cap(4)] show thesis by (intro call [of "[]"]) simp_all
next
  case (check proc e pm)
  from check(5) show thesis
  proof (cases rule: check_reconnects)
    case 1
    with check show thesis by (intro call [of "[]"]) simp_all
  next
    case (2 n)
    with check show thesis by (intro reconnect [of n]) simp
  qed
next
  case (stop ctx)
  then show thesis
    by (intro that(3) [of "if ctx then [Unsubscribe] else []"]) (simp_all add: plugin_cleanup_eq)
qed

lemma step_appends: "plugin_step E y q r y' \<Longrightarrow> \<exists>es. y_trace y' = y_trace y @ es"
  by (erule plugin_step_adds) auto

section \<open>Invariants of the whole plugin\<close>

text \<open>Every entry of the table was accepted by VOM at some time.\<close>

definition backed :: "nat_table \<Rightarrow> trace \<Rightarrow> bool" where
  "backed table tr \<longleftrightarrow>
     (\<forall>x ins ou. table x = Some (ins, ou) \<longrightarrow> Om_write (nat_key x) (Obj_nat ins ou) (Inr RC_OK) \<in> set tr)"

lemma backed_mono: "backed table tr \<Longrightarrow> backed table (tr @ es)"
  by (auto simp: backed_def)

interpretation backing: nat_invariant backed
  by unfold_locales (auto simp: backed_def split: if_splits)

text \<open>C10: In every reachable state, after any sequence of notifications, requests and checks, each entry
  of the table of static mappings is one that VOM has accepted under the key of its index:
  the table never shows a mapping that was never configured.\<close>

theorem nat_entries_backed:
  assumes "reachable E y" and "y_table y x = Some (ins, ou)"
  shows "Om_write (nat_key x) (Obj_nat ins ou) (Inr RC_OK) \<in> set (y_trace y)"
proof -
  have "backed (y_table y) (y_trace y)"
    using assms(1)
  proof (induction rule: reachable.induct)
    case (step y q r y')
    from step_appends [OF step.hyps(2)] obtain es where es: "y_trace y' = y_trace y @ es" by blast
    from step.hyps(2) show ?case
    proof (cases rule: plugin_step.cases)
      case (nat_mapping sess xp ev njunk t table)
      from backing.callback_keeps [OF step.IH nat_mapping(4)] show ?thesis by (simp add: nat_mapping)
    qed (use backed_mono [OF step.IH, of es] es in \<open>simp_all\<close>)
  qed (simp add: backed_def)
  with assms(2) show ?thesis by (simp add: backed_def)
qed

text \<open>Operational data are read only: no request for them changes the configuration of VPP or the
  table, whatever it answers.\<close>

theorem reads_change_nothing:
  assumes "plugin_step E y (Ask cb xp) r y'"
  shows "config_ops (y_trace y') = config_ops (y_trace y) \<and> y_table y' = y_table y"
  using assms
proof (cases rule: plugin_step.cases)
  case (itf_state v t)
  with ask_serves(1) [OF itf_state(4)] show ?thesis by (auto simp: trace_simps)
next
  case (itf_statistics v t)
  with ask_serves(2) [OF itf_statistics(4)] show ?thesis by simp
next
  case (oc_state v t)
  with ask_serves(3) [OF oc_state(4)] show ?thesis by (auto simp: trace_simps)
next
  case (nat_cap v t)
  with ask_serves(4) [OF nat_cap(4)] show ?thesis by simp
qed

text \<open>C11: There is no second phase: the configuration is written while sysrepo only asks for its
  verification, so that neither the event that applies it nor the event that takes it back
  changes anything; what was written for a commit that another subscriber rejects stays in
  VPP.  The comments in the two callbacks of ietf-interfaces say that these care about the
  abort event, which the code does not: \<open>ietf_interface_create_cb\<close> leaves at once on
  anything but a verification, and the loop of the address callback takes no change of an
  aborted notification.\<close>

theorem apply_and_abort_change_nothing:
  assumes "plugin_step E y (Notify cb sess xp ev) r y'" and "ev = SR_EV_APPLY \<or> ev = SR_EV_ABORT"
  shows "config_ops (y_trace y') = config_ops (y_trace y) \<and> y_table y' = y_table y \<and> y_running y'"
  using assms(1)
proof (cases rule: plugin_step.cases)
  case (itf_create junk t)
  with assms(2) show ?thesis by (auto simp: ietf_interface_create_cb_def)
next
  case (ipv46_address t)
  with assms(2) show ?thesis
    by (auto simp: ietf_interface_ipv46_address_change_cb_def foreach_change_abort flow_simps address_finish_def
        acb_init_def trace_simps split: if_splits)
next
  case (oc_config junk t)
  with assms(2) show ?thesis by (auto simp: oc_interfaces_config_cb_def arg_check2_def)
next
  case (nat_instance t)
  then show ?thesis by (auto simp: nat_instance_config_cb_def)
next
  case (nat_mapping njunk t table)
  with assms(2) show ?thesis by (auto simp: nat_mapping_table_config_cb_def arg_check2_def)
qed







section \<open>A run\<close>

text \<open>The state after a start, the creation of entry 7 and the deletion of an interface named 7.\<close>

definition start_trace :: trace where
  "start_trace = [Hw_init, Om_init, Hw_connect True, Om_populate None] @ accepted [Pl_ietf_nat, Pl_openconfig_interface]"

definition sample_start :: sys where
  "sample_start =
     \<lparr>y_main = \<lparr>session = Some 1,
        init_function_registrations = map (is_called_update (\<lambda>_. True)) (init_function_registrations sample_main),
        exit_function_registrations = exit_function_registrations sample_main,
        vpp_pid_start = 42, errno = 0, out = start_trace\<rparr>,
      y_table = Map.empty, y_running = True\<rparr>"

lemma sample_start_reachable: "reachable sample_env sample_start"
proof -
  have pid: "get_vpp_pid sample_procfs 0 = (42, 0)" by code_simp
  have con: "connect_loop sample_env [Hw_init, Om_init] = Some [Hw_init, Om_init, Hw_connect True]"
    by (simp add: connect_loop.simps)
  have ok: "\<forall>t x. subscribe_rc sample_env t x = SR_ERR_OK" by simp
  have "uncalled (init_function_registrations sample_main) = [Pl_ietf_nat, Pl_openconfig_interface]"
    by (simp add: sample_main_def register_def)
  then have init: "sc_call_all_init_function (call_init sample_env) (init_function_registrations sample_main) tr =
      (SR_ERR_OK, map (is_called_update (\<lambda>_. True)) (init_function_registrations sample_main),
       tr @ accepted [Pl_ietf_nat, Pl_openconfig_interface])" for tr
    by (simp add: init_all_accepted [OF ok])
  have out: "out sample_main = []" "errno sample_main = 0" by (simp_all add: sample_main_def)
  have "sr_plugin_init_cb sample_env (\<lambda>_. sample_procfs) 1 False sample_main =
      Some (Returns SR_ERR_OK, subscription (y_main sample_start), y_main sample_start)"
    using pid con init out
    by (simp add: sr_plugin_init_cb_def Let_def sample_start_def start_trace_def subscription_def)
  from reachable.start [OF this] show ?thesis by (simp add: sample_main_def) (simp add: sample_start_def)
qed

definition entry_7 :: effect where
  "entry_7 = Om_write ''7'' (Obj_nat (Ip_v4 0x0A000002) (Ip_v4 0)) (Inr RC_OK)"

definition sample_mapped :: sys where
  "sample_mapped =
     sample_start\<lparr>y_main := (y_main sample_start)\<lparr>out := start_trace @
         [Free_vals 0, Free_vals 1, Free_vals 2, Free_iter, entry_7]\<rparr>,
       y_table := [7 \<mapsto> (Ip_v4 0x0A000002, Ip_v4 0)]\<rparr>"

lemma nat_key_7: "nat_key 7 = ''7''"
  by (simp add: nat_key_def) code_simp

lemma sample_nat_run:
  "nat_mapping_table_config_cb sample_env (Some (sample_session sample_nat_changes)) (Some ''/x'') SR_EV_VERIFY
     sample_nat_junk Map.empty tr =
   (Returned SR_ERR_OK, tr @ [Free_vals 0, Free_vals 1, Free_vals 2, Free_iter, entry_7],
    [7 \<mapsto> (Ip_v4 0x0A000002, Ip_v4 0)])"
proof -
  have ch: "sample_nat_changes = s_changes (sample_session sample_nat_changes) ''/x''"
    and rc: "changes_rc sample_env tr ''/x'' = SR_ERR_OK" by simp_all
  have len: "length sample_nat_changes = 3" by (simp add: sample_nat_changes_def)
  let ?s = "ncb_init sample_nat_junk Map.empty tr"
  have b: "nb_external_src (n_builder ?s) = prefix_default 0" "nb_internal_src (n_builder ?s) = prefix_default 0"
    by (simp_all add: ncb_init_def nat_static_builder_new_def sample_nat_junk_def)
  have up: "[0..<3] = [0, 1, 2::nat]" by (simp add: upt_rec)
  show ?thesis
    unfolding nat_cb_local [OF rc ch refl sample_nat_actions(2) refl] sample_nat_actions(1) len
    by (simp add: nat_finish_def ncb_emit_def nat_write_def nat_build_eq loop_trace_def up flow_simps Let_def
        call_om_write_def nat_set_type_def nat_key_7 prefix_address_def prefix_default_def ip_default_def b
        nat_inside_def nat_outside_def entry_7_def)
qed

lemma sample_mapped_reachable: "reachable sample_env sample_mapped"
proof -
  have "nat_mapping_table_config_cb sample_env (Some (sample_session sample_nat_changes)) (Some ''/x'') SR_EV_VERIFY
      sample_nat_junk (y_table sample_start) (y_trace sample_start) =
    (Returned SR_ERR_OK, start_trace @ [Free_vals 0, Free_vals 1, Free_vals 2, Free_iter, entry_7],
     [7 \<mapsto> (Ip_v4 0x0A000002, Ip_v4 0)])"
    using sample_nat_run [of start_trace] by (simp add: sample_start_def)
  from reachable.step [OF sample_start_reachable plugin_step.nat_mapping [OF _ this]] show ?thesis
    by (simp add: sample_start_def after_call_def sample_mapped_def)
qed

definition sample_deletion :: "change list" where
  "sample_deletion = [sample_deleted (sample_leaf ''7'' ''name'') (String_val ''7'')]"

lemma sample_delete_run:
  "ietf_interface_create_cb sample_env (sample_session sample_deletion) ''/x'' SR_EV_VERIFY no_junk tr =
     (Returned SR_ERR_OK, tr @ [Free_vals 0, Om_remove ''7'' None, Free_iter])"
  by (simp add: ietf_interface_create_cb_def create_body_defs sample_simps sample_deletion_def flow_simps icb_init_def
      interface_builder_new_def no_junk_def create_finish_def create_build_def create_commit_def call_om_remove_def
      builder_name_def set_name_def Let_def)

text \<open>C32: The keys of interfaces and of mappings share one name space: whenever the notification
  that an interface is deleted succeeds and the name of that interface is the key of an entry
  of the table of mappings, the last thing VOM has been told about that key is to remove it,
  while the table still shows the mapping.\<close>

theorem key_collision:
  assumes "plugin_step E y (Notify Cb_itf_create sess xp SR_EV_VERIFY) (Returned SR_ERR_OK) y'"
    and "changes_rc E (y_trace y) xp = SR_ERR_OK" and "asks E (s_changes sess xp) (Delete_itf (nat_key x))"
    and "y_table y x = Some m"
  shows "nat_view (y_trace y') x = None \<and> y_table y' x = Some m"
  using assms(1)
proof (cases rule: plugin_step.cases)
  case (itf_create junk t)
  let ?cs = "s_changes sess xp"
  have "\<forall>c \<in> set ?cs. is_deletion (itf_action_of E c)"
    using asks_action [OF assms(3)] by fastforce
  moreover have "\<exists>n. Act_delete n \<in> set (actions E ?cs)"
    using assms(3) by (auto simp: asks_actions_set)
  moreover from asks_names [OF assms(3)]
  have "set (List.map_filter act_names (actions E ?cs)) = {nat_key x}" by simp
  note last_all_equal(2) [OF this]
  ultimately have "t = loop_trace (length ?cs) (y_trace y) @ [Om_remove (nat_key x) None] @ [Free_iter]"
    using delete_batch_run [OF assms(2) refl refl, of sess junk] itf_create(3)
    by (auto simp: Let_def split: if_splits option.splits)
  then have "nat_view t = (nat_view (loop_trace (length ?cs) (y_trace y)))(x := None)"
    using nat_view_neutral [of "[Free_iter]" "loop_trace (length ?cs) (y_trace y) @ [Om_remove (nat_key x) None]"]
    by (simp add: nat_view_remove)
  with itf_create assms(4) show ?thesis by simp
qed

text \<open>
  A run of the plugin, from its start through the creation of the mapping with index 7 and the
  deletion of an interface that is named \<^verbatim>\<open>7\<close>.
\<close>

theorem key_collision_witness:
  "\<exists>y. reachable sample_env y \<and> y_running y \<and> y_table y 7 \<noteq> None \<and> nat_view (y_trace y) 7 = None"
proof -
  let ?y = "after_call (Returned SR_ERR_OK) (y_trace sample_mapped @ [Free_vals 0, Om_remove ''7'' None, Free_iter])
      sample_mapped"
  have "y_running sample_mapped" by (simp add: sample_mapped_def sample_start_def)
  note step = plugin_step.itf_create [OF this sample_delete_run]
  have asked: "asks sample_env (s_changes (sample_session sample_deletion) ''/x'') (Delete_itf (nat_key 7))"
    by (simp add: asks_def asked_actions_def actions_def itf_action_of_def sample_deletion_def sample_simps nat_key_7)
  have "y_table sample_mapped 7 = Some (Ip_v4 0x0A000002, Ip_v4 0)" by (simp add: sample_mapped_def)
  from key_collision [OF step _ asked this] reachable.step [OF sample_mapped_reachable step]
  show ?thesis by (intro exI [of _ ?y]) simp
qed

text \<open>The theorems above on the run of this section.\<close>

theorem nat_entries_backed_witness:
  "entry_7 \<in> set (y_trace sample_mapped)"
proof -
  have "y_table sample_mapped 7 = Some (Ip_v4 0x0A000002, Ip_v4 0)" by (simp add: sample_mapped_def)
  from nat_entries_backed [OF sample_mapped_reachable this] show ?thesis
    by (simp add: entry_7_def nat_key_7)
qed

theorem reads_change_nothing_witness:
  "\<exists>y'. plugin_step sample_env sample_mapped (Ask Cb_nat_cap ''/x'') (Returned SR_ERR_OK) y' \<and>
     config_ops (y_trace y') = [entry_7]"
proof -
  obtain v where "nat_cap_state_cb sample_env ''/x'' (y_trace sample_mapped) =
      (Returned SR_ERR_OK, v, y_trace sample_mapped)"
    by (simp add: nat_cap_state_cb_def put_value_def new_values_def flow_simps)
  moreover have "y_running sample_mapped" by (simp add: sample_mapped_def sample_start_def)
  ultimately have step: "plugin_step sample_env sample_mapped (Ask Cb_nat_cap ''/x'') (Returned SR_ERR_OK)
      (after_call (Returned SR_ERR_OK) (y_trace sample_mapped) sample_mapped)"
    by (intro plugin_step.nat_cap)
  have "config_ops start_trace = []"
    by (simp add: start_trace_def accepted_def ietf_nat_subs_def openconfig_subs_def trace_simps)
  then have "config_ops (y_trace sample_mapped) = [entry_7]"
    by (simp add: sample_mapped_def trace_simps entry_7_def)
  with reads_change_nothing [OF step] step show ?thesis by auto
qed

theorem apply_and_abort_change_nothing_witness:
  "\<exists>y'. plugin_step sample_env sample_mapped (Notify Cb_nat_mapping (sample_session sample_nat_changes) ''/x'' SR_EV_ABORT)
      (Returned SR_ERR_OK) y' \<and> y_table y' = y_table sample_mapped \<and> y_running y'"
proof -
  have "nat_mapping_table_config_cb sample_env (Some (sample_session sample_nat_changes)) (Some ''/x'') SR_EV_ABORT
      sample_nat_junk (y_table sample_mapped) (y_trace sample_mapped) =
      (Returned SR_ERR_OK, y_trace sample_mapped, y_table sample_mapped)"
    by (simp add: nat_mapping_table_config_cb_def arg_check2_def)
  moreover have "y_running sample_mapped" by (simp add: sample_mapped_def sample_start_def)
  ultimately have step: "plugin_step sample_env sample_mapped
      (Notify Cb_nat_mapping (sample_session sample_nat_changes) ''/x'' SR_EV_ABORT) (Returned SR_ERR_OK)
      ((after_call (Returned SR_ERR_OK) (y_trace sample_mapped) sample_mapped)\<lparr>y_table := y_table sample_mapped\<rparr>)"
    by (intro plugin_step.nat_mapping)
  from apply_and_abort_change_nothing [OF step] step show ?thesis by auto
qed


end
