(* ===== verification/Operational_Replies.thy ===== *)
theory Operational_Replies
  imports Oc_State Ietf_Nat
begin

text \<open>
  What the four operational callbacks have in common: whatever they answer, the array they
  hand out is one that sysrepo may read.
\<close>

lemma state_values_typed: "list_all well_typed (state_values E xpath d)"
  by (simp add: state_values_def well_typed_def)

lemma statistics_values_typed: "list_all well_typed (statistics_values xpath stats)"
  by (simp add: statistics_values_def well_typed_def)

lemma oc_state_values_typed: "list_all well_typed (oc_state_values E root d)"
  by (simp add: oc_state_values_def well_typed_def)

lemma state_loop_ok: "reply_ok r \<Longrightarrow> state_loop E xpath ds r = Next r' \<Longrightarrow> reply_ok r'"
proof (induction ds arbitrary: r)
  case (Cons d ds)
  then obtain q where q: "put_values (state_values E xpath d) r = Next q" "state_loop E xpath ds q = Next r'"
    by (auto simp: then_flow_Next_iff)
  from Cons.IH [OF put_values_ok [OF state_values_typed Cons.prems(1) q(1)] q(2)] show ?case .
qed simp

lemma leave_reply_Values: "leave_reply m tr = (r, Values rep, t) \<longleftrightarrow> m = Next rep \<and> r = Returned SR_ERR_OK \<and> t = tr"
  by (cases m) (auto simp: flow_simps)

lemma ask_reply_ok:
  "ietf_interface_state_cb E xp tr = (r, Values rep, t) \<Longrightarrow> r = Returned SR_ERR_OK \<and> reply_ok rep"
  "interface_statistics_cb E xp tr = (r, Values rep, t) \<Longrightarrow> r = Returned SR_ERR_OK \<and> reply_ok rep"
  "oc_interfaces_state_cb E x a b tr = (r, Values rep, t) \<Longrightarrow> r = Returned SR_ERR_OK \<and> reply_ok rep"
  "nat_cap_state_cb E xp tr = (r, Values rep, t) \<Longrightarrow> r = Returned SR_ERR_OK \<and> reply_ok rep"
proof -
  show "r = Returned SR_ERR_OK \<and> reply_ok rep" if "ietf_interface_state_cb E xp tr = (r, Values rep, t)"
    using that state_loop_ok [OF new_values_ok]
    by (auto simp: ietf_interface_state_cb_def Let_def leave_reply_Values split: if_splits prod.splits result.splits)
  show "r = Returned SR_ERR_OK \<and> reply_ok rep" if "interface_statistics_cb E xp tr = (r, Values rep, t)"
    using that put_values_ok [OF statistics_values_typed new_values_ok]
    by (auto simp: interface_statistics_cb_def Let_def leave_reply_Values split: if_splits option.splits)
  show "r = Returned SR_ERR_OK \<and> reply_ok rep" if "oc_interfaces_state_cb E x a b tr = (r, Values rep, t)"
    using that put_values_ok [OF oc_state_values_typed new_values_ok]
    by (auto simp: oc_interfaces_state_cb_def Let_def leave_reply_Values
        split: if_splits option.splits prod.splits result.splits list.splits)
  show "r = Returned SR_ERR_OK \<and> reply_ok rep" if "nat_cap_state_cb E xp tr = (r, Values rep, t)"
  proof -
    let ?v = "\<lparr>v_xpath = xp @ ''/static-mapping'', v_type = SR_BOOL_T, v_data = Bool_val True\<rparr>"
    have typed: "well_typed ?v" by (simp add: well_typed_def)
    from that put_value_ok [OF new_values_ok typed] show ?thesis
      by (auto simp: nat_cap_state_cb_def Let_def leave_reply_Values split: if_splits)
  qed
qed

text \<open>C17: Well-formed replies: whenever one of the four operational callbacks hands out an array, it
  returns success, the count lies within the array, each counted cell holds a value whose
  member of the union is the one its type announces, and no other cell was written.\<close>

theorem operational_replies_typed:
  assumes "result \<in> {ietf_interface_state_cb E xp tr, interface_statistics_cb E xp tr,
      oc_interfaces_state_cb E x a b tr, nat_cap_state_cb E xp tr}"
    and "result = (r, Values rep, t)"
  shows "r = Returned SR_ERR_OK \<and> r_cnt rep \<le> length (r_vals rep) \<and>
    (\<forall>i < r_cnt rep. \<exists>v. r_vals rep ! i = Some v \<and> well_typed v) \<and>
    (\<forall>i. r_cnt rep \<le> i \<and> i < length (r_vals rep) \<longrightarrow> r_vals rep ! i = None)"
proof -
  from assms have ok: "r = Returned SR_ERR_OK \<and> reply_ok rep"
    using ask_reply_ok by (metis empty_iff insert_iff)
  then have cnt: "r_cnt rep \<le> length (r_vals rep)"
    and full: "list_all (\<lambda>c. case c of None \<Rightarrow> False | Some v \<Rightarrow> well_typed v) (take (r_cnt rep) (r_vals rep))"
    and rest: "list_all (\<lambda>c. c = None) (drop (r_cnt rep) (r_vals rep))"
    by (auto simp: reply_ok_def)
  have "\<exists>v. r_vals rep ! i = Some v \<and> well_typed v" if "i < r_cnt rep" for i
  proof -
    have "case take (r_cnt rep) (r_vals rep) ! i of None \<Rightarrow> False | Some v \<Rightarrow> well_typed v"
      using full that cnt by (simp add: list_all_length)
    with that show ?thesis by (simp split: option.splits)
  qed
  moreover have "r_vals rep ! i = None" if "r_cnt rep \<le> i" "i < length (r_vals rep)" for i
  proof -
    have "i - r_cnt rep < length (drop (r_cnt rep) (r_vals rep))" using that by simp
    with rest have "drop (r_cnt rep) (r_vals rep) ! (i - r_cnt rep) = None"
      unfolding list_all_length by blast
    with that show ?thesis by simp
  qed
  ultimately show ?thesis using ok cnt by blast
qed

theorem operational_replies_typed_witness:
  "\<exists>rep. nat_cap_state_cb sample_env ''/c'' [] = (Returned SR_ERR_OK, Values rep, []) \<and>
     (\<exists>v. r_vals rep ! 0 = Some v \<and> well_typed v)"
proof -
  obtain rep where run: "nat_cap_state_cb sample_env ''/c'' [] = (Returned SR_ERR_OK, Values rep, [])"
    and cnt: "r_cnt rep = 1"
    by (simp add: nat_cap_state_cb_def put_value_def new_values_def flow_simps)
  have "(Returned SR_ERR_OK, Values rep, []) \<in> {ietf_interface_state_cb sample_env ''/c'' [],
      interface_statistics_cb sample_env ''/c'' [], oc_interfaces_state_cb sample_env None None None [],
      nat_cap_state_cb sample_env ''/c'' []}" by (simp add: run)
  from operational_replies_typed [OF this refl] cnt run show ?thesis
    by (metis zero_less_one)
qed

end
