(* ===== verification/Spec2Isabelle.thy ===== *)
theory Spec2Isabelle
  imports Plugin_System Operational_Replies Itf_Store
begin

text \<open>
  Sweetcomb: a verification development for the sysrepo plugin that configures VPP.

  \<^bold>\<open>The program.\<close>  \<^verbatim>\<open>src/plugins/\<close> is one shared library, loaded by the
  sysrepo daemon.  sysrepo calls three entry points (\<^verbatim>\<open>sc_plugins.c\<close>): the start, which
  connects to VPP through the VOM library and runs the init functions of the models, a health
  check that reconnects when VPP was restarted, and the cleanup.  The init functions are kept
  in linked lists that constructors fill (\<^verbatim>\<open>sc_init.h\<close>, \<^verbatim>\<open>sc_init.c\<close>); each of them
  subscribes callbacks for a YANG model.  A configuration callback is notified of a batch of
  changes, loops over them with \<open>foreach_change\<close> (\<^verbatim>\<open>sys_util.h\<close>), collects what they
  say in local variables and a builder object, and after the loop writes to or removes from
  VOM, which pushes the change to VPP.  An operational callback dumps data from VPP and fills
  an array of values.  The models are ietf-interfaces (\<^verbatim>\<open>ietf/ietf_interface.cpp\<close>),
  ietf-nat (\<^verbatim>\<open>ietf/ietf_nat.cpp\<close>) and openconfig-interfaces
  (\<^verbatim>\<open>openconfig/openconfig_interfaces.cpp\<close>).

  \<^bold>\<open>How it is modelled.\<close>  A callback is a function from what it is given (the session with
  its changes, the event, what the uninitialised local variables happen to hold) and from the
  trace of all external calls made so far to its result and the longer trace.  The answers of
  sysrepo, VOM, VPP and Boost, which are not in the repository, are the fields of the record
  \<open>env\<close> and may depend on the whole trace; nothing is assumed of them but what a theorem
  names as a hypothesis.  Inside a callback a statement works on the record of the local
  variables and ends in a \<open>flow\<close>: it falls through, jumps to the cleanup, returns, throws,
  or runs into undefined behaviour (a null pointer, the wrong member of a union, a write past
  the end of a buffer, an iterator past the end), each of which is a value.  A value or an
  iterator that is freed twice shows as two entries of the trace.  Integers keep their width
  as words or within their range (\<open>atoi\<close> narrows as the C library does);
  \<open>std::stoi\<close>, \<open>atoi\<close>, \<open>snprintf\<close> and \<open>strtok\<close> are functions on
  strings.  Log lines are modelled only as far as they dereference pointers.

  \<^bold>\<open>The theories.\<close>
  \<^item> \<open>Prelude\<close>: ways a statement ends, the combinators and their simplification rules.
    \<open>Cpp_Std\<close>: the parts of the C and C++ library.  \<open>Sysrepo_Vom\<close>: the types of the
    libraries, the trace and the record \<open>env\<close>.  \<open>Sample_Env\<close>: one concrete
    environment, used by witnesses only.
  \<^item> \<open>Sys_Util\<close>: \<^verbatim>\<open>sys_util.h\<close> and \<^verbatim>\<open>sys_util.cpp\<close>.  The loop macro, the netmask
    conversion (it counts bits in the byte order of the host) and the class \<open>prefix\<close>
    (exactly the texts it accepts; printing and reading is the identity).
  \<^item> \<open>Change_Loop\<close>: what the configuration callbacks share, as locales.
    \<open>change_body\<close> is the contract of a loop body towards the memory it is given,
    \<open>config_callback\<close> extends it to a whole callback, \<open>body_simulation\<close> relates two
    bodies; each callback interprets them.  \<open>Builder_Spec\<close>: the contract of an interface
    builder, interpreted by the two classes of that name.
  \<^item> \<open>Ietf_Interface\<close>, \<open>Ietf_Ipv46\<close>: the two configuration callbacks of ietf-interfaces,
    on batches of creations, modifications, deletions and addresses, and their memory.
    \<open>Itf_Store\<close>: on notifications about one interface each, the first of them refines
    a store of interfaces by name: same answers, same contents; a change that VPP refuses is
    not undone, though.
  \<^item> \<open>Reply_Values\<close>, \<open>Vpp_Oper\<close>, \<open>Ietf_State\<close>, \<open>Oc_State\<close>,
    \<open>Operational_Replies\<close>: the arrays of values, the dump command and the operational
    callbacks; every array handed out is well typed and within bounds.
  \<^item> \<open>Oc_Interfaces\<close>: the openconfig callback, which does what the ietf one does where
    every change has a new value, and never succeeds on a deletion.
  \<^item> \<open>Ietf_Nat\<close>, \<open>Nat_Table\<close>: the table of static mappings; the locale
    \<open>nat_invariant\<close> shows once that the callback keeps any invariant between the table
    and the trace that accepted writes and removals keep, and is interpreted twice.
  \<^item> \<open>Sc_Init\<close>, \<open>Subscriptions\<close>, \<open>Sc_Plugins\<close>: registration, the init functions
    and the entry points.  The locale \<open>call_pass\<close> is the contract of a pass over a list of
    functions, interpreted for init and for exit.
  \<^item> \<open>Plugin_System\<close>: the plugin as a transition system of all callbacks, the health check
    and the cleanup.  In its reachable states every entry of the NAT table was accepted by VOM
    and the calls keep the order of the connection to VPP, a state machine over the trace; one
    run of it shows that the hypotheses can hold.

  \<^bold>\<open>Loops and bounds.\<close>  The loops over changes, dumps, lists and directory entries are
  recursions on lists; that of the netmask conversion is a \<open>function\<close> with the shrinking
  word as its measure.  The loop that waits for a connection may not end and is a
  \<open>partial_function\<close> in the option monad; a theorem of \<open>Sc_Plugins\<close> says exactly when it
  does.  There is no fuel.

  \<^bold>\<open>Not modelled.\<close>  The open files and the directory stream of the search for VPP are
  not counted, only what is read from them.  The lists of registered functions are lists and not pointers, as no
  element is ever linked twice and no registered function reaches back into them; calls are
  sequential, as sysrepo calls the callbacks of one plugin from one thread.  The YANG models
  under \<^verbatim>\<open>src/plugins/yang\<close>, the tests under \<^verbatim>\<open>test\<close>, and the build and packaging
  scripts are no code of the plugin.  Whatever VOM and VPP do with what they are told is
  theirs; where a theorem needs it, its hypotheses name it.
\<close>

end
